(* ===== verification/Prelude.thy ===== *)
theory Prelude
  imports Main
    "HOL-Library.Finite_Map"
    "HOL-Library.List_Lexorder"
    "HOL-Library.Char_ord"
    "HOL-Library.Multiset"
begin

text \<open>
  The vocabulary every component of the development shares:

  \<^item> effects: a Go function that may mutate a store and may return an error is a function
    \<open>'s \<Rightarrow> ('e + 'a) \<times> 's\<close>. The state is returned also when the call fails, because a Go
    error does not roll anything back;
  \<^item> simulation: \<open>refinesR\<close> relates an operation on a concrete store to its specification
    on an abstract one, and its rules lift the relation through sequencing and loops.
\<close>

section \<open>Hint collections\<close>

named_theorems eff_simps \<open>one-step equations of the effect combinators\<close>
named_theorems refine_rules \<open>introduction rules for simulation\<close>
named_theorems spec_defs \<open>definitions of the abstract store operations\<close>

section \<open>Effects\<close>

type_synonym ('e, 'a, 's) eff = "'s \<Rightarrow> ('e + 'a) \<times> 's"

definition ret :: "'a \<Rightarrow> ('e, 'a, 's) eff" where
  "ret a = (\<lambda>s. (Inr a, s))"

definition throw :: "'e \<Rightarrow> ('e, 'a, 's) eff" where
  "throw e = (\<lambda>s. (Inl e, s))"

definition andThen :: "('e, 'a, 's) eff \<Rightarrow> ('a \<Rightarrow> ('e, 'b, 's) eff) \<Rightarrow> ('e, 'b, 's) eff" where
  "andThen m f = (\<lambda>s. case m s of
     (Inl e, s1) \<Rightarrow> (Inl e, s1)
   | (Inr a, s1) \<Rightarrow> f a s1)"

definition gets :: "('s \<Rightarrow> 'a) \<Rightarrow> ('e, 'a, 's) eff" where
  "gets f = (\<lambda>s. (Inr (f s), s))"

definition modify :: "('s \<Rightarrow> 's) \<Rightarrow> ('e, unit, 's) eff" where
  "modify f = (\<lambda>s. (Inr (), f s))"

definition liftR :: "'e + 'a \<Rightarrow> ('e, 'a, 's) eff" where
  "liftR r = (\<lambda>s. (r, s))"

text \<open>A Go loop \<^verbatim>\<open>for _, x := range xs { if err := f(x); err != nil { return err } }\<close>.\<close>

fun forEach :: "('x \<Rightarrow> ('e, unit, 's) eff) \<Rightarrow> 'x list \<Rightarrow> ('e, unit, 's) eff" where
  "forEach f [] = ret ()"
| "forEach f (x # xs) = andThen (f x) (\<lambda>_. forEach f xs)"

lemma ret_apply [eff_simps]: "ret a s = (Inr a, s)"
  by (simp add: ret_def)

lemma throw_apply [eff_simps]: "throw e s = (Inl e, s)"
  by (simp add: throw_def)

lemma gets_apply [eff_simps]: "gets f s = (Inr (f s), s)"
  by (simp add: gets_def)

lemma modify_apply [eff_simps]: "modify f s = (Inr (), f s)"
  by (simp add: modify_def)

lemma liftR_apply [eff_simps]: "liftR r s = (r, s)"
  by (simp add: liftR_def)

lemma andThen_apply [eff_simps]:
  "andThen m f s = (case m s of (Inl e, s1) \<Rightarrow> (Inl e, s1) | (Inr a, s1) \<Rightarrow> f a s1)"
  by (simp add: andThen_def)

lemma andThen_Inl: "m s = (Inl e, s1) \<Longrightarrow> andThen m f s = (Inl e, s1)"
  by (simp add: andThen_def)

lemma andThen_Inr: "m s = (Inr a, s1) \<Longrightarrow> andThen m f s = f a s1"
  by (simp add: andThen_def)

lemma andThen_InrE:
  assumes "andThen m f s = (Inr b, s2)"
  obtains a s1 where "m s = (Inr a, s1)" "f a s1 = (Inr b, s2)"
  using assms by (auto simp: andThen_def split: prod.splits sum.splits)

lemma andThen_assoc: "andThen (andThen m f) g = andThen m (\<lambda>a. andThen (f a) g)"
  by (rule ext) (simp add: andThen_def split: prod.splits sum.splits)

lemma andThen_ret: "andThen (ret a) f = f a"
  by (rule ext) (simp add: eff_simps)

lemma forEach_append:
  "forEach f (xs @ ys) = andThen (forEach f xs) (\<lambda>_. forEach f ys)"
proof (induction xs)
  case Nil
  show ?case by (rule ext) (simp add: eff_simps)
next
  case (Cons x xs)
  then show ?case by (simp add: andThen_assoc)
qed

text \<open>A property of the state that every pass of the body keeps is kept by the loop.\<close>

lemma forEach_invariant:
  assumes "\<And>x s. x \<in> set xs \<Longrightarrow> P s \<Longrightarrow> P (snd (f x s))" and "P s"
  shows "P (snd (forEach f xs s))"
  using assms
proof (induction xs arbitrary: s)
  case Nil
  then show ?case by (simp add: eff_simps)
next
  case (Cons x xs)
  have step: "P (snd (f x s))" using Cons.prems by simp
  show ?case
  proof (cases "f x s")
    case (Pair r s1)
    then show ?thesis using step Cons
      by (cases r) (auto simp: andThen_apply)
  qed
qed

text \<open>A loop whose body always succeeds is a fold.\<close>

lemma forEach_fold:
  assumes "\<And>x s. x \<in> set xs \<Longrightarrow> f x s = (Inr (), g x s)"
  shows "forEach f xs s = (Inr (), fold g xs s)"
  using assms by (induction xs arbitrary: s) (auto simp: eff_simps)

section \<open>Running an operation on a part of a larger state\<close>

definition onFst :: "('e, 'a, 's) eff \<Rightarrow> ('e, 'a, 's \<times> 't) eff" where
  "onFst m = (\<lambda>(s, t). let (r, s1) = m s in (r, (s1, t)))"

definition onSnd :: "('e, 'a, 't) eff \<Rightarrow> ('e, 'a, 's \<times> 't) eff" where
  "onSnd m = (\<lambda>(s, t). let (r, t1) = m t in (r, (s, t1)))"

lemma onFst_apply [eff_simps]: "onFst m st = (fst (m (fst st)), (snd (m (fst st)), snd st))"
  by (simp add: onFst_def case_prod_beta)

lemma onSnd_apply [eff_simps]: "onSnd m st = (fst (m (snd st)), (fst st, snd (m (snd st))))"
  by (simp add: onSnd_def case_prod_beta)

section \<open>Simulation\<close>

text \<open>
  \<open>refines_at iv \<alpha> R m sp s\<close>: from the state \<open>s\<close>, the operation \<open>m\<close> and its specification
  \<open>sp\<close> on the abstract state return the same error or \<open>R\<close>-related results, and end in states
  that correspond and keep the invariant. \<open>refinesR\<close> says so of every state with the invariant.
\<close>

definition refines_at :: "('c \<Rightarrow> bool) \<Rightarrow> ('c \<Rightarrow> 'a) \<Rightarrow> ('x \<Rightarrow> 'y \<Rightarrow> bool)
    \<Rightarrow> ('e, 'x, 'c) eff \<Rightarrow> ('e, 'y, 'a) eff \<Rightarrow> 'c \<Rightarrow> bool" where
  "refines_at iv \<alpha> R m sp s \<longleftrightarrow>
        rel_sum (=) R (fst (m s)) (fst (sp (\<alpha> s)))
      \<and> \<alpha> (snd (m s)) = snd (sp (\<alpha> s))
      \<and> iv (snd (m s))"

definition refinesR :: "('c \<Rightarrow> bool) \<Rightarrow> ('c \<Rightarrow> 'a) \<Rightarrow> ('x \<Rightarrow> 'y \<Rightarrow> bool)
    \<Rightarrow> ('e, 'x, 'c) eff \<Rightarrow> ('e, 'y, 'a) eff \<Rightarrow> bool" where
  "refinesR iv \<alpha> R m sp \<longleftrightarrow> (\<forall>s. iv s \<longrightarrow> refines_at iv \<alpha> R m sp s)"

abbreviation refines :: "('c \<Rightarrow> bool) \<Rightarrow> ('c \<Rightarrow> 'a) \<Rightarrow> ('e, 'x, 'c) eff \<Rightarrow> ('e, 'x, 'a) eff \<Rightarrow> bool" where
  "refines iv \<alpha> \<equiv> refinesR iv \<alpha> (=)"

lemma refinesRI:
  "(\<And>s. iv s \<Longrightarrow> refines_at iv \<alpha> R m sp s) \<Longrightarrow> refinesR iv \<alpha> R m sp"
  by (simp add: refinesR_def)

lemma refinesI:
  assumes "\<And>s. iv s \<Longrightarrow> fst (m s) = fst (sp (\<alpha> s))"
    and "\<And>s. iv s \<Longrightarrow> \<alpha> (snd (m s)) = snd (sp (\<alpha> s))"
    and "\<And>s. iv s \<Longrightarrow> iv (snd (m s))"
  shows "refines iv \<alpha> m sp"
  using assms by (simp add: refinesR_def refines_at_def sum.rel_eq)

lemma refinesR_at: "refinesR iv \<alpha> R m sp \<Longrightarrow> iv s \<Longrightarrow> refines_at iv \<alpha> R m sp s"
  by (simp add: refinesR_def)

lemma refinesD:
  assumes "refines iv \<alpha> m sp" and "iv s"
  shows "fst (m s) = fst (sp (\<alpha> s))" "\<alpha> (snd (m s)) = snd (sp (\<alpha> s))" "iv (snd (m s))"
  using assms by (simp_all add: refinesR_def refines_at_def sum.rel_eq)

lemma refines_run:
  assumes "refines iv \<alpha> m sp" and "iv s" and "m s = (r, s1)"
  shows "sp (\<alpha> s) = (r, \<alpha> s1)" "iv s1"
  using refinesD[OF assms(1,2)] assms(3) by (auto simp: prod_eq_iff)

lemma refinesRD:
  assumes "refinesR iv \<alpha> R m sp" and "iv s"
  shows "rel_sum (=) R (fst (m s)) (fst (sp (\<alpha> s)))"
    "\<alpha> (snd (m s)) = snd (sp (\<alpha> s))" "iv (snd (m s))"
  using assms by (simp_all add: refinesR_def refines_at_def)

lemma refines_gets_R:
  "refines iv \<alpha> m (gets f) \<Longrightarrow> (\<And>a. R (f a) (f a)) \<Longrightarrow> refinesR iv \<alpha> R m (gets f)"
  by (simp add: refinesR_def refines_at_def gets_def sum.rel_eq)

lemma refines_ret [refine_rules]: "R x y \<Longrightarrow> refinesR iv \<alpha> R (ret x) (ret y)"
  by (simp add: refinesR_def refines_at_def ret_def)

lemma refines_throw [refine_rules]: "refinesR iv \<alpha> R (throw e) (throw e)"
  by (simp add: refinesR_def refines_at_def throw_def)

lemma refines_at_andThen:
  assumes m: "refines_at iv \<alpha> R m sp s"
    and f: "\<And>x y s1. m s = (Inr x, s1) \<Longrightarrow> sp (\<alpha> s) = (Inr y, \<alpha> s1) \<Longrightarrow> R x y \<Longrightarrow> iv s1
      \<Longrightarrow> refines_at iv \<alpha> Q (f x) (g y) s1"
  shows "refines_at iv \<alpha> Q (andThen m f) (andThen sp g) s"
proof -
  obtain r s1 where ms: "m s = (r, s1)" by force
  obtain r' a1 where sps: "sp (\<alpha> s) = (r', a1)" by force
  from m ms sps have rel: "rel_sum (=) R r r'" and a1: "\<alpha> s1 = a1" and s1: "iv s1"
    by (auto simp: refines_at_def)
  show ?thesis
  proof (cases r)
    case (Inl e)
    with rel have "r' = Inl e" by (cases r') auto
    with Inl ms sps a1 s1 show ?thesis by (simp add: refines_at_def andThen_def)
  next
    case (Inr x)
    with rel obtain y where y: "r' = Inr y" "R x y" by (cases r') auto
    have "refines_at iv \<alpha> Q (f x) (g y) s1" using f Inr y ms sps a1 s1 by simp
    then show ?thesis using Inr y ms sps a1 by (simp add: refines_at_def andThen_def)
  qed
qed

lemma refines_andThen [refine_rules]:
  assumes "refinesR iv \<alpha> R m sp"
    and "\<And>x y. R x y \<Longrightarrow> refinesR iv \<alpha> Q (f x) (g y)"
  shows "refinesR iv \<alpha> Q (andThen m f) (andThen sp g)"
  using assms by (auto intro!: refinesRI refines_at_andThen dest: refinesR_at)

lemma refines_seq:
  assumes "refines iv \<alpha> m sp" and "refinesR iv \<alpha> Q f g"
  shows "refinesR iv \<alpha> Q (andThen m (\<lambda>_. f)) (andThen sp (\<lambda>_. g))"
  using assms by (rule refines_andThen)

lemma refines_if [refine_rules]:
  "(b \<Longrightarrow> refinesR iv \<alpha> R m sp) \<Longrightarrow> (\<not> b \<Longrightarrow> refinesR iv \<alpha> R m' sp')
   \<Longrightarrow> refinesR iv \<alpha> R (if b then m else m') (if b then sp else sp')"
  by simp

lemma refines_forEach [refine_rules]:
  assumes "\<And>x. x \<in> set xs \<Longrightarrow> refines iv \<alpha> (f x) (g x)"
  shows "refines iv \<alpha> (forEach f xs) (forEach g xs)"
  using assms
proof (induction xs)
  case Nil
  show ?case by (simp add: refines_ret)
next
  case (Cons x xs)
  then show ?case by (auto intro!: refines_andThen)
qed

definition both :: "('c \<Rightarrow> bool) \<Rightarrow> ('d \<Rightarrow> bool) \<Rightarrow> 'c \<times> 'd \<Rightarrow> bool" where
  "both iv iv' st \<longleftrightarrow> iv (fst st) \<and> iv' (snd st)"

lemma both_pair [simp]: "both iv iv' (s, t) \<longleftrightarrow> iv s \<and> iv' t"
  by (simp add: both_def)

lemma refines_onFst [refine_rules]:
  assumes "refinesR iv \<alpha> R m sp"
  shows "refinesR (both iv iv') (map_prod \<alpha> \<alpha>') R (onFst m) (onFst sp)"
  using assms by (auto simp: refinesR_def refines_at_def onFst_apply both_def)

lemma refines_onSnd [refine_rules]:
  assumes "refinesR iv' \<alpha>' R m sp"
  shows "refinesR (both iv iv') (map_prod \<alpha> \<alpha>') R (onSnd m) (onSnd sp)"
  using assms by (auto simp: refinesR_def refines_at_def onSnd_apply both_def)

end
