(* ===== verification/Utf8.thy ===== *)
theory Utf8
  imports Prelude
begin

text \<open>
  Go strings are sequences of bytes that need not be UTF-8, but \<^verbatim>\<open>encoding/json\<close> and \<open>strings.ToLower\<close>
  read them rune by rune: a byte that starts no valid encoding counts as one U+FFFD. This theory models
  that reading (\<open>DecodeRune\<close> and \<open>ValidString\<close> of \<^verbatim>\<open>unicode/utf8\<close>) and shows when it loses nothing.
\<close>

section \<open>Runes\<close>

definition byte :: "char \<Rightarrow> nat" where
  "byte c = of_char c"

text \<open>The string goes on with \<open>n\<close> continuation bytes, the first of them between \<open>lo\<close> and \<open>hi\<close>.\<close>

fun continued :: "nat \<Rightarrow> nat \<Rightarrow> nat \<Rightarrow> string \<Rightarrow> bool" where
  "continued 0 lo hi s = True"
| "continued (Suc n) lo hi [] = False"
| "continued (Suc n) lo hi (c # s) \<longleftrightarrow> lo \<le> byte c \<and> byte c \<le> hi \<and> continued n 128 191 s"

text \<open>
  What may follow a first byte: how many continuation bytes, and the range of the next one. The
  ranges admit shortest forms only, no surrogates, and nothing above U+10FFFF.
\<close>

definition first_byte :: "nat \<Rightarrow> (nat \<times> nat \<times> nat) option" where
  "first_byte b =
     (if b < 128 then Some (0, 128, 191)
      else if 194 \<le> b \<and> b \<le> 223 then Some (1, 128, 191)
      else if b = 224 then Some (2, 160, 191)
      else if b = 237 then Some (2, 128, 159)
      else if 225 \<le> b \<and> b \<le> 239 then Some (2, 128, 191)
      else if b = 240 then Some (3, 144, 191)
      else if b = 244 then Some (3, 128, 143)
      else if 241 \<le> b \<and> b \<le> 243 then Some (3, 128, 191)
      else None)"

text \<open>The number of bytes of the encoding that a string begins with, 0 if it begins with none.\<close>

fun rune_len :: "string \<Rightarrow> nat" where
  "rune_len [] = 0"
| "rune_len (c # s) = (case first_byte (byte c) of
       None \<Rightarrow> 0
     | Some (n, lo, hi) \<Rightarrow> if continued n lo hi s then Suc n else 0)"

definition RuneError :: string where
  "RuneError = map char_of [239 :: nat, 191, 189]"

text \<open>The encodings of a string one by one, with \<open>RuneError\<close> for each byte that is in none.\<close>

function runes :: "string \<Rightarrow> string list" where
  "runes [] = []"
| "runes (c # s) = (let n = rune_len (c # s) in
     if n = 0 then RuneError # runes s else take n (c # s) # runes (drop n (c # s)))"
  by pat_completeness auto
termination by (relation "measure length") auto

function valid_utf8 :: "string \<Rightarrow> bool" where
  "valid_utf8 [] = True"
| "valid_utf8 (c # s) = (let n = rune_len (c # s) in
     if n = 0 then False else valid_utf8 (drop n (c # s)))"
  by pat_completeness auto
termination by (relation "measure length") auto

definition coerce_utf8 :: "string \<Rightarrow> string" where
  "coerce_utf8 s = concat (runes s)"

section \<open>What the reading keeps\<close>

lemma continued_append: "continued n lo hi s \<Longrightarrow> continued n lo hi (s @ t)"
  by (induction n lo hi s rule: continued.induct) auto

lemma continued_take: "continued n lo hi s \<Longrightarrow> n \<le> m \<Longrightarrow> continued n lo hi (take m s)"
proof (induction n lo hi s arbitrary: m rule: continued.induct)
  case (3 n lo hi c s)
  then show ?case by (cases m) auto
qed auto

lemma continued_length: "continued n lo hi s \<Longrightarrow> n \<le> length s"
  by (induction n lo hi s rule: continued.induct) auto

lemma rune_len_le: "rune_len s \<le> length s"
  by (cases s) (auto dest!: continued_length split: option.split)

text \<open>The length of an encoding depends on its bytes only.\<close>

lemma rune_len_prefix:
  assumes "rune_len s \<noteq> 0"
  shows "rune_len (take (rune_len s) s @ t) = rune_len s"
proof (cases s)
  case (Cons c r)
  obtain n lo hi where c: "first_byte (byte c) = Some (n, lo, hi)" "continued n lo hi r"
    using assms by (auto simp: Cons split: option.splits if_splits)
  then show ?thesis by (simp add: Cons continued_append continued_take)
qed (use assms in simp)

lemma rune_len_RuneError: "rune_len (RuneError @ t) = 3"
  by (simp add: first_byte_def RuneError_def byte_def numeral_2_eq_2)

lemma valid_append: "rune_len (s @ t) = length s \<Longrightarrow> s \<noteq> [] \<Longrightarrow> valid_utf8 t \<Longrightarrow> valid_utf8 (s @ t)"
  by (cases s) (simp_all del: rune_len.simps)

lemma coerce_valid [simp]: "valid_utf8 s \<Longrightarrow> coerce_utf8 s = s"
  unfolding coerce_utf8_def
proof (induction s rule: runes.induct)
  case (2 c s)
  then show ?case by (simp add: Let_def append_take_drop_id del: rune_len.simps split: if_splits)
qed simp

lemma valid_coerce [simp]: "valid_utf8 (coerce_utf8 s)"
  unfolding coerce_utf8_def
proof (induction s rule: runes.induct)
  case (2 c s)
  let ?n = "rune_len (c # s)"
  show ?case
  proof (cases "?n = 0")
    case True
    have "valid_utf8 (RuneError @ concat (runes s))"
      by (rule valid_append) (use 2(1)[OF refl True] in \<open>simp_all add: rune_len_RuneError, simp_all add: RuneError_def\<close>)
    then show ?thesis using True by (simp del: rune_len.simps)
  next
    case False
    have "valid_utf8 (take ?n (c # s) @ concat (runes (drop ?n (c # s))))"
      by (rule valid_append)
        (use 2(2)[OF refl False] False rune_len_le[of "c # s"] in \<open>simp_all add: rune_len_prefix del: rune_len.simps\<close>)
    then show ?thesis using False by (simp add: Let_def del: rune_len.simps)
  qed
qed simp

lemma coerce_eq_iff: "coerce_utf8 s = s \<longleftrightarrow> valid_utf8 s"
  using valid_coerce[of s] coerce_valid[of s] by metis

lemma ascii_valid: "list_all (\<lambda>c. byte c < 128) s \<Longrightarrow> valid_utf8 s"
  by (induction s) (simp_all add: first_byte_def)

lemma valid_utf8_Nil [simp]: "valid_utf8 ''''"
  by simp

text \<open>A lone byte above 127 is not UTF-8; read back it is U+FFFD.\<close>

lemma not_ascii_byte:
  assumes "128 \<le> byte c"
  shows "\<not> valid_utf8 [c]" "coerce_utf8 [c] = RuneError"
proof -
  have "rune_len [c] = 0" using assms by (simp add: first_byte_def numeral_2_eq_2 numeral_3_eq_3)
  then show "\<not> valid_utf8 [c]" "coerce_utf8 [c] = RuneError" by (simp_all add: coerce_utf8_def del: rune_len.simps)
qed

end
