(* ===== verification/GoLib.thy ===== *)
theory GoLib
  imports Utf8
begin

text \<open>
  What the program uses of the Go language and its standard library: maps (with the nil map
  and the unspecified order in which \<^verbatim>\<open>range\<close> visits keys), \<^verbatim>\<open>slices\<close> (\<open>BinarySearch\<close>,
  \<open>Insert\<close>, \<open>Index\<close>, \<open>Delete\<close>, \<open>Contains\<close>), \<^verbatim>\<open>sort\<close> and \<^verbatim>\<open>strings\<close> (\<open>Cut\<close>, \<open>CutPrefix\<close>,
  \<open>Split\<close>, \<open>ToLower\<close>). Go strings are byte strings and compare bytewise, which is the
  lexicographic order of \<open>char list\<close>. Where nil and empty slices cannot be told apart both are \<open>[]\<close>;
  where they can, a slice has the type \<open>slice\<close>.
\<close>

section \<open>Slices that may be nil\<close>

type_synonym 'a slice = "'a list option"

definition elems :: "'a slice \<Rightarrow> 'a list" where
  "elems s = (case s of None \<Rightarrow> [] | Some xs \<Rightarrow> xs)"

lemma elems_simps [simp]: "elems None = []" "elems (Some xs) = xs"
  by (simp_all add: elems_def)

text \<open>The second slice is the first with nil read as empty.\<close>

definition same_slice :: "'a slice \<Rightarrow> 'a slice \<Rightarrow> bool" where
  "same_slice s s' \<longleftrightarrow> s' = Some (elems s)"

lemma same_slice_Some [simp]: "same_slice s (Some xs) \<longleftrightarrow> elems s = xs"
  by (auto simp: same_slice_def)

section \<open>The order in which range visits the keys of a map\<close>

text \<open>
  Go leaves the order of \<^verbatim>\<open>range\<close> over a map unspecified. A \<open>map_order\<close> is one way to choose
  it: any function that permutes the keys. Every operation that ranges over a map takes one
  as an argument, so a lemma about all \<open>map_order\<close>s covers every order the runtime can pick.
\<close>

typedef map_order = "{f :: string list \<Rightarrow> string list. \<forall>xs. mset (f xs) = mset xs}"
  by (rule exI[of _ id]) simp

setup_lifting type_definition_map_order

lift_definition visit :: "map_order \<Rightarrow> string list \<Rightarrow> string list" is "\<lambda>f. f" .

lift_definition ascending :: map_order is "\<lambda>xs. xs" by simp

lift_definition descending :: map_order is rev by simp

lemma mset_visit [simp]: "mset (visit it xs) = mset xs"
  by transfer simp

lemma set_visit [simp]: "set (visit it xs) = set xs"
  by (rule mset_eq_setD) simp

lemma distinct_visit [simp]: "distinct (visit it xs) = distinct xs"
  by (rule mset_eq_imp_distinct_iff) simp

lemma length_visit [simp]: "length (visit it xs) = length xs"
  by (rule mset_eq_length) simp

lemma visit_ascending [simp, code]: "visit ascending xs = xs"
  by transfer simp

lemma visit_descending [simp, code]: "visit descending xs = rev xs"
  by transfer simp

section \<open>Maps\<close>

text \<open>A map value: \<open>None\<close> is the nil map, which reads as empty and must not be written.\<close>

type_synonym 'v gomap = "(string, 'v) fmap option"

definition keys :: "(string, 'v) fmap \<Rightarrow> string list" where
  "keys m = sorted_list_of_fset (fmdom m)"

lemma keys_of_list [code]: "keys (fmap_of_list xs) = sort (remdups (map fst xs))"
proof -
  have "fset (fmdom (fmap_of_list xs)) = set (map fst xs)"
    by (simp add: fset_of_list.rep_eq)
  then have "keys (fmap_of_list xs) = sorted_list_of_set (set (map fst xs))"
    by (simp add: keys_def sorted_list_of_fset.rep_eq)
  then show ?thesis
    by (simp only: sorted_list_of_set_sort_remdups)
qed

lemma set_keys [simp]: "set (keys m) = fset (fmdom m)"
  by (simp add: keys_def)

lemma distinct_keys [simp]: "distinct (keys m)"
  by (simp add: keys_def sorted_list_of_fset.rep_eq)

lemma sorted_keys [simp]: "sorted (keys m)"
  by (simp add: keys_def sorted_list_of_fset.rep_eq)

lemma in_fmdom_iff: "k \<in> fset (fmdom m) \<longleftrightarrow> fmlookup m k \<noteq> None"
  by (auto simp: fmdom_notI fmdom_notD intro: fmdomI)

definition map_get :: "'v gomap \<Rightarrow> string \<Rightarrow> 'v option" where
  "map_get m k = (case m of None \<Rightarrow> None | Some f \<Rightarrow> fmlookup f k)"

definition map_put :: "'e \<Rightarrow> string \<Rightarrow> 'v \<Rightarrow> 'v gomap \<Rightarrow> 'e + 'v gomap" where
  "map_put panic k v m = (case m of None \<Rightarrow> Inl panic | Some f \<Rightarrow> Inr (Some (fmupd k v f)))"

definition map_delete :: "string \<Rightarrow> 'v gomap \<Rightarrow> 'v gomap" where
  "map_delete k m = map_option (fmdrop k) m"

definition map_keys :: "'v gomap \<Rightarrow> string list" where
  "map_keys m = (case m of None \<Rightarrow> [] | Some f \<Rightarrow> keys f)"

definition make_map :: "'v gomap" where
  "make_map = Some fmempty"

definition notNil :: "'v gomap \<Rightarrow> 'v gomap" where
  "notNil m = (case m of None \<Rightarrow> make_map | Some f \<Rightarrow> Some f)"

text \<open>The entries of a map in the order of one \<^verbatim>\<open>range\<close> loop.\<close>

definition range_map :: "map_order \<Rightarrow> 'v gomap \<Rightarrow> (string \<times> 'v) list" where
  "range_map it m = List.map_filter (\<lambda>k. map_option (Pair k) (map_get m k)) (visit it (map_keys m))"

lemma map_get_simps [simp]:
  "map_get None k = None"
  "map_get (Some f) k = fmlookup f k"
  by (simp_all add: map_get_def)

lemma map_get_empty [simp]: "map_get None = Map.empty" "map_get make_map = Map.empty"
  by (simp_all add: map_get_def make_map_def fun_eq_iff)

lemma map_get_make_map [simp]: "map_get make_map k = None"
  by (simp add: make_map_def)

lemma map_get_notNil [simp]: "map_get (notNil m) k = map_get m k"
  by (cases m) (simp_all add: notNil_def)

lemma notNil_not_None [simp]: "notNil m \<noteq> None" "make_map \<noteq> None"
  by (cases m) (simp_all add: notNil_def make_map_def)

lemma some_map [simp]: "\<exists>y. make_map = Some y" "\<exists>y. notNil m = Some y"
  using notNil_not_None by blast+

lemma notNil_id [simp]: "m \<noteq> None \<Longrightarrow> notNil m = m"
  by (cases m) (simp_all add: notNil_def)

lemma map_get_delete [simp]: "map_get (map_delete k m) x = (if x = k then None else map_get m x)"
  by (cases m) (simp_all add: map_delete_def)

lemma map_delete_None [simp]: "map_delete k m = None \<longleftrightarrow> m = None"
  by (simp add: map_delete_def)

lemma map_put_notNil:
  "m \<noteq> None \<Longrightarrow> map_put p k v m = Inr (map_option (fmupd k v) m)"
  by (cases m) (simp_all add: map_put_def)

lemma map_get_upd [simp]:
  "m \<noteq> None \<Longrightarrow> map_get (map_option (fmupd k v) m) x = (if x = k then Some v else map_get m x)"
  by (cases m) auto

lemma map_put_InrD:
  "map_put p k v m = Inr m' \<Longrightarrow> m' \<noteq> None \<and> (\<forall>x. map_get m' x = (if x = k then Some v else map_get m x))"
  by (auto simp: map_put_def split: option.splits)

lemma set_map_keys [simp]: "set (map_keys m) = {k. map_get m k \<noteq> None}"
  by (cases m) (auto simp: map_keys_def in_fmdom_iff)

lemma finite_map_get [simp]: "finite {k. map_get m k \<noteq> None}"
  using List.finite_set[of "map_keys m"] by simp

lemma finite_map_get_Some [simp]: "finite {k. \<exists>v. map_get m k = Some v}"
  using finite_map_get[of m] by simp

lemma finite_dom_map_get [simp]: "finite (dom (map_get m))"
  using finite_map_get by (simp add: dom_def)

lemma distinct_map_keys [simp]: "distinct (map_keys m)"
  by (cases m) (simp_all add: map_keys_def)

lemma sorted_map_keys [simp]: "sorted (map_keys m)"
  by (cases m) (simp_all add: map_keys_def)

lemma range_map_conv:
  "range_map it m = map (\<lambda>k. (k, the (map_get m k))) (visit it (map_keys m))"
proof -
  have "List.map_filter (\<lambda>k. map_option (Pair k) (map_get m k)) ks
      = map (\<lambda>k. (k, the (map_get m k))) ks" if "\<forall>k \<in> set ks. map_get m k \<noteq> None" for ks
    using that by (induction ks) (auto simp: List.map_filter_simps)
  then show ?thesis by (auto simp: range_map_def)
qed

lemma map_fst_range_map: "map fst (range_map it m) = visit it (map_keys m)"
  by (simp add: range_map_conv comp_def)

lemma set_range_map [simp]: "set (range_map it m) = {(k, v). map_get m k = Some v}"
  by (auto simp: range_map_conv)

lemma distinct_fst_range_map [simp]: "distinct (map fst (range_map it m))"
  by (simp add: map_fst_range_map)

lemma distinct_range_map [simp]: "distinct (range_map it m)"
  by (metis distinct_fst_range_map distinct_map)

lemma mset_range_map: "mset (range_map it m) = mset (range_map it' m)"
  by (simp flip: set_eq_iff_mset_eq_distinct)

text \<open>Loops that change every value, or drop entries, while they range over a map.\<close>

definition range_update :: "map_order \<Rightarrow> ('v \<Rightarrow> 'v) \<Rightarrow> 'v gomap \<Rightarrow> 'v gomap" where
  "range_update it f m =
     map_option (fold (\<lambda>(k, v) acc. fmupd k (f v) acc) (range_map it m)) m"

definition range_delete :: "map_order \<Rightarrow> ('v \<Rightarrow> bool) \<Rightarrow> 'v gomap \<Rightarrow> 'v gomap" where
  "range_delete it P m =
     map_option (fold (\<lambda>(k, v) acc. if P v then fmdrop k acc else acc) (range_map it m)) m"

lemma map_of_range_map [simp]: "map_of (range_map it m) x = map_get m x"
proof (cases "map_get m x")
  case None
  then have "x \<notin> fst ` set (range_map it m)" by auto
  then show ?thesis using None by (simp add: map_of_eq_None_iff)
next
  case (Some v)
  then have "(x, v) \<in> set (range_map it m)" by simp
  then show ?thesis using Some by simp
qed

lemma fmlookup_fold_update:
  "distinct (map fst kvs) \<Longrightarrow>
   fmlookup (fold (\<lambda>(k, v) acc. fmupd k (f v) acc) kvs acc) x
     = (case map_of kvs x of Some v \<Rightarrow> Some (f v) | None \<Rightarrow> fmlookup acc x)"
proof (induction kvs arbitrary: acc)
  case Nil
  then show ?case by simp
next
  case (Cons kv kvs)
  obtain k v where kv: "kv = (k, v)" by force
  have "map_of kvs k = None" using Cons.prems kv by (simp add: map_of_eq_None_iff)
  then show ?case using Cons kv by (auto split: option.splits)
qed

lemma map_get_range_update [simp]:
  "map_get (range_update it f m) x = map_option f (map_get m x)"
proof (cases m)
  case None
  then show ?thesis by (simp add: range_update_def)
next
  case (Some g)
  have "fmlookup (fold (\<lambda>(k, v) acc. fmupd k (f v) acc) (range_map it m) g) x
      = (case map_get m x of Some v \<Rightarrow> Some (f v) | None \<Rightarrow> fmlookup g x)"
    using fmlookup_fold_update[of "range_map it m" f g x] by simp
  with Some show ?thesis by (auto simp: range_update_def split: option.splits)
qed

lemma range_delete_None [simp]: "range_delete it P m = None \<longleftrightarrow> m = None"
  by (simp add: range_delete_def)

lemma range_update_None [simp]: "range_update it f m = None \<longleftrightarrow> m = None"
  by (simp add: range_update_def)

text \<open>The simplifier writes \<open>m \<noteq> None\<close> as an existential; the same facts in that form.\<close>

lemma some_after_loop [simp]:
  "(\<exists>y. map_delete k m = Some y) \<longleftrightarrow> (\<exists>y. m = Some y)"
  "(\<exists>y. range_update it f m = Some y) \<longleftrightarrow> (\<exists>y. m = Some y)"
  "(\<exists>y. range_delete it P m = Some y) \<longleftrightarrow> (\<exists>y. m = Some y)"
  by (simp_all add: map_delete_def range_update_def range_delete_def)

lemma fmlookup_fold_delete:
  "fmlookup (fold (\<lambda>(k, v) acc. if P v then fmdrop k acc else acc) kvs acc) x
     = (if \<exists>v. (x, v) \<in> set kvs \<and> P v then None else fmlookup acc x)"
  by (induction kvs arbitrary: acc) auto

lemma map_get_range_delete [simp]:
  "map_get (range_delete it P m) x
     = (case map_get m x of Some v \<Rightarrow> if P v then None else Some v | None \<Rightarrow> None)"
  by (cases m) (auto simp: range_delete_def fmlookup_fold_delete split: option.splits)

section \<open>Slices\<close>

text \<open>\<^verbatim>\<open>slices.BinarySearch\<close>: the loop keeps \<open>i \<le> j\<close> and halves the interval.\<close>

function bsearch :: "'a::linorder list \<Rightarrow> 'a \<Rightarrow> nat \<Rightarrow> nat \<Rightarrow> nat" where
  "bsearch xs v i j =
     (if i < j then
        (let h = (i + j) div 2
         in if xs ! h < v then bsearch xs v (h + 1) j else bsearch xs v i h)
      else i)"
  by pat_completeness auto
termination
  by (relation "measure (\<lambda>(xs, v, i, j). j - i)") auto

declare bsearch.simps [simp del]

definition BinarySearch :: "'a::linorder list \<Rightarrow> 'a \<Rightarrow> nat \<times> bool" where
  "BinarySearch xs v =
     (let i = bsearch xs v 0 (length xs) in (i, i < length xs \<and> xs ! i = v))"

definition Insert :: "'a list \<Rightarrow> nat \<Rightarrow> 'a \<Rightarrow> 'a list" where
  "Insert xs i v = take i xs @ v # drop i xs"

fun Index :: "'a list \<Rightarrow> 'a \<Rightarrow> int" where
  "Index [] v = -1"
| "Index (x # xs) v = (if x = v then 0 else (let i = Index xs v in if i < 0 then -1 else i + 1))"

definition Delete :: "'a list \<Rightarrow> nat \<Rightarrow> nat \<Rightarrow> 'a list" where
  "Delete xs i j = take i xs @ drop j xs"

definition Contains :: "'a list \<Rightarrow> 'a \<Rightarrow> bool" where
  "Contains xs v \<longleftrightarrow> 0 \<le> Index xs v"

text \<open>
  On a sorted list the search returns the first position whose element is not below \<open>v\<close>:
  everything before it is smaller, everything from it on is at least \<open>v\<close>.
\<close>

lemma bsearch_partition:
  assumes "sorted xs" and "i \<le> j" and "j \<le> length xs"
    and "\<forall>k < i. xs ! k < v" and "\<forall>k. j \<le> k \<and> k < length xs \<longrightarrow> v \<le> xs ! k"
  shows "bsearch xs v i j \<le> length xs
    \<and> (\<forall>k < bsearch xs v i j. xs ! k < v)
    \<and> (\<forall>k. bsearch xs v i j \<le> k \<and> k < length xs \<longrightarrow> v \<le> xs ! k)"
  using assms
proof (induction xs v i j rule: bsearch.induct)
  case (1 xs v i j)
  show ?case
  proof (cases "i < j")
    case False
    then have "bsearch xs v i j = i" by (simp add: bsearch.simps[of xs v i j])
    then show ?thesis using False "1.prems" by simp
  next
    case True
    define h where "h = (i + j) div 2"
    have h: "i \<le> h" "h < j" using True by (auto simp: h_def)
    have hlen: "h < length xs" using h "1.prems"(3) by simp
    show ?thesis
    proof (cases "xs ! h < v")
      case lt: True
      have "\<forall>k < h + 1. xs ! k < v"
      proof (intro allI impI)
        fix k assume "k < h + 1"
        then have "xs ! k \<le> xs ! h" using "1.prems"(1) hlen by (simp add: sorted_nth_mono)
        then show "xs ! k < v" using lt by simp
      qed
      moreover have "bsearch xs v i j = bsearch xs v (h + 1) j"
        using True lt by (simp add: bsearch.simps[of xs v i j] h_def Let_def)
      moreover note "1.IH"(1)[OF True h_def lt "1.prems"(1) _ "1.prems"(3) _ "1.prems"(5)]
      ultimately show ?thesis using h(2) by simp
    next
      case ge: False
      have "\<forall>k. h \<le> k \<and> k < length xs \<longrightarrow> v \<le> xs ! k"
      proof (intro allI impI)
        fix k assume "h \<le> k \<and> k < length xs"
        then have "xs ! h \<le> xs ! k" using "1.prems"(1) by (simp add: sorted_nth_mono)
        then show "v \<le> xs ! k" using ge by simp
      qed
      moreover have "bsearch xs v i j = bsearch xs v i h"
        using True ge by (simp add: bsearch.simps[of xs v i j] h_def Let_def)
      moreover note "1.IH"(2)[OF True h_def ge "1.prems"(1) h(1) _ "1.prems"(4)]
      ultimately show ?thesis using hlen by simp
    qed
  qed
qed

lemma BinarySearch_sorted:
  assumes "sorted xs" and "BinarySearch xs v = (i, found)"
  shows "i \<le> length xs" "\<forall>k < i. xs ! k < v" "\<forall>k. i \<le> k \<and> k < length xs \<longrightarrow> v \<le> xs ! k"
    "found \<longleftrightarrow> v \<in> set xs"
proof -
  have i: "i = bsearch xs v 0 (length xs)" "found \<longleftrightarrow> i < length xs \<and> xs ! i = v"
    using assms(2) by (auto simp: BinarySearch_def Let_def)
  have part: "i \<le> length xs \<and> (\<forall>k < i. xs ! k < v)
      \<and> (\<forall>k. i \<le> k \<and> k < length xs \<longrightarrow> v \<le> xs ! k)"
    unfolding i(1) using assms(1) by (intro bsearch_partition) auto
  then show "i \<le> length xs" "\<forall>k < i. xs ! k < v" "\<forall>k. i \<le> k \<and> k < length xs \<longrightarrow> v \<le> xs ! k"
    by auto
  show "found \<longleftrightarrow> v \<in> set xs"
  proof
    assume "v \<in> set xs"
    then obtain k where k: "k < length xs" "xs ! k = v" by (auto simp: in_set_conv_nth)
    have "i \<le> k" using part k by (metis not_le less_irrefl)
    then have "v \<le> xs ! i" and "xs ! i \<le> xs ! k"
      using part k assms(1) by (auto simp: sorted_nth_mono)
    then show found using i(2) k \<open>i \<le> k\<close> by auto
  qed (use i(2) in auto)
qed

lemma Index_iff: "0 \<le> Index xs v \<longleftrightarrow> v \<in> set xs"
  by (induction xs) (auto simp: Let_def)

lemma Contains_iff [simp]: "Contains xs v \<longleftrightarrow> v \<in> set xs"
  by (simp add: Contains_def Index_iff)

lemma Delete_Index:
  "v \<in> set xs \<Longrightarrow> Delete xs (nat (Index xs v)) (nat (Index xs v) + 1) = remove1 v xs"
proof (induction xs)
  case Nil
  then show ?case by simp
next
  case (Cons x xs)
  show ?case
  proof (cases "x = v")
    case True
    then show ?thesis by (simp add: Delete_def)
  next
    case False
    then have mem: "v \<in> set xs" using Cons.prems by simp
    then have "0 \<le> Index xs v" by (simp add: Index_iff)
    moreover from this have "nat (Index xs v + 1) = Suc (nat (Index xs v))" by simp
    ultimately show ?thesis
      using Cons.IH[OF mem] False by (simp add: Delete_def Let_def)
  qed
qed

section \<open>Sorting\<close>

text \<open>
  \<^verbatim>\<open>sort.Strings\<close>, and \<^verbatim>\<open>sort.Slice\<close> by a key. The keys the program sorts by are distinct, so
  the result does not depend on the algorithm being stable.
\<close>

definition sort_Strings :: "string list \<Rightarrow> string list" where
  "sort_Strings = sort"

definition sort_Slice :: "('a \<Rightarrow> string) \<Rightarrow> 'a list \<Rightarrow> 'a list" where
  "sort_Slice key = sort_key key"

lemma sort_Strings_set:
  "distinct xs \<Longrightarrow> sort_Strings xs = sorted_list_of_set (set xs)"
  by (simp add: sort_Strings_def sorted_list_of_set_sort_remdups distinct_remdups_id)

lemma sort_Slice_by_keys:
  assumes "distinct ks" and "\<And>k. k \<in> set ks \<Longrightarrow> key (f k) = k"
  shows "sort_Slice key (map f ks) = map f (sorted_list_of_set (set ks))"
proof -
  have "sort_key key (map f ks) = map f (sort ks)"
  proof (rule sort_key_inj_key_eq)
    show "inj_on key (set (map f ks))" using assms(2) by (auto intro!: inj_onI)
    have "map (\<lambda>k. key (f k)) (sort ks) = sort ks"
      by (rule map_idI) (simp add: assms(2))
    then show "sorted (map key (map f (sort ks)))" by (simp add: comp_def)
  qed simp
  then show ?thesis
    using assms(1)
    by (simp add: sort_Slice_def sorted_list_of_set_sort_remdups distinct_remdups_id)
qed

section \<open>Strings\<close>

text \<open>\<^verbatim>\<open>strings.Cut\<close> with a one-byte separator: the text before it, after it, and whether it occurs.\<close>

fun Cut :: "string \<Rightarrow> char \<Rightarrow> string \<times> string \<times> bool" where
  "Cut [] sep = ([], [], False)"
| "Cut (c # s) sep =
     (if c = sep then ([], s, True)
      else (case Cut s sep of (before, after, found) \<Rightarrow>
        (c # before, after, found)))"

text \<open>\<^verbatim>\<open>strings.CutPrefix\<close>.\<close>

fun CutPrefix :: "string \<Rightarrow> string \<Rightarrow> string \<times> bool" where
  "CutPrefix s [] = (s, True)"
| "CutPrefix [] (p # ps) = ([], False)"
| "CutPrefix (c # s) (p # ps) =
     (if c = p then (case CutPrefix s ps of (rest, ok) \<Rightarrow> (if ok then (rest, True) else (c # s, False)))
      else (c # s, False))"

text \<open>\<^verbatim>\<open>strings.Split\<close> with a one-byte separator.\<close>

fun Split :: "string \<Rightarrow> char \<Rightarrow> string list" where
  "Split [] sep = [[]]"
| "Split (c # s) sep =
     (if c = sep then [] # Split s sep
      else (case Split s sep of [] \<Rightarrow> [[c]] | w # ws \<Rightarrow> (c # w) # ws))"

text \<open>
  \<^verbatim>\<open>strings.ToLower\<close>, rune by rune. The program only compares the result with names in ASCII. Two
  runes outside ASCII have a lower case in it, U+0130 (\<^verbatim>\<open>i\<close>) and U+212A (\<^verbatim>\<open>k\<close>); of the others, whose
  lower case is again outside, the model keeps the rune.
\<close>

definition lower_char :: "char \<Rightarrow> char" where
  "lower_char c = (let n = of_char c :: nat in if 65 \<le> n \<and> n \<le> 90 then char_of (n + 32) else c)"

definition lower_rune :: "string \<Rightarrow> string" where
  "lower_rune r =
     (if length r = 1 then map lower_char r
      else if map byte r = [196, 176] then ''i''
      else if map byte r = [226, 132, 170] then ''k''
      else r)"

definition ToLower :: "string \<Rightarrow> string" where
  "ToLower s = concat (map lower_rune (runes s))"

lemma Cut_found: "Cut s sep = (a, b, True) \<Longrightarrow> s = a @ sep # b \<and> sep \<notin> set a"
  by (induction s arbitrary: a) (auto split: prod.splits if_splits)

lemma Cut_append: "sep \<notin> set a \<Longrightarrow> Cut (a @ sep # b) sep = (a, b, True)"
  by (induction a) auto

lemma Cut_without: "sep \<notin> set s \<Longrightarrow> Cut s sep = (s, [], False)"
  by (induction s) auto

lemma Cut_not_found: "Cut s sep = (a, b, False) \<longleftrightarrow> sep \<notin> set s \<and> a = s \<and> b = []"
proof (cases "sep \<in> set s")
  case True
  then obtain u v where "s = u @ sep # v" "sep \<notin> set u" by (blast dest: split_list_first)
  then show ?thesis by (simp add: Cut_append)
next
  case False
  then show ?thesis by (auto simp: Cut_without)
qed

lemma CutPrefix_append: "CutPrefix (p @ r) p = (r, True)"
  by (induction p) auto

lemma CutPrefix_True: "CutPrefix s p = (r, True) \<Longrightarrow> s = p @ r"
  by (induction s p arbitrary: r rule: CutPrefix.induct) (auto split: prod.splits if_splits)

lemma CutPrefix_False: "CutPrefix s p = (r, False) \<Longrightarrow> r = s \<and> \<not> (\<exists>t. s = p @ t)"
  by (induction s p arbitrary: r rule: CutPrefix.induct) (auto split: prod.splits if_splits)

lemma Split_not_Nil [simp]: "Split s sep \<noteq> []"
  by (induction s) (auto split: list.splits)

lemma Split_no_sep: "w \<in> set (Split s sep) \<Longrightarrow> sep \<notin> set w"
  by (induction s arbitrary: w) (auto split: list.splits if_splits)

end
