(* ===== verification/Model.thy ===== *)
theory Model
  imports GoLib
begin

text \<open>
  \<^verbatim>\<open>internal/model/model.go\<close> and the sentinel errors of \<^verbatim>\<open>internal/store\<close>, \<^verbatim>\<open>internal/service\<close>
  and \<^verbatim>\<open>internal/auth\<close>: scopes, operation names and Sforza's own meta operations.
\<close>

section \<open>Errors\<close>

text \<open>
  The kinds of failure the layers above tell apart with \<^verbatim>\<open>errors.Is\<close>. A wrapped error
  (\<^verbatim>\<open>fmt.Errorf("...: %w", err)\<close>) keeps its sentinel, so the model keeps the sentinel and
  drops the text. \<open>ErrIO\<close> is a failed file-system step of the JSON store, \<open>ErrDB\<close> any error
  of a database driver, and \<open>GoPanic\<close> the
  run-time panic of a write to a nil map or a call on a nil interface value.
\<close>

datatype io_step = ReadFile | ParseFile | MkdirAll | CreateTemp | WriteTemp | CloseTemp | RenameTemp

datatype err =
    ErrNotFound
  | ErrConflict
  | ErrValidation
  | ErrUnauthenticated
  | ErrIO io_step
  | ErrDB
  | GoPanic

type_synonym ('a, 's) op = "(err, 'a, 's) eff"

section \<open>Scopes\<close>

type_synonym Scope = string

definition ScopeFull :: Scope where "ScopeFull = ''FULL''"

definition ScopeEmpty :: Scope where "ScopeEmpty = ''EMPTY''"

definition ScopeRestricted :: Scope where "ScopeRestricted = ''RESTRICTED''"

definition Valid :: "Scope \<Rightarrow> bool" where
  "Valid s \<longleftrightarrow> s = ScopeFull \<or> s = ScopeEmpty \<or> s = ScopeRestricted"

lemma scopes_distinct [simp]:
  "ScopeFull \<noteq> ScopeEmpty" "ScopeFull \<noteq> ScopeRestricted" "ScopeEmpty \<noteq> ScopeRestricted"
  "ScopeEmpty \<noteq> ScopeFull" "ScopeRestricted \<noteq> ScopeFull" "ScopeRestricted \<noteq> ScopeEmpty"
  by (simp_all add: ScopeFull_def ScopeEmpty_def ScopeRestricted_def)

lemma Valid_scopes [simp]: "Valid ScopeFull" "Valid ScopeEmpty" "Valid ScopeRestricted"
  by (simp_all add: Valid_def)

lemma ValidE:
  assumes "Valid s"
  obtains "s = ScopeFull" | "s = ScopeRestricted" | "s = ScopeEmpty"
  using assms by (auto simp: Valid_def)

record OperationScope =
  Operation :: string
  Scope_of :: Scope

definition operation_scope :: "string \<Rightarrow> Scope \<Rightarrow> OperationScope" where
  "operation_scope p s = \<lparr>Operation = p, Scope_of = s\<rparr>"

lemma operation_scope_simps [simp]:
  "Operation (operation_scope p s) = p" "Scope_of (operation_scope p s) = s"
  by (simp_all add: operation_scope_def)

section \<open>Operation names\<close>

definition OperationResource :: "string \<Rightarrow> string" where
  "OperationResource operation =
     (case Cut operation (CHR '':'') of (res, _, ok) \<Rightarrow>
        if \<not> ok \<or> res = '''' then '''' else res)"

section \<open>The meta authorization model\<close>

definition AdminRole :: string where "AdminRole = ''authorization:admin''"

definition MetaRoleRead :: string where "MetaRoleRead = ''role:read''"

definition MetaRoleWrite :: string where "MetaRoleWrite = ''role:write''"

definition MetaRoleAssign :: string where "MetaRoleAssign = ''role:assign''"

definition MetaOperationRead :: string where "MetaOperationRead = ''operation:read''"

definition MetaOperationWrite :: string where "MetaOperationWrite = ''operation:write''"

definition MetaOperationAssign :: string where "MetaOperationAssign = ''operation:assign''"

definition MetaResourceRead :: string where "MetaResourceRead = ''resource:read''"

definition MetaResourceWrite :: string where "MetaResourceWrite = ''resource:write''"

definition MetaUserRead :: string where "MetaUserRead = ''user:read''"

lemmas meta_names =
  MetaRoleRead_def MetaRoleWrite_def MetaRoleAssign_def MetaOperationRead_def
  MetaOperationWrite_def MetaOperationAssign_def MetaResourceRead_def MetaResourceWrite_def
  MetaUserRead_def

definition MetaOperations_table :: "string gomap" where
  "MetaOperations_table = Some (fmap_of_list
     [(MetaRoleRead, ''role''), (MetaRoleWrite, ''role''), (MetaRoleAssign, ''role''),
      (MetaOperationRead, ''operation''), (MetaOperationWrite, ''operation''),
      (MetaOperationAssign, ''operation''),
      (MetaResourceRead, ''resource''), (MetaResourceWrite, ''resource''),
      (MetaUserRead, ''user'')])"

definition IsMetaOperation :: "string \<Rightarrow> bool" where
  "IsMetaOperation operation \<longleftrightarrow> map_get MetaOperations_table operation \<noteq> None"

section \<open>Lemmas\<close>

lemma OperationResource_append:
  "CHR '':'' \<notin> set r \<Longrightarrow> OperationResource (r @ CHR '':'' # a) = r"
  by (simp add: OperationResource_def Cut_append)

lemma OperationResource_empty_iff:
  "OperationResource p = '''' \<longleftrightarrow> CHR '':'' \<notin> set p \<or> hd p = CHR '':''"
proof (cases "CHR '':'' \<in> set p")
  case True
  then obtain r a where p: "p = r @ CHR '':'' # a" and r: "CHR '':'' \<notin> set r"
    by (blast dest: split_list_first)
  show ?thesis using r OperationResource_append[OF r, of a] by (cases r) (auto simp: p)
next
  case False
  then show ?thesis by (simp add: OperationResource_def Cut_without)
qed

lemma OperationResource_prefix:
  assumes "OperationResource p \<noteq> ''''"
  shows "\<exists>a. p = OperationResource p @ CHR '':'' # a" "CHR '':'' \<notin> set (OperationResource p)"
proof -
  have "CHR '':'' \<in> set p" using assms by (auto simp: OperationResource_empty_iff)
  then obtain r a where p: "p = r @ CHR '':'' # a" and r: "CHR '':'' \<notin> set r"
    by (blast dest: split_list_first)
  then show "\<exists>a. p = OperationResource p @ CHR '':'' # a" "CHR '':'' \<notin> set (OperationResource p)"
    by (auto simp: OperationResource_append)
qed

lemma IsMetaOperation_iff:
  "IsMetaOperation p \<longleftrightarrow> p \<in> {MetaRoleRead, MetaRoleWrite, MetaRoleAssign, MetaOperationRead,
     MetaOperationWrite, MetaOperationAssign, MetaResourceRead, MetaResourceWrite, MetaUserRead}"
  by (auto simp: IsMetaOperation_def MetaOperations_table_def fmlookup_of_list)

lemma set_MetaOperations [simp]:
  "p \<in> set (map_keys MetaOperations_table) \<longleftrightarrow> IsMetaOperation p"
  by (simp add: IsMetaOperation_def)

text \<open>Every meta operation is registered under the resource its name starts with.\<close>

lemma MetaOperations_resource:
  assumes "map_get MetaOperations_table p = Some r"
  shows "OperationResource p = r \<and> r \<noteq> ''''"
proof -
  have entries: "OperationResource MetaRoleRead = ''role''" "OperationResource MetaRoleWrite = ''role''"
    "OperationResource MetaRoleAssign = ''role''" "OperationResource MetaOperationRead = ''operation''"
    "OperationResource MetaOperationWrite = ''operation''"
    "OperationResource MetaOperationAssign = ''operation''"
    "OperationResource MetaResourceRead = ''resource''"
    "OperationResource MetaResourceWrite = ''resource''" "OperationResource MetaUserRead = ''user''"
    by (simp_all add: meta_names OperationResource_def)
  show ?thesis
    using map_of_SomeD[OF assms[unfolded MetaOperations_table_def map_get_simps fmlookup_of_list]]
    by (auto simp: entries)
qed

lemma MetaOperations_have_resource: "IsMetaOperation p \<Longrightarrow> OperationResource p \<noteq> ''''"
  using MetaOperations_resource by (auto simp: IsMetaOperation_def)

end
