(* ===== verification/StoreSpec.thy ===== *)
theory StoreSpec
  imports Model
begin

text \<open>
  \<^verbatim>\<open>internal/store/store.go\<close>: the two interfaces the services are written against, and what
  an implementation promises. A Go interface value is a record of its methods; the service
  functions take one as an argument. The promise is an abstract store (\<open>sharedA\<close>, \<open>tenantA\<close>:
  sets and partial functions) with one specification per method, and the locales
  \<open>shared_store\<close> and \<open>tenant_store\<close> say that the methods of an implementation simulate them.
\<close>

section \<open>Rows\<close>

record User =
  Sub :: string

record Resource =
  Resource_Name :: string

record Operation_row =
  Operation_Name :: string
  Operation_Resource :: string

record Role =
  Role_Name :: string

record RoleGrant =
  grant_Role :: string
  grant_Operation :: string
  grant_Scope :: Scope

definition role_grant :: "string \<Rightarrow> string \<Rightarrow> Scope \<Rightarrow> RoleGrant" where
  "role_grant r p s = \<lparr>grant_Role = r, grant_Operation = p, grant_Scope = s\<rparr>"

lemma role_grant_simps [simp]:
  "grant_Role (role_grant r p s) = r" "grant_Operation (role_grant r p s) = p"
  "grant_Scope (role_grant r p s) = s"
  by (simp_all add: role_grant_def)

lemma role_grant_eq_iff [simp]: "role_grant r p s = role_grant r' p' s' \<longleftrightarrow> r = r' \<and> p = p' \<and> s = s'"
  by (auto simp: role_grant_def)

section \<open>The interfaces\<close>

record 's Shared =
  Shared_EnsureUser :: "string \<Rightarrow> (unit, 's) op"
  Shared_ListUsers :: "(User list, 's) op"
  Shared_CreateResource :: "string \<Rightarrow> (unit, 's) op"
  Shared_EnsureResource :: "string \<Rightarrow> (unit, 's) op"
  Shared_DeleteResource :: "string \<Rightarrow> (unit, 's) op"
  Shared_ListResources :: "(Resource list, 's) op"
  Shared_CreateOperation :: "string \<Rightarrow> string \<Rightarrow> (unit, 's) op"
  Shared_EnsureOperation :: "string \<Rightarrow> string \<Rightarrow> (unit, 's) op"
  Shared_DeleteOperation :: "string \<Rightarrow> (unit, 's) op"
  Shared_ListOperations :: "(Operation_row list, 's) op"
  Shared_OperationExists :: "string \<Rightarrow> (bool, 's) op"

record 't Tenant =
  Tenant_CreateRole :: "string \<Rightarrow> (unit, 't) op"
  Tenant_EnsureRole :: "string \<Rightarrow> (unit, 't) op"
  Tenant_RoleExists :: "string \<Rightarrow> (bool, 't) op"
  Tenant_RenameRole :: "string \<Rightarrow> string \<Rightarrow> (unit, 't) op"
  Tenant_DeleteRole :: "string \<Rightarrow> (unit, 't) op"
  Tenant_ListRoles :: "(Role list, 't) op"
  Tenant_AssignRole :: "string \<Rightarrow> string \<Rightarrow> (unit, 't) op"
  Tenant_UnassignRole :: "string \<Rightarrow> string \<Rightarrow> (unit, 't) op"
  Tenant_UserRoles :: "string \<Rightarrow> (string slice, 't) op"
  Tenant_SetRolePermission :: "string \<Rightarrow> string \<Rightarrow> Scope \<Rightarrow> (unit, 't) op"
  Tenant_RemoveRolePermission :: "string \<Rightarrow> string \<Rightarrow> (unit, 't) op"
  Tenant_RolePermissions :: "string \<Rightarrow> (OperationScope list, 't) op"
  Tenant_HasRolePermission :: "string \<Rightarrow> string \<Rightarrow> (bool, 't) op"
  Tenant_SetUserPermission :: "string \<Rightarrow> string \<Rightarrow> Scope \<Rightarrow> (unit, 't) op"
  Tenant_RemoveUserPermission :: "string \<Rightarrow> string \<Rightarrow> (unit, 't) op"
  Tenant_UserPermissions :: "string \<Rightarrow> (OperationScope list, 't) op"
  Tenant_HasUserPermission :: "string \<Rightarrow> string \<Rightarrow> (bool, 't) op"
  Tenant_AddRoleRestrictedIDs :: "string \<Rightarrow> string \<Rightarrow> string list \<Rightarrow> (unit, 't) op"
  Tenant_RemoveRoleRestrictedIDs :: "string \<Rightarrow> string \<Rightarrow> string list \<Rightarrow> (unit, 't) op"
  Tenant_RoleRestrictedIDs :: "string list \<Rightarrow> string \<Rightarrow> (string list, 't) op"
  Tenant_AddUserRestrictedIDs :: "string \<Rightarrow> string \<Rightarrow> string list \<Rightarrow> (unit, 't) op"
  Tenant_RemoveUserRestrictedIDs :: "string \<Rightarrow> string \<Rightarrow> string list \<Rightarrow> (unit, 't) op"
  Tenant_UserRestrictedIDs :: "string \<Rightarrow> string \<Rightarrow> (string list, 't) op"
  Tenant_RoleGrants :: "string list \<Rightarrow> (RoleGrant list, 't) op"

section \<open>The abstract shared store\<close>

record sharedA =
  aUsers :: "string set"
  aResources :: "string set"
  aOps :: "string \<Rightarrow> string option"

definition spec_EnsureUser :: "string \<Rightarrow> (unit, sharedA) op" where [spec_defs]:
  "spec_EnsureUser sub = modify (\<lambda>a. a\<lparr>aUsers := insert sub (aUsers a)\<rparr>)"

definition spec_ListUsers :: "(User list, sharedA) op" where [spec_defs]:
  "spec_ListUsers = gets (\<lambda>a. map (\<lambda>sub. \<lparr>Sub = sub\<rparr>) (sorted_list_of_set (aUsers a)))"

definition spec_CreateResource :: "string \<Rightarrow> (unit, sharedA) op" where [spec_defs]:
  "spec_CreateResource name = (\<lambda>a. if name \<in> aResources a then (Inl ErrConflict, a)
     else (Inr (), a\<lparr>aResources := insert name (aResources a)\<rparr>))"

definition spec_EnsureResource :: "string \<Rightarrow> (unit, sharedA) op" where [spec_defs]:
  "spec_EnsureResource name = modify (\<lambda>a. a\<lparr>aResources := insert name (aResources a)\<rparr>)"

definition spec_DeleteResource :: "string \<Rightarrow> (unit, sharedA) op" where [spec_defs]:
  "spec_DeleteResource name = (\<lambda>a. if name \<notin> aResources a then (Inl ErrNotFound, a)
     else (Inr (), a\<lparr>aResources := aResources a - {name},
                    aOps := (\<lambda>p. if aOps a p = Some name then None else aOps a p)\<rparr>))"

definition spec_ListResources :: "(Resource list, sharedA) op" where [spec_defs]:
  "spec_ListResources = gets (\<lambda>a. map (\<lambda>n. \<lparr>Resource_Name = n\<rparr>) (sorted_list_of_set (aResources a)))"

definition register :: "string \<Rightarrow> string \<Rightarrow> sharedA \<Rightarrow> sharedA" where [spec_defs]:
  "register name resource a =
     a\<lparr>aResources := insert resource (aResources a), aOps := (aOps a)(name \<mapsto> resource)\<rparr>"

definition spec_CreateOperation :: "string \<Rightarrow> string \<Rightarrow> (unit, sharedA) op" where [spec_defs]:
  "spec_CreateOperation name resource = (\<lambda>a. if aOps a name \<noteq> None then (Inl ErrConflict, a)
     else (Inr (), register name resource a))"

definition spec_EnsureOperation :: "string \<Rightarrow> string \<Rightarrow> (unit, sharedA) op" where [spec_defs]:
  "spec_EnsureOperation name resource =
     modify (\<lambda>a. if aOps a name \<noteq> None then a else register name resource a)"

definition spec_DeleteOperation :: "string \<Rightarrow> (unit, sharedA) op" where [spec_defs]:
  "spec_DeleteOperation name = (\<lambda>a. if aOps a name = None then (Inl ErrNotFound, a)
     else (Inr (), a\<lparr>aOps := (aOps a)(name := None)\<rparr>))"

definition spec_ListOperations :: "(Operation_row list, sharedA) op" where [spec_defs]:
  "spec_ListOperations = gets (\<lambda>a.
     map (\<lambda>n. \<lparr>Operation_Name = n, Operation_Resource = the (aOps a n)\<rparr>)
       (sorted_list_of_set (dom (aOps a))))"

definition spec_OperationExists :: "string \<Rightarrow> (bool, sharedA) op" where [spec_defs]:
  "spec_OperationExists name = gets (\<lambda>a. aOps a name \<noteq> None)"

definition spec_shared :: "sharedA Shared" where
  "spec_shared = \<lparr>
     Shared_EnsureUser = spec_EnsureUser, Shared_ListUsers = spec_ListUsers,
     Shared_CreateResource = spec_CreateResource, Shared_EnsureResource = spec_EnsureResource,
     Shared_DeleteResource = spec_DeleteResource, Shared_ListResources = spec_ListResources,
     Shared_CreateOperation = spec_CreateOperation, Shared_EnsureOperation = spec_EnsureOperation,
     Shared_DeleteOperation = spec_DeleteOperation, Shared_ListOperations = spec_ListOperations,
     Shared_OperationExists = spec_OperationExists\<rparr>"

lemma spec_shared_simps [simp]:
  "Shared_EnsureUser spec_shared = spec_EnsureUser" "Shared_ListUsers spec_shared = spec_ListUsers"
  "Shared_CreateResource spec_shared = spec_CreateResource"
  "Shared_EnsureResource spec_shared = spec_EnsureResource"
  "Shared_DeleteResource spec_shared = spec_DeleteResource"
  "Shared_ListResources spec_shared = spec_ListResources"
  "Shared_CreateOperation spec_shared = spec_CreateOperation"
  "Shared_EnsureOperation spec_shared = spec_EnsureOperation"
  "Shared_DeleteOperation spec_shared = spec_DeleteOperation"
  "Shared_ListOperations spec_shared = spec_ListOperations"
  "Shared_OperationExists spec_shared = spec_OperationExists"
  by (simp_all add: spec_shared_def)

section \<open>The abstract tenant store\<close>

text \<open>
  \<open>aRolePerm a r p\<close> is the scope role \<open>r\<close> grants on operation \<open>p\<close>, \<open>aRoleIDs a r p\<close> the record
  IDs attached to that grant, \<open>aUserPerm\<close> and \<open>aUserIDs\<close> the same for user overrides.
\<close>

record tenantA =
  aRoles :: "string set"
  aAssign :: "string \<Rightarrow> string set"
  aRolePerm :: "string \<Rightarrow> string \<Rightarrow> Scope option"
  aRoleIDs :: "string \<Rightarrow> string \<Rightarrow> string set"
  aUserPerm :: "string \<Rightarrow> string \<Rightarrow> Scope option"
  aUserIDs :: "string \<Rightarrow> string \<Rightarrow> string set"

definition requireRole :: "string \<Rightarrow> ('b, tenantA) op \<Rightarrow> ('b, tenantA) op" where [spec_defs]:
  "requireRole role m = (\<lambda>a. if role \<in> aRoles a then m a else (Inl ErrNotFound, a))"

definition spec_CreateRole :: "string \<Rightarrow> (unit, tenantA) op" where [spec_defs]:
  "spec_CreateRole name = (\<lambda>a. if name \<in> aRoles a then (Inl ErrConflict, a)
     else (Inr (), a\<lparr>aRoles := insert name (aRoles a)\<rparr>))"

definition spec_EnsureRole :: "string \<Rightarrow> (unit, tenantA) op" where [spec_defs]:
  "spec_EnsureRole name = modify (\<lambda>a. a\<lparr>aRoles := insert name (aRoles a)\<rparr>)"

definition spec_RoleExists :: "string \<Rightarrow> (bool, tenantA) op" where [spec_defs]:
  "spec_RoleExists name = gets (\<lambda>a. name \<in> aRoles a)"

definition rename_in :: "string \<Rightarrow> string \<Rightarrow> string set \<Rightarrow> string set" where
  "rename_in n n' R = (if n \<in> R then insert n' (R - {n}) else R)"

definition spec_RenameRole :: "string \<Rightarrow> string \<Rightarrow> (unit, tenantA) op" where [spec_defs]:
  "spec_RenameRole name newName = requireRole name (\<lambda>a.
     if newName \<in> aRoles a then (Inl ErrConflict, a)
     else (Inr (), a\<lparr>
       aRoles := insert newName (aRoles a - {name}),
       aAssign := (\<lambda>sub. rename_in name newName (aAssign a sub)),
       aRolePerm := (aRolePerm a)(newName := aRolePerm a name, name := Map.empty),
       aRoleIDs := (aRoleIDs a)(newName := aRoleIDs a name, name := (\<lambda>_. {}))\<rparr>))"

definition spec_DeleteRole :: "string \<Rightarrow> (unit, tenantA) op" where [spec_defs]:
  "spec_DeleteRole name = requireRole name (modify (\<lambda>a. a\<lparr>
     aRoles := aRoles a - {name},
     aAssign := (\<lambda>sub. aAssign a sub - {name}),
     aRolePerm := (aRolePerm a)(name := Map.empty),
     aRoleIDs := (aRoleIDs a)(name := (\<lambda>_. {}))\<rparr>))"

definition spec_ListRoles :: "(Role list, tenantA) op" where [spec_defs]:
  "spec_ListRoles = gets (\<lambda>a. map (\<lambda>n. \<lparr>Role_Name = n\<rparr>) (sorted_list_of_set (aRoles a)))"

definition spec_AssignRole :: "string \<Rightarrow> string \<Rightarrow> (unit, tenantA) op" where [spec_defs]:
  "spec_AssignRole sub role = requireRole role (modify (\<lambda>a.
     a\<lparr>aAssign := (aAssign a)(sub := insert role (aAssign a sub))\<rparr>))"

definition spec_UnassignRole :: "string \<Rightarrow> string \<Rightarrow> (unit, tenantA) op" where [spec_defs]:
  "spec_UnassignRole sub role = requireRole role (\<lambda>a.
     if role \<notin> aAssign a sub then (Inl ErrNotFound, a)
     else (Inr (), a\<lparr>aAssign := (aAssign a)(sub := aAssign a sub - {role})\<rparr>))"

definition spec_UserRoles :: "string \<Rightarrow> (string slice, tenantA) op" where [spec_defs]:
  "spec_UserRoles sub = gets (\<lambda>a. Some (sorted_list_of_set (aAssign a sub)))"

definition list_permissions :: "(string \<Rightarrow> Scope option) \<Rightarrow> OperationScope list" where
  "list_permissions P = map (\<lambda>p. operation_scope p (the (P p))) (sorted_list_of_set (dom P))"

definition spec_SetRolePermission :: "string \<Rightarrow> string \<Rightarrow> Scope \<Rightarrow> (unit, tenantA) op" where [spec_defs]:
  "spec_SetRolePermission role p scope = requireRole role (modify (\<lambda>a.
     a\<lparr>aRolePerm := (aRolePerm a)(role := (aRolePerm a role)(p \<mapsto> scope))\<rparr>))"

definition spec_RemoveRolePermission :: "string \<Rightarrow> string \<Rightarrow> (unit, tenantA) op" where [spec_defs]:
  "spec_RemoveRolePermission role p = requireRole role (\<lambda>a.
     if aRolePerm a role p = None then (Inl ErrNotFound, a)
     else (Inr (), a\<lparr>aRolePerm := (aRolePerm a)(role := (aRolePerm a role)(p := None)),
                    aRoleIDs := (aRoleIDs a)(role := (aRoleIDs a role)(p := {}))\<rparr>))"

definition spec_RolePermissions :: "string \<Rightarrow> (OperationScope list, tenantA) op" where [spec_defs]:
  "spec_RolePermissions role = requireRole role (gets (\<lambda>a. list_permissions (aRolePerm a role)))"

definition spec_HasRolePermission :: "string \<Rightarrow> string \<Rightarrow> (bool, tenantA) op" where [spec_defs]:
  "spec_HasRolePermission role p = requireRole role (gets (\<lambda>a. aRolePerm a role p \<noteq> None))"

definition spec_SetUserPermission :: "string \<Rightarrow> string \<Rightarrow> Scope \<Rightarrow> (unit, tenantA) op" where [spec_defs]:
  "spec_SetUserPermission sub p scope = modify (\<lambda>a.
     a\<lparr>aUserPerm := (aUserPerm a)(sub := (aUserPerm a sub)(p \<mapsto> scope))\<rparr>)"

definition spec_RemoveUserPermission :: "string \<Rightarrow> string \<Rightarrow> (unit, tenantA) op" where [spec_defs]:
  "spec_RemoveUserPermission sub p = (\<lambda>a.
     if aUserPerm a sub p = None then (Inl ErrNotFound, a)
     else (Inr (), a\<lparr>aUserPerm := (aUserPerm a)(sub := (aUserPerm a sub)(p := None)),
                    aUserIDs := (aUserIDs a)(sub := (aUserIDs a sub)(p := {}))\<rparr>))"

definition spec_UserPermissions :: "string \<Rightarrow> (OperationScope list, tenantA) op" where [spec_defs]:
  "spec_UserPermissions sub = gets (\<lambda>a. list_permissions (aUserPerm a sub))"

definition spec_HasUserPermission :: "string \<Rightarrow> string \<Rightarrow> (bool, tenantA) op" where [spec_defs]:
  "spec_HasUserPermission sub p = gets (\<lambda>a. aUserPerm a sub p \<noteq> None)"

definition spec_AddRoleRestrictedIDs :: "string \<Rightarrow> string \<Rightarrow> string list \<Rightarrow> (unit, tenantA) op" where [spec_defs]:
  "spec_AddRoleRestrictedIDs role p ids = requireRole role (modify (\<lambda>a.
     a\<lparr>aRoleIDs := (aRoleIDs a)(role := (aRoleIDs a role)(p := aRoleIDs a role p \<union> set ids))\<rparr>))"

definition spec_RemoveRoleRestrictedIDs :: "string \<Rightarrow> string \<Rightarrow> string list \<Rightarrow> (unit, tenantA) op" where [spec_defs]:
  "spec_RemoveRoleRestrictedIDs role p ids = requireRole role (modify (\<lambda>a.
     a\<lparr>aRoleIDs := (aRoleIDs a)(role := (aRoleIDs a role)(p := aRoleIDs a role p - set ids))\<rparr>))"

lemma spec_RemoveRoleRestrictedIDs_result:
  "fst (spec_RemoveRoleRestrictedIDs role p ids a) \<in> {Inr (), Inl ErrNotFound}"
  by (simp add: spec_defs eff_simps)

definition spec_RoleRestrictedIDs :: "string list \<Rightarrow> string \<Rightarrow> (string list, tenantA) op" where [spec_defs]:
  "spec_RoleRestrictedIDs roles p =
     gets (\<lambda>a. sorted_list_of_set (\<Union>r \<in> set roles. aRoleIDs a r p))"

definition spec_AddUserRestrictedIDs :: "string \<Rightarrow> string \<Rightarrow> string list \<Rightarrow> (unit, tenantA) op" where [spec_defs]:
  "spec_AddUserRestrictedIDs sub p ids = modify (\<lambda>a.
     a\<lparr>aUserIDs := (aUserIDs a)(sub := (aUserIDs a sub)(p := aUserIDs a sub p \<union> set ids))\<rparr>)"

definition spec_RemoveUserRestrictedIDs :: "string \<Rightarrow> string \<Rightarrow> string list \<Rightarrow> (unit, tenantA) op" where [spec_defs]:
  "spec_RemoveUserRestrictedIDs sub p ids = modify (\<lambda>a.
     a\<lparr>aUserIDs := (aUserIDs a)(sub := (aUserIDs a sub)(p := aUserIDs a sub p - set ids))\<rparr>)"

definition spec_UserRestrictedIDs :: "string \<Rightarrow> string \<Rightarrow> (string list, tenantA) op" where [spec_defs]:
  "spec_UserRestrictedIDs sub p = gets (\<lambda>a. sorted_list_of_set (aUserIDs a sub p))"

definition grants_of :: "tenantA \<Rightarrow> string list \<Rightarrow> RoleGrant list" where
  "grants_of a roles = concat (map (\<lambda>r.
     map (\<lambda>p. role_grant r p (the (aRolePerm a r p))) (sorted_list_of_set (dom (aRolePerm a r)))) roles)"

definition spec_RoleGrants :: "string list \<Rightarrow> (RoleGrant list, tenantA) op" where [spec_defs]:
  "spec_RoleGrants roles = gets (\<lambda>a. grants_of a roles)"

definition spec_tenant :: "tenantA Tenant" where
  "spec_tenant = \<lparr>
     Tenant_CreateRole = spec_CreateRole, Tenant_EnsureRole = spec_EnsureRole,
     Tenant_RoleExists = spec_RoleExists, Tenant_RenameRole = spec_RenameRole,
     Tenant_DeleteRole = spec_DeleteRole, Tenant_ListRoles = spec_ListRoles,
     Tenant_AssignRole = spec_AssignRole, Tenant_UnassignRole = spec_UnassignRole,
     Tenant_UserRoles = spec_UserRoles, Tenant_SetRolePermission = spec_SetRolePermission,
     Tenant_RemoveRolePermission = spec_RemoveRolePermission,
     Tenant_RolePermissions = spec_RolePermissions,
     Tenant_HasRolePermission = spec_HasRolePermission,
     Tenant_SetUserPermission = spec_SetUserPermission,
     Tenant_RemoveUserPermission = spec_RemoveUserPermission,
     Tenant_UserPermissions = spec_UserPermissions,
     Tenant_HasUserPermission = spec_HasUserPermission,
     Tenant_AddRoleRestrictedIDs = spec_AddRoleRestrictedIDs,
     Tenant_RemoveRoleRestrictedIDs = spec_RemoveRoleRestrictedIDs,
     Tenant_RoleRestrictedIDs = spec_RoleRestrictedIDs,
     Tenant_AddUserRestrictedIDs = spec_AddUserRestrictedIDs,
     Tenant_RemoveUserRestrictedIDs = spec_RemoveUserRestrictedIDs,
     Tenant_UserRestrictedIDs = spec_UserRestrictedIDs,
     Tenant_RoleGrants = spec_RoleGrants\<rparr>"

lemma spec_tenant_simps [simp]:
  "Tenant_CreateRole spec_tenant = spec_CreateRole" "Tenant_EnsureRole spec_tenant = spec_EnsureRole"
  "Tenant_RoleExists spec_tenant = spec_RoleExists" "Tenant_RenameRole spec_tenant = spec_RenameRole"
  "Tenant_DeleteRole spec_tenant = spec_DeleteRole" "Tenant_ListRoles spec_tenant = spec_ListRoles"
  "Tenant_AssignRole spec_tenant = spec_AssignRole"
  "Tenant_UnassignRole spec_tenant = spec_UnassignRole"
  "Tenant_UserRoles spec_tenant = spec_UserRoles"
  "Tenant_SetRolePermission spec_tenant = spec_SetRolePermission"
  "Tenant_RemoveRolePermission spec_tenant = spec_RemoveRolePermission"
  "Tenant_RolePermissions spec_tenant = spec_RolePermissions"
  "Tenant_HasRolePermission spec_tenant = spec_HasRolePermission"
  "Tenant_SetUserPermission spec_tenant = spec_SetUserPermission"
  "Tenant_RemoveUserPermission spec_tenant = spec_RemoveUserPermission"
  "Tenant_UserPermissions spec_tenant = spec_UserPermissions"
  "Tenant_HasUserPermission spec_tenant = spec_HasUserPermission"
  "Tenant_AddRoleRestrictedIDs spec_tenant = spec_AddRoleRestrictedIDs"
  "Tenant_RemoveRoleRestrictedIDs spec_tenant = spec_RemoveRoleRestrictedIDs"
  "Tenant_RoleRestrictedIDs spec_tenant = spec_RoleRestrictedIDs"
  "Tenant_AddUserRestrictedIDs spec_tenant = spec_AddUserRestrictedIDs"
  "Tenant_RemoveUserRestrictedIDs spec_tenant = spec_RemoveUserRestrictedIDs"
  "Tenant_UserRestrictedIDs spec_tenant = spec_UserRestrictedIDs"
  "Tenant_RoleGrants spec_tenant = spec_RoleGrants"
  by (simp_all add: spec_tenant_def)

section \<open>The contracts\<close>

definition finite_shared :: "sharedA \<Rightarrow> bool" where
  "finite_shared a \<longleftrightarrow> finite (aUsers a) \<and> finite (aResources a) \<and> finite (dom (aOps a))"

definition finite_tenant :: "tenantA \<Rightarrow> bool" where
  "finite_tenant a \<longleftrightarrow> finite (aRoles a) \<and> (\<forall>sub. finite (aAssign a sub))
     \<and> (\<forall>r. finite (dom (aRolePerm a r))) \<and> (\<forall>r p. finite (aRoleIDs a r p))
     \<and> (\<forall>u. finite (dom (aUserPerm a u))) \<and> (\<forall>u p. finite (aUserIDs a u p))"

text \<open>Two lists with the same elements, the first without repetitions.\<close>

definition same_elements :: "'a list \<Rightarrow> 'a list \<Rightarrow> bool" where
  "same_elements xs ys \<longleftrightarrow> distinct xs \<and> set xs = set ys"

definition permuted :: "'a list \<Rightarrow> 'a list \<Rightarrow> bool" where
  "permuted xs ys \<longleftrightarrow> mset xs = mset ys"

locale shared_store =
  fixes S :: "'s Shared"
    and invS :: "'s \<Rightarrow> bool"
    and absS :: "'s \<Rightarrow> sharedA"
  assumes finite_absS: "invS s \<Longrightarrow> finite_shared (absS s)"
    and EnsureUser: "refines invS absS (Shared_EnsureUser S sub) (spec_EnsureUser sub)"
    and ListUsers: "refines invS absS (Shared_ListUsers S) spec_ListUsers"
    and CreateResource: "refines invS absS (Shared_CreateResource S name) (spec_CreateResource name)"
    and EnsureResource: "refines invS absS (Shared_EnsureResource S name) (spec_EnsureResource name)"
    and DeleteResource: "refines invS absS (Shared_DeleteResource S name) (spec_DeleteResource name)"
    and ListResources: "refines invS absS (Shared_ListResources S) spec_ListResources"
    and CreateOperation:
      "refines invS absS (Shared_CreateOperation S name res) (spec_CreateOperation name res)"
    and EnsureOperation:
      "refines invS absS (Shared_EnsureOperation S name res) (spec_EnsureOperation name res)"
    and DeleteOperation: "refines invS absS (Shared_DeleteOperation S name) (spec_DeleteOperation name)"
    and ListOperations: "refines invS absS (Shared_ListOperations S) spec_ListOperations"
    and OperationExists: "refines invS absS (Shared_OperationExists S name) (spec_OperationExists name)"

text \<open>
  Five methods promise less than equality: \<open>UserRoles\<close> may return nil for an empty slice;
  \<open>RoleGrants\<close> and the two ID queries fix the elements of their result but not their order,
  \<open>RoleGrants\<close> only for a list of distinct role names; and removing no IDs from a role that does not
  exist may or may not be \<open>ErrNotFound\<close> (the state is fixed in either case).
\<close>

locale tenant_store =
  fixes T :: "'t Tenant"
    and invT :: "'t \<Rightarrow> bool"
    and absT :: "'t \<Rightarrow> tenantA"
  assumes finite_absT: "invT t \<Longrightarrow> finite_tenant (absT t)"
    and CreateRole: "refines invT absT (Tenant_CreateRole T name) (spec_CreateRole name)"
    and EnsureRole: "refines invT absT (Tenant_EnsureRole T name) (spec_EnsureRole name)"
    and RoleExists: "refines invT absT (Tenant_RoleExists T name) (spec_RoleExists name)"
    and RenameRole: "refines invT absT (Tenant_RenameRole T name name') (spec_RenameRole name name')"
    and DeleteRole: "refines invT absT (Tenant_DeleteRole T name) (spec_DeleteRole name)"
    and ListRoles: "refines invT absT (Tenant_ListRoles T) spec_ListRoles"
    and AssignRole: "refines invT absT (Tenant_AssignRole T sub role) (spec_AssignRole sub role)"
    and UnassignRole: "refines invT absT (Tenant_UnassignRole T sub role) (spec_UnassignRole sub role)"
    and UserRoles: "refinesR invT absT same_slice (Tenant_UserRoles T sub) (spec_UserRoles sub)"
    and SetRolePermission:
      "refines invT absT (Tenant_SetRolePermission T role p sc) (spec_SetRolePermission role p sc)"
    and RemoveRolePermission:
      "refines invT absT (Tenant_RemoveRolePermission T role p) (spec_RemoveRolePermission role p)"
    and RolePermissions: "refines invT absT (Tenant_RolePermissions T role) (spec_RolePermissions role)"
    and HasRolePermission:
      "refines invT absT (Tenant_HasRolePermission T role p) (spec_HasRolePermission role p)"
    and SetUserPermission:
      "refines invT absT (Tenant_SetUserPermission T sub p sc) (spec_SetUserPermission sub p sc)"
    and RemoveUserPermission:
      "refines invT absT (Tenant_RemoveUserPermission T sub p) (spec_RemoveUserPermission sub p)"
    and UserPermissions: "refines invT absT (Tenant_UserPermissions T sub) (spec_UserPermissions sub)"
    and HasUserPermission:
      "refines invT absT (Tenant_HasUserPermission T sub p) (spec_HasUserPermission sub p)"
    and AddRoleRestrictedIDs:
      "refines invT absT (Tenant_AddRoleRestrictedIDs T role p ids) (spec_AddRoleRestrictedIDs role p ids)"
    and RemoveRoleRestrictedIDs:
      "invT t \<Longrightarrow> ids \<noteq> [] \<or> role \<in> aRoles (absT t) \<Longrightarrow>
       refines_at invT absT (=) (Tenant_RemoveRoleRestrictedIDs T role p ids)
         (spec_RemoveRoleRestrictedIDs role p ids) t"
    and RemoveRoleRestrictedIDs_state:
      "invT t \<Longrightarrow> invT (snd (Tenant_RemoveRoleRestrictedIDs T role p ids t))
         \<and> absT (snd (Tenant_RemoveRoleRestrictedIDs T role p ids t)) = snd (spec_RemoveRoleRestrictedIDs role p ids (absT t))
         \<and> fst (Tenant_RemoveRoleRestrictedIDs T role p ids t) \<in> {Inr (), Inl ErrNotFound}"
    and RoleRestrictedIDs:
      "refinesR invT absT same_elements (Tenant_RoleRestrictedIDs T roles p)
         (spec_RoleRestrictedIDs roles p)"
    and AddUserRestrictedIDs:
      "refines invT absT (Tenant_AddUserRestrictedIDs T sub p ids) (spec_AddUserRestrictedIDs sub p ids)"
    and RemoveUserRestrictedIDs:
      "refines invT absT (Tenant_RemoveUserRestrictedIDs T sub p ids)
         (spec_RemoveUserRestrictedIDs sub p ids)"
    and UserRestrictedIDs:
      "refinesR invT absT same_elements (Tenant_UserRestrictedIDs T sub p) (spec_UserRestrictedIDs sub p)"
    and RoleGrants:
      "distinct roles \<Longrightarrow>
       refinesR invT absT permuted (Tenant_RoleGrants T roles) (spec_RoleGrants roles)"

context tenant_store
begin

lemma UserRoles_run:
  assumes "invT t" and "Tenant_UserRoles T sub t = (r, t1)"
  obtains rs where "r = Inr rs" "elems rs = sorted_list_of_set (aAssign (absT t) sub)" "absT t1 = absT t" "invT t1"
proof -
  note D = refinesRD[OF UserRoles assms(1), of sub, unfolded assms(2) fst_conv snd_conv]
  show thesis
  proof (cases r)
    case (Inl e)
    then show ?thesis using D(1) by (simp add: spec_UserRoles_def gets_def)
  next
    case (Inr rs)
    show ?thesis by (rule that[OF Inr]) (use D Inr in \<open>simp_all add: spec_UserRoles_def gets_def same_slice_def\<close>)
  qed
qed

end

section \<open>Facts about the abstract stores\<close>

lemma finite_tenantD:
  assumes "finite_tenant a"
  shows "finite (aRoles a)" "finite (aAssign a sub)" "finite (dom (aRolePerm a r))"
    "finite (aRoleIDs a r p)" "finite (dom (aUserPerm a u))" "finite (aUserIDs a u p)"
  using assms by (simp_all add: finite_tenant_def)

lemma set_list_permissions:
  "finite (dom P) \<Longrightarrow> set (list_permissions P) = {operation_scope p s |p s. P p = Some s}"
  by (force simp: list_permissions_def)

lemma map_Operation_list_permissions:
  "map Operation (list_permissions P) = sorted_list_of_set (dom P)"
  by (simp add: list_permissions_def comp_def)

lemma set_grants_of:
  "finite_tenant a \<Longrightarrow>
   set (grants_of a roles) = {role_grant r p s |r p s. r \<in> set roles \<and> aRolePerm a r p = Some s}"
  by (force simp: grants_of_def finite_tenantD)

lemma distinct_grants_of:
  assumes "finite_tenant a" and "distinct roles"
  shows "distinct (grants_of a roles)"
  using assms(2)
proof (induction roles)
  case Nil
  show ?case by (simp add: grants_of_def)
next
  case (Cons r roles)
  have "distinct (map (\<lambda>p. role_grant r p (the (aRolePerm a r p))) (sorted_list_of_set (dom (aRolePerm a r))))"
    by (simp add: distinct_map inj_on_def)
  then show ?case using Cons by (auto simp: grants_of_def)
qed

lemma rename_in_iff:
  "x \<in> rename_in n n' R \<longleftrightarrow> (if x = n' then n \<in> R \<or> n' \<in> R \<and> (n = n' \<longrightarrow> n \<in> R) else x \<in> R \<and> x \<noteq> n)"
  by (auto simp: rename_in_def)

section \<open>Collecting without repetition\<close>

text \<open>The loop with which both drivers gather record IDs, each when it is not yet in \<open>seen\<close>.\<close>

fun collect_ids :: "string list \<Rightarrow> string list \<Rightarrow> string list \<Rightarrow> string list \<times> string list" where
  "collect_ids [] seen out = (seen, out)"
| "collect_ids (i # ids) seen out =
     (if i \<in> set seen then collect_ids ids seen out
      else collect_ids ids (i # seen) (out @ [i]))"

lemma collect_ids_run:
  assumes "collect_ids ids seen out = (seen', out')" and "set seen = set out" and "distinct out"
  shows "set seen' = set out \<union> set ids \<and> set out' = set out \<union> set ids \<and> distinct out'"
  using assms by (induction ids seen out rule: collect_ids.induct) (auto split: if_splits)

end
