(* ===== verification/Authz.thy ===== *)
theory Authz
  imports StoreSpec
begin

text \<open>
  \<^verbatim>\<open>internal/service/authz.go\<close>: permission resolution on any implementation of the \<open>Tenant\<close>
  interface, and its correctness under the contract \<open>tenant_store\<close>: what \<open>resolve\<close> computes by
  scanning grants in an unspecified order is the declarative \<open>effective\<close> scope below.
\<close>

section \<open>The code\<close>

record resolution =
  res_scope :: Scope
  fromUser :: bool
  res_roles :: "string list"

type_synonym effmap = "(string, resolution) fmap"

definition user_layer :: "OperationScope list \<Rightarrow> effmap" where
  "user_layer userPerms = fold (\<lambda>p eff.
     fmupd (Operation p) \<lparr>res_scope = Scope_of p, fromUser = True, res_roles = []\<rparr> eff) userPerms fmempty"

text \<open>One pass of the loop over the role grants: the cases of the \<^verbatim>\<open>switch\<close> in their order.\<close>

definition merge_grant :: "RoleGrant \<Rightarrow> effmap \<Rightarrow> effmap" where
  "merge_grant g eff =
     (case fmlookup eff (grant_Operation g) of
        None \<Rightarrow> fmupd (grant_Operation g)
          \<lparr>res_scope = grant_Scope g, fromUser = False,
           res_roles = (if grant_Scope g = ScopeRestricted then [grant_Role g] else [])\<rparr> eff
      | Some cur \<Rightarrow>
          if fromUser cur then eff
          else if res_scope cur = ScopeFull then eff
          else if grant_Scope g = ScopeFull then
            fmupd (grant_Operation g) (cur\<lparr>res_scope := ScopeFull, res_roles := []\<rparr>) eff
          else if grant_Scope g = ScopeRestricted then
            fmupd (grant_Operation g)
              (cur\<lparr>res_scope := ScopeRestricted, res_roles := res_roles cur @ [grant_Role g]\<rparr>) eff
          else eff)"

definition resolve :: "'t Tenant \<Rightarrow> string \<Rightarrow> (effmap, 't) op" where
  "resolve T sub =
     andThen (Tenant_UserPermissions T sub) (\<lambda>userPerms.
     let eff = user_layer userPerms in
     andThen (Tenant_UserRoles T sub) (\<lambda>roles.
     if elems roles = [] then ret eff
     else andThen (Tenant_RoleGrants T (elems roles)) (\<lambda>grants.
          ret (fold merge_grant grants eff))))"

definition EffectiveOperations :: "map_order \<Rightarrow> 't Tenant \<Rightarrow> string \<Rightarrow> (OperationScope list, 't) op" where
  "EffectiveOperations it T sub =
     andThen (resolve T sub) (\<lambda>eff.
     ret (sort_Slice Operation
       (map (\<lambda>(p, r). operation_scope p (res_scope r)) (range_map it (Some eff)))))"

definition MetaOperations :: "map_order \<Rightarrow> 't Tenant \<Rightarrow> string \<Rightarrow> (OperationScope list, 't) op" where
  "MetaOperations it T sub =
     andThen (EffectiveOperations it T sub) (\<lambda>all.
     ret (filter (\<lambda>os. IsMetaOperation (Operation os)) all))"

fun record_ids_loop :: "'t Tenant \<Rightarrow> string \<Rightarrow> effmap \<Rightarrow> string list
    \<Rightarrow> (string, string list) fmap \<Rightarrow> ((string, string list) fmap, 't) op" where
  "record_ids_loop T sub eff [] out = ret out"
| "record_ids_loop T sub eff (p # ps) out =
     (case fmlookup eff p of
        None \<Rightarrow> record_ids_loop T sub eff ps out
      | Some r \<Rightarrow>
          if res_scope r \<noteq> ScopeRestricted then record_ids_loop T sub eff ps out
          else andThen (if fromUser r then Tenant_UserRestrictedIDs T sub p
                        else Tenant_RoleRestrictedIDs T (res_roles r) p) (\<lambda>ids.
               record_ids_loop T sub eff ps (fmupd p (sort_Strings ids) out)))"

definition RecordIDs :: "'t Tenant \<Rightarrow> string \<Rightarrow> string list \<Rightarrow> ((string, string list) fmap, 't) op" where
  "RecordIDs T sub operations =
     andThen (resolve T sub) (\<lambda>eff. record_ids_loop T sub eff operations fmempty)"

definition Authorize :: "'t Tenant \<Rightarrow> string \<Rightarrow> string \<Rightarrow> (bool, 't) op" where
  "Authorize T sub operation =
     andThen (resolve T sub) (\<lambda>eff.
     ret (case fmlookup eff operation of None \<Rightarrow> False | Some r \<Rightarrow> res_scope r = ScopeFull))"

section \<open>What resolution means\<close>

text \<open>
  The rules of the documentation: a user permission decides alone; otherwise the widest scope
  of the user's roles, \<open>FULL\<close> before \<open>RESTRICTED\<close> before \<open>EMPTY\<close>; no assignment, no permission.
\<close>

definition role_scopes :: "tenantA \<Rightarrow> string \<Rightarrow> string \<Rightarrow> Scope set" where
  "role_scopes a sub p = {sc. \<exists>r \<in> aAssign a sub. aRolePerm a r p = Some sc}"

definition widest :: "Scope set \<Rightarrow> Scope option" where
  "widest scs = (if scs = {} then None
     else if ScopeFull \<in> scs then Some ScopeFull
     else if ScopeRestricted \<in> scs then Some ScopeRestricted
     else Some ScopeEmpty)"

definition effective :: "tenantA \<Rightarrow> string \<Rightarrow> string \<Rightarrow> Scope option" where
  "effective a sub p = (case aUserPerm a sub p of
     Some sc \<Rightarrow> Some sc
   | None \<Rightarrow> widest (role_scopes a sub p))"

text \<open>The record IDs behind an effective \<open>RESTRICTED\<close> scope.\<close>

definition restricted_roles :: "tenantA \<Rightarrow> string \<Rightarrow> string \<Rightarrow> string set" where
  "restricted_roles a sub p = {r \<in> aAssign a sub. aRolePerm a r p = Some ScopeRestricted}"

definition accessible :: "tenantA \<Rightarrow> string \<Rightarrow> string \<Rightarrow> string set" where
  "accessible a sub p = (if aUserPerm a sub p \<noteq> None then aUserIDs a sub p
     else (\<Union>r \<in> restricted_roles a sub p. aRoleIDs a r p))"

definition valid_scopes :: "tenantA \<Rightarrow> bool" where
  "valid_scopes a \<longleftrightarrow> (\<forall>r p sc. aRolePerm a r p = Some sc \<longrightarrow> Valid sc)
     \<and> (\<forall>u p sc. aUserPerm a u p = Some sc \<longrightarrow> Valid sc)"

lemma finite_effective:
  assumes "finite_tenant a"
  shows "finite (dom (effective a sub))"
proof (rule finite_subset)
  show "dom (effective a sub) \<subseteq> dom (aUserPerm a sub) \<union> (\<Union>r \<in> aAssign a sub. dom (aRolePerm a r))"
    by (auto simp: effective_def widest_def role_scopes_def split: option.splits if_splits) blast+
  show "finite (dom (aUserPerm a sub) \<union> (\<Union>r \<in> aAssign a sub. dom (aRolePerm a r)))"
    using assms by (simp add: finite_tenant_def)
qed

section \<open>The loop over the grants\<close>

text \<open>What the loop leaves for an operation without a user permission.\<close>

definition from_grants :: "RoleGrant list \<Rightarrow> resolution option" where
  "from_grants gs = (if gs = [] then None
     else if ScopeFull \<in> grant_Scope ` set gs
       then Some \<lparr>res_scope = ScopeFull, fromUser = False, res_roles = []\<rparr>
     else if ScopeRestricted \<in> grant_Scope ` set gs
       then Some \<lparr>res_scope = ScopeRestricted, fromUser = False,
              res_roles = map grant_Role (filter (\<lambda>g. grant_Scope g = ScopeRestricted) gs)\<rparr>
     else Some \<lparr>res_scope = ScopeEmpty, fromUser = False, res_roles = []\<rparr>)"

lemma fmlookup_user_layer_fold:
  "distinct (map Operation ps) \<Longrightarrow>
   fmlookup (fold (\<lambda>p eff. fmupd (Operation p) \<lparr>res_scope = Scope_of p, fromUser = True, res_roles = []\<rparr> eff) ps eff) x
     = (case find (\<lambda>p. Operation p = x) ps of
          Some p \<Rightarrow> Some \<lparr>res_scope = Scope_of p, fromUser = True, res_roles = []\<rparr>
        | None \<Rightarrow> fmlookup eff x)"
proof (induction ps arbitrary: eff)
  case Nil
  then show ?case by simp
next
  case (Cons p ps)
  have "find (\<lambda>q. Operation q = Operation p) ps = None"
    using Cons.prems by (auto simp: find_None_iff image_iff)
  then show ?case using Cons by (auto split: option.splits)
qed

lemma find_list_permissions:
  assumes "finite (dom P)"
  shows "find (\<lambda>q. Operation q = x) (list_permissions P) = map_option (operation_scope x) (P x)"
proof -
  have "find (\<lambda>q. Operation q = x) (map (\<lambda>p. operation_scope p (the (P p))) ps)
      = (if x \<in> set ps then Some (operation_scope x (the (P x))) else None)" for ps
    by (induction ps) auto
  then show ?thesis using assms
    by (cases "P x") (auto simp: list_permissions_def dom_def)
qed

lemma fmlookup_user_layer:
  assumes "finite (dom P)"
  shows "fmlookup (user_layer (list_permissions P)) x
     = map_option (\<lambda>sc. \<lparr>res_scope = sc, fromUser = True, res_roles = []\<rparr>) (P x)"
proof -
  have "distinct (map Operation (list_permissions P))"
    by (simp add: map_Operation_list_permissions)
  from fmlookup_user_layer_fold[OF this, of fmempty x] show ?thesis
    by (cases "P x") (simp_all add: user_layer_def find_list_permissions[OF assms])
qed

lemma merge_grant_other: "grant_Operation g \<noteq> x \<Longrightarrow> fmlookup (merge_grant g eff) x = fmlookup eff x"
  by (auto simp: merge_grant_def split: option.splits)

lemma merge_grant_user:
  "fmlookup eff x = Some r \<Longrightarrow> fromUser r \<Longrightarrow> fmlookup (merge_grant g eff) x = Some r"
  by (cases "grant_Operation g = x") (simp add: merge_grant_def, simp add: merge_grant_other)

lemma fold_merge_user:
  "fmlookup eff x = Some r \<Longrightarrow> fromUser r \<Longrightarrow> fmlookup (fold merge_grant gs eff) x = Some r"
  by (induction gs arbitrary: eff) (simp_all add: merge_grant_user)

lemma merge_grant_last:
  assumes "fmlookup eff x = from_grants hs" and "grant_Operation g = x" and "Valid (grant_Scope g)"
  shows "fmlookup (merge_grant g eff) x = from_grants (hs @ [g])"
  using assms(3)
proof (cases rule: ValidE)
  case 1
  then show ?thesis using assms(1,2) by (auto simp: merge_grant_def from_grants_def)
next
  case 2
  have "filter (\<lambda>g. grant_Scope g = ScopeRestricted) hs = []"
    if "ScopeRestricted \<notin> grant_Scope ` set hs" using that by (auto simp: filter_empty_conv image_iff)
  then show ?thesis using 2 assms(1,2) by (auto simp: merge_grant_def from_grants_def)
next
  case 3
  then show ?thesis using assms(1,2) by (auto simp: merge_grant_def from_grants_def)
qed

lemma fold_merge_grants:
  assumes "fmlookup eff x = None" and "\<forall>g \<in> set gs. Valid (grant_Scope g)"
  shows "fmlookup (fold merge_grant gs eff) x = from_grants (filter (\<lambda>g. grant_Operation g = x) gs)"
  using assms(2)
proof (induction gs rule: rev_induct)
  case Nil
  show ?case using assms(1) by (simp add: from_grants_def)
next
  case (snoc g gs)
  have IH: "fmlookup (fold merge_grant gs eff) x = from_grants (filter (\<lambda>g. grant_Operation g = x) gs)"
    using snoc by simp
  show ?case
  proof (cases "grant_Operation g = x")
    case False
    then show ?thesis using IH by (simp add: merge_grant_other)
  next
    case True
    let ?hs = "filter (\<lambda>g. grant_Operation g = x) gs"
    have "Valid (grant_Scope g)" using snoc.prems by simp
    then show ?thesis using merge_grant_last[OF IH True] True by simp
  qed
qed

section \<open>Resolution is correct on every store that keeps the contract\<close>

lemma from_grants_scope:
  assumes "\<forall>g \<in> set gs. Valid (grant_Scope g)"
  shows "map_option res_scope (from_grants gs) = widest (grant_Scope ` set gs)"
  by (auto simp: from_grants_def widest_def)

text \<open>The declarative description of the map that \<open>resolve\<close> returns.\<close>

definition resolves :: "tenantA \<Rightarrow> string \<Rightarrow> effmap \<Rightarrow> bool" where
  "resolves a sub eff \<longleftrightarrow> (\<forall>p.
     map_option res_scope (fmlookup eff p) = effective a sub p
     \<and> (\<forall>r. fmlookup eff p = Some r \<longrightarrow>
          (fromUser r \<longleftrightarrow> aUserPerm a sub p \<noteq> None)
        \<and> (\<not> fromUser r \<and> res_scope r = ScopeRestricted \<longrightarrow>
             set (res_roles r) = restricted_roles a sub p)))"

lemma resolvesD:
  assumes "resolves a sub eff"
  shows "map_option res_scope (fmlookup eff p) = effective a sub p"
    "fmlookup eff p = Some r \<Longrightarrow> fromUser r \<longleftrightarrow> aUserPerm a sub p \<noteq> None"
    "fmlookup eff p = Some r \<Longrightarrow> \<not> fromUser r \<Longrightarrow> res_scope r = ScopeRestricted
       \<Longrightarrow> set (res_roles r) = restricted_roles a sub p"
  using assms by (auto simp: resolves_def)

text \<open>The grants a store may return, in any order, give the declarative map.\<close>

lemma fold_merge_resolves:
  assumes fin: "finite_tenant a" and valid: "valid_scopes a"
    and gs: "mset gs = mset (grants_of a (sorted_list_of_set (aAssign a sub)))"
  shows "resolves a sub (fold merge_grant gs (user_layer (list_permissions (aUserPerm a sub))))"
    (is "resolves a sub ?eff")
  unfolding resolves_def
proof
  fix p
  let ?base = "user_layer (list_permissions (aUserPerm a sub))"
  have gset: "set gs = {role_grant r q s |r q s. r \<in> aAssign a sub \<and> aRolePerm a r q = Some s}"
    using mset_eq_setD[OF gs] set_grants_of[OF fin] finite_tenantD(2)[OF fin] by simp
  have base: "fmlookup ?base p
      = map_option (\<lambda>sc. \<lparr>res_scope = sc, fromUser = True, res_roles = []\<rparr>) (aUserPerm a sub p)"
    by (rule fmlookup_user_layer) (rule finite_tenantD(5)[OF fin])
  let ?gp = "filter (\<lambda>g. grant_Operation g = p) gs"
  have gvalid: "\<forall>g \<in> set gs. Valid (grant_Scope g)"
    using valid by (auto simp: gset valid_scopes_def)
  have scopes: "grant_Scope ` set ?gp = role_scopes a sub p"
    by (force simp: gset role_scopes_def image_def)
  have restricted: "grant_Role ` {g \<in> set ?gp. grant_Scope g = ScopeRestricted} = restricted_roles a sub p"
    by (force simp: gset restricted_roles_def image_def)
  show "map_option res_scope (fmlookup ?eff p) = effective a sub p
     \<and> (\<forall>r. fmlookup ?eff p = Some r \<longrightarrow>
          (fromUser r \<longleftrightarrow> aUserPerm a sub p \<noteq> None)
        \<and> (\<not> fromUser r \<and> res_scope r = ScopeRestricted \<longrightarrow>
             set (res_roles r) = restricted_roles a sub p))"
  proof (cases "aUserPerm a sub p")
    case (Some sc)
    then have "fmlookup ?eff p = Some \<lparr>res_scope = sc, fromUser = True, res_roles = []\<rparr>"
      using base by (intro fold_merge_user) simp_all
    then show ?thesis using Some by (simp add: effective_def)
  next
    case None
    have eff: "fmlookup ?eff p = from_grants ?gp"
      using base None gvalid by (intro fold_merge_grants) simp_all
    have "map_option res_scope (fmlookup ?eff p) = effective a sub p"
      using from_grants_scope[of ?gp] gvalid None
      by (simp only: eff scopes effective_def) simp
    moreover have "\<not> fromUser r" if "from_grants ?gp = Some r" for r
      using that by (auto simp: from_grants_def split: if_splits)
    moreover have "set (res_roles r) = restricted_roles a sub p"
      if "from_grants ?gp = Some r" "res_scope r = ScopeRestricted" for r
      using that restricted by (auto simp: from_grants_def split: if_splits)
    ultimately show ?thesis using None eff by auto
  qed
qed

lemma resolves_fmap_dom: "resolves a sub eff \<Longrightarrow> map_get (Some eff) p = None \<longleftrightarrow> effective a sub p = None"
  using resolvesD(1)[of a sub eff p] by (cases "fmlookup eff p") (auto dest: sym)

text \<open>The client of a tenant store: its lemmas use the contract and nothing else of the store.\<close>

locale authorization = tenant_store T invT absT for T :: "'t Tenant" and invT absT
begin

lemma resolve_run:
  assumes t: "invT t" and valid: "valid_scopes (absT t)"
  obtains eff t1 where "resolve T sub t = (Inr eff, t1)" "invT t1" "absT t1 = absT t"
    "resolves (absT t) sub eff"
proof -
  let ?a = "absT t"
  note fin = finite_absT[OF t]
  obtain ups t1 where ups: "Tenant_UserPermissions T sub t = (ups, t1)" by force
  from refines_run[OF UserPermissions t ups]
  have ups': "ups = Inr (list_permissions (aUserPerm ?a sub))" "absT t1 = ?a" "invT t1"
    by (auto simp: spec_UserPermissions_def gets_apply)
  obtain rls t2 where rls: "Tenant_UserRoles T sub t1 = (rls, t2)" by force
  obtain sl where rls': "rls = Inr sl" "elems sl = sorted_list_of_set (aAssign ?a sub)" "absT t2 = ?a" "invT t2"
    using UserRoles_run[OF ups'(3) rls] ups'(2) by metis
  let ?base = "user_layer (list_permissions (aUserPerm ?a sub))"
  let ?roles = "sorted_list_of_set (aAssign ?a sub)"
  show thesis
  proof (cases "?roles = []")
    case True
    then have "resolves ?a sub ?base"
      using fold_merge_resolves[OF fin valid, of "[]" sub] by (simp add: grants_of_def)
    moreover have "resolve T sub t = (Inr ?base, t2)"
      using ups ups' rls rls' True by (simp add: resolve_def eff_simps Let_def)
    ultimately show thesis using that rls' by blast
  next
    case False
    obtain gr t3 where gr: "Tenant_RoleGrants T ?roles t2 = (gr, t3)" by force
    have "distinct ?roles" by simp
    from refinesRD[OF RoleGrants[OF this] rls'(4)] gr rls'(3)
    obtain gs where gs: "gr = Inr gs" "mset gs = mset (grants_of ?a ?roles)" "absT t3 = ?a" "invT t3"
      by (cases gr) (auto simp: spec_RoleGrants_def gets_apply permuted_def)
    have "resolve T sub t = (Inr (fold merge_grant gs ?base), t3)"
      using ups ups' rls rls' gr gs False by (simp add: resolve_def eff_simps Let_def)
    then show thesis using that fold_merge_resolves[OF fin valid gs(2)] gs(3,4) by blast
  qed
qed

lemma Authorize_run:
  assumes "invT t" and "valid_scopes (absT t)"
  shows "fst (Authorize T sub p t) = Inr (effective (absT t) sub p = Some ScopeFull)"
    "absT (snd (Authorize T sub p t)) = absT t" "invT (snd (Authorize T sub p t))"
proof -
  obtain eff t1 where run: "resolve T sub t = (Inr eff, t1)" "invT t1" "absT t1 = absT t"
      "resolves (absT t) sub eff"
    using resolve_run[OF assms] by metis
  show "fst (Authorize T sub p t) = Inr (effective (absT t) sub p = Some ScopeFull)"
    using resolvesD(1)[OF run(4), of p]
    by (cases "fmlookup eff p") (auto simp: Authorize_def eff_simps run(1))
  show "absT (snd (Authorize T sub p t)) = absT t" "invT (snd (Authorize T sub p t))"
    using run by (simp_all add: Authorize_def eff_simps)
qed

lemma EffectiveOperations_run:
  assumes "invT t" and "valid_scopes (absT t)"
  shows "fst (EffectiveOperations it T sub t) = Inr (list_permissions (effective (absT t) sub))"
    "absT (snd (EffectiveOperations it T sub t)) = absT t"
    "invT (snd (EffectiveOperations it T sub t))"
proof -
  obtain eff t1 where run: "resolve T sub t = (Inr eff, t1)" "invT t1" "absT t1 = absT t"
      "resolves (absT t) sub eff"
    using resolve_run[OF assms] by metis
  have dom: "set (map_keys (Some eff)) = dom (effective (absT t) sub)"
    using resolves_fmap_dom[OF run(4)] by auto
  have val: "res_scope (the (fmlookup eff p)) = the (effective (absT t) sub p)"
    if "p \<in> dom (effective (absT t) sub)" for p
    using that resolvesD(1)[OF run(4), of p] by (cases "fmlookup eff p") auto
  have "sort_Slice Operation (map (\<lambda>(p, r). operation_scope p (res_scope r)) (range_map it (Some eff)))
      = map (\<lambda>p. operation_scope p (res_scope (the (fmlookup eff p))))
          (sorted_list_of_set (dom (effective (absT t) sub)))"
    using sort_Slice_by_keys[of "visit it (map_keys (Some eff))" Operation
        "\<lambda>p. operation_scope p (res_scope (the (fmlookup eff p)))"] dom
    by (simp add: range_map_conv comp_def del: set_map_keys)
  moreover have "finite (dom (effective (absT t) sub))" using dom by (metis List.finite_set)
  ultimately have "sort_Slice Operation
        (map (\<lambda>(p, r). operation_scope p (res_scope r)) (range_map it (Some eff)))
      = list_permissions (effective (absT t) sub)"
    using val by (simp add: list_permissions_def)
  then show "fst (EffectiveOperations it T sub t) = Inr (list_permissions (effective (absT t) sub))"
    by (simp add: EffectiveOperations_def eff_simps run(1))
  show "absT (snd (EffectiveOperations it T sub t)) = absT t"
    "invT (snd (EffectiveOperations it T sub t))"
    using run by (simp_all add: EffectiveOperations_def eff_simps)
qed

lemma MetaOperations_run:
  assumes "invT t" and "valid_scopes (absT t)"
  shows "fst (MetaOperations it T sub t)
      = Inr (filter (\<lambda>os. IsMetaOperation (Operation os)) (list_permissions (effective (absT t) sub)))"
    "absT (snd (MetaOperations it T sub t)) = absT t" "invT (snd (MetaOperations it T sub t))"
  using EffectiveOperations_run[OF assms, of it sub]
  by (cases "EffectiveOperations it T sub t", simp add: MetaOperations_def eff_simps split: sum.splits)+

lemma sort_ids:
  "same_elements xs (sorted_list_of_set A) \<Longrightarrow> finite A \<Longrightarrow> sort_Strings xs = sorted_list_of_set A"
  by (simp add: same_elements_def sort_Strings_set)

lemma record_ids_loop_run:
  assumes "resolves a sub eff" and "invT t" and "absT t = a"
  obtains out' t1 where "record_ids_loop T sub eff ps out t = (Inr out', t1)" "invT t1" "absT t1 = a"
    "\<And>p. fmlookup out' p = (if p \<in> set ps \<and> effective a sub p = Some ScopeRestricted
       then Some (sorted_list_of_set (accessible a sub p)) else fmlookup out p)"
  using assms(2,3)
proof (induction ps arbitrary: out t thesis)
  case Nil
  then show ?case by (simp add: eff_simps)
next
  case (Cons p ps)
  note scope = resolvesD(1)[OF assms(1), of p]
  show ?case
  proof (cases "effective a sub p = Some ScopeRestricted")
    case False
    obtain out' t1 where run: "record_ids_loop T sub eff ps out t = (Inr out', t1)" "invT t1" "absT t1 = a"
        "\<And>q. fmlookup out' q = (if q \<in> set ps \<and> effective a sub q = Some ScopeRestricted
           then Some (sorted_list_of_set (accessible a sub q)) else fmlookup out q)"
      using Cons.IH Cons.prems(2,3) by blast
    have "record_ids_loop T sub eff (p # ps) out t = (Inr out', t1)"
      using False scope run(1) by (auto split: option.splits)
    then show ?thesis
    proof (rule Cons.prems(1))
      show "fmlookup out' q = (if q \<in> set (p # ps) \<and> effective a sub q = Some ScopeRestricted
          then Some (sorted_list_of_set (accessible a sub q)) else fmlookup out q)" for q
        using run(4)[of q] False by auto
    qed (fact run(2,3))+
  next
    case True
    then obtain r where r: "fmlookup eff p = Some r" "res_scope r = ScopeRestricted"
      using scope by (cases "fmlookup eff p") auto
    let ?query = "if fromUser r then Tenant_UserRestrictedIDs T sub p
                  else Tenant_RoleRestrictedIDs T (res_roles r) p"
    note fin = finite_absT[OF Cons.prems(2)]
    have fin': "finite (accessible a sub p)"
      using finite_tenantD(2,4,6)[OF fin] Cons.prems(3)
      by (auto simp: accessible_def restricted_roles_def)
    obtain ids t2 where q: "?query t = (Inr ids, t2)" "invT t2" "absT t2 = a"
        "same_elements ids (sorted_list_of_set (accessible a sub p))"
    proof (cases "fromUser r")
      case True
      have acc: "accessible a sub p = aUserIDs a sub p"
        using True resolvesD(2)[OF assms(1) r(1)] by (simp add: accessible_def)
      obtain res t2 where res: "Tenant_UserRestrictedIDs T sub p t = (res, t2)" by force
      from refinesRD[OF UserRestrictedIDs[of sub p] Cons.prems(2)] res Cons.prems(3) show thesis
        using that True acc by (cases res) (auto simp: spec_UserRestrictedIDs_def gets_apply)
    next
      case False
      have "set (res_roles r) = restricted_roles a sub p"
        using resolvesD(3)[OF assms(1) r(1) False r(2)] .
      then have acc: "accessible a sub p = (\<Union>x \<in> set (res_roles r). aRoleIDs a x p)"
        using False resolvesD(2)[OF assms(1) r(1)] by (simp add: accessible_def)
      obtain res t2 where res: "Tenant_RoleRestrictedIDs T (res_roles r) p t = (res, t2)" by force
      from refinesRD[OF RoleRestrictedIDs[of "res_roles r" p] Cons.prems(2)] res Cons.prems(3) show thesis
        using that False acc by (cases res) (auto simp: spec_RoleRestrictedIDs_def gets_apply)
    qed
    have ids: "sort_Strings ids = sorted_list_of_set (accessible a sub p)"
      using sort_ids[OF q(4) fin'] .
    obtain out' t1 where run: "record_ids_loop T sub eff ps (fmupd p (sort_Strings ids) out) t2 = (Inr out', t1)"
        "invT t1" "absT t1 = a"
        "\<And>q. fmlookup out' q = (if q \<in> set ps \<and> effective a sub q = Some ScopeRestricted
           then Some (sorted_list_of_set (accessible a sub q))
           else fmlookup (fmupd p (sort_Strings ids) out) q)"
      using Cons.IH q(2,3) by blast
    have "record_ids_loop T sub eff (p # ps) out t = (Inr out', t1)"
      using r q(1) run(1) by (simp add: andThen_apply)
    then show ?thesis
    proof (rule Cons.prems(1))
      show "fmlookup out' q = (if q \<in> set (p # ps) \<and> effective a sub q = Some ScopeRestricted
          then Some (sorted_list_of_set (accessible a sub q)) else fmlookup out q)" for q
        using run(4)[of q] True ids by auto
    qed (fact run(2,3))+
  qed
qed

lemma RecordIDs_run:
  assumes "invT t" and "valid_scopes (absT t)"
  obtains out t1 where "RecordIDs T sub ps t = (Inr out, t1)" "invT t1" "absT t1 = absT t"
    "\<And>p. fmlookup out p = (if p \<in> set ps \<and> effective (absT t) sub p = Some ScopeRestricted
       then Some (sorted_list_of_set (accessible (absT t) sub p)) else None)"
proof -
  obtain eff t1 where run: "resolve T sub t = (Inr eff, t1)" "invT t1" "absT t1 = absT t"
      "resolves (absT t) sub eff"
    using resolve_run[OF assms] by metis
  obtain out t2 where "record_ids_loop T sub eff ps fmempty t1 = (Inr out, t2)" "invT t2" "absT t2 = absT t"
    "\<And>p. fmlookup out p = (if p \<in> set ps \<and> effective (absT t) sub p = Some ScopeRestricted
       then Some (sorted_list_of_set (accessible (absT t) sub p)) else fmlookup fmempty p)"
    using record_ids_loop_run[OF run(4,2,3)] by metis
  then show thesis using that[of out t2] run(1) by (simp add: RecordIDs_def eff_simps)
qed

end

end
