(* ===== verification/Admin.thy ===== *)
theory Admin
  imports Authz
begin

text \<open>
  \<^verbatim>\<open>internal/service/admin.go\<close>: the administrative operations on any pair of stores, their
  refinement to the abstract stores under the contracts of both stores (locale \<open>administration\<close>), and the invariant
  \<open>consistent\<close> that ties the two stores together. A function that takes both stores runs on
  pairs of states; \<open>onFst\<close> and \<open>onSnd\<close> say which store a call goes to.
\<close>

section \<open>The code\<close>

subsection \<open>Shared store\<close>

definition EnsureUser :: "'s Shared \<Rightarrow> string \<Rightarrow> (unit, 's) op" where
  "EnsureUser S sub = (if sub = '''' then throw ErrValidation else Shared_EnsureUser S sub)"

definition ListUsers :: "'s Shared \<Rightarrow> (User list, 's) op" where
  "ListUsers S = Shared_ListUsers S"

definition CreateResource :: "'s Shared \<Rightarrow> string \<Rightarrow> (unit, 's) op" where
  "CreateResource S name = (if name = '''' then throw ErrValidation else Shared_CreateResource S name)"

definition DeleteResource :: "'s Shared \<Rightarrow> string \<Rightarrow> (unit, 's) op" where
  "DeleteResource S name = Shared_DeleteResource S name"

definition ListResources :: "'s Shared \<Rightarrow> (Resource list, 's) op" where
  "ListResources S = Shared_ListResources S"

definition CreateOperation :: "'s Shared \<Rightarrow> string \<Rightarrow> (unit, 's) op" where
  "CreateOperation S name = (let resource = OperationResource name in
     if resource = '''' then throw ErrValidation else Shared_CreateOperation S name resource)"

definition EnsureOperation :: "'s Shared \<Rightarrow> string \<Rightarrow> (unit, 's) op" where
  "EnsureOperation S name = (let resource = OperationResource name in
     if resource = '''' then throw ErrValidation else Shared_EnsureOperation S name resource)"

definition DeleteOperation :: "'s Shared \<Rightarrow> string \<Rightarrow> (unit, 's) op" where
  "DeleteOperation S name = Shared_DeleteOperation S name"

definition ListOperations :: "'s Shared \<Rightarrow> (Operation_row list, 's) op" where
  "ListOperations S = Shared_ListOperations S"

definition requireOperation :: "'s Shared \<Rightarrow> string \<Rightarrow> (unit, 's) op" where
  "requireOperation S name = andThen (Shared_OperationExists S name) (\<lambda>ok.
     if \<not> ok then throw ErrNotFound else ret ())"

subsection \<open>Tenant store\<close>

definition CreateRole :: "'t Tenant \<Rightarrow> string \<Rightarrow> (unit, 't) op" where
  "CreateRole T name = (if name = '''' then throw ErrValidation else Tenant_CreateRole T name)"

definition EnsureRole :: "'t Tenant \<Rightarrow> string \<Rightarrow> (unit, 't) op" where
  "EnsureRole T name = (if name = '''' then throw ErrValidation else Tenant_EnsureRole T name)"

definition GetRole :: "'t Tenant \<Rightarrow> string \<Rightarrow> (Role, 't) op" where
  "GetRole T name = andThen (Tenant_RoleExists T name) (\<lambda>ok.
     if \<not> ok then throw ErrNotFound else ret \<lparr>Role_Name = name\<rparr>)"

definition RenameRole :: "'t Tenant \<Rightarrow> string \<Rightarrow> string \<Rightarrow> (unit, 't) op" where
  "RenameRole T name newName =
     (if newName = '''' then throw ErrValidation else Tenant_RenameRole T name newName)"

definition DeleteRole :: "'t Tenant \<Rightarrow> string \<Rightarrow> (unit, 't) op" where
  "DeleteRole T name = Tenant_DeleteRole T name"

definition ListRoles :: "'t Tenant \<Rightarrow> (Role list, 't) op" where
  "ListRoles T = Tenant_ListRoles T"

definition RolePermissions :: "'t Tenant \<Rightarrow> string \<Rightarrow> (OperationScope list, 't) op" where
  "RolePermissions T name = Tenant_RolePermissions T name"

definition AssignRole :: "'s Shared \<Rightarrow> 't Tenant \<Rightarrow> string \<Rightarrow> string \<Rightarrow> (unit, 's \<times> 't) op" where
  "AssignRole S T sub roleName =
     andThen (onFst (EnsureUser S sub)) (\<lambda>_. onSnd (Tenant_AssignRole T sub roleName))"

definition UnassignRole :: "'t Tenant \<Rightarrow> string \<Rightarrow> string \<Rightarrow> (unit, 't) op" where
  "UnassignRole T sub roleName = Tenant_UnassignRole T sub roleName"

definition UserRoles :: "'t Tenant \<Rightarrow> string \<Rightarrow> (string slice, 't) op" where
  "UserRoles T sub = Tenant_UserRoles T sub"

definition SetRolePermission ::
    "'s Shared \<Rightarrow> 't Tenant \<Rightarrow> string \<Rightarrow> string \<Rightarrow> Scope \<Rightarrow> (unit, 's \<times> 't) op" where
  "SetRolePermission S T roleName operation scope =
     (if \<not> Valid scope then throw ErrValidation
      else andThen (onFst (requireOperation S operation)) (\<lambda>_.
           onSnd (Tenant_SetRolePermission T roleName operation scope)))"

definition RemoveRolePermission :: "'t Tenant \<Rightarrow> string \<Rightarrow> string \<Rightarrow> (unit, 't) op" where
  "RemoveRolePermission T roleName operation = Tenant_RemoveRolePermission T roleName operation"

definition SetUserPermission ::
    "'s Shared \<Rightarrow> 't Tenant \<Rightarrow> string \<Rightarrow> string \<Rightarrow> Scope \<Rightarrow> (unit, 's \<times> 't) op" where
  "SetUserPermission S T sub operation scope =
     (if \<not> Valid scope then throw ErrValidation
      else andThen (onFst (requireOperation S operation)) (\<lambda>_.
           andThen (onFst (EnsureUser S sub)) (\<lambda>_.
           onSnd (Tenant_SetUserPermission T sub operation scope))))"

definition RemoveUserPermission :: "'t Tenant \<Rightarrow> string \<Rightarrow> string \<Rightarrow> (unit, 't) op" where
  "RemoveUserPermission T sub operation = Tenant_RemoveUserPermission T sub operation"

definition UpdateRoleRestrictedIDs ::
    "'t Tenant \<Rightarrow> string \<Rightarrow> string \<Rightarrow> string list \<Rightarrow> string list \<Rightarrow> (unit, 't) op" where
  "UpdateRoleRestrictedIDs T roleName operation add remove =
     andThen (Tenant_HasRolePermission T roleName operation) (\<lambda>ok.
     if \<not> ok then throw ErrNotFound
     else andThen (Tenant_AddRoleRestrictedIDs T roleName operation add) (\<lambda>_.
          Tenant_RemoveRoleRestrictedIDs T roleName operation remove))"

definition UpdateUserRestrictedIDs ::
    "'t Tenant \<Rightarrow> string \<Rightarrow> string \<Rightarrow> string list \<Rightarrow> string list \<Rightarrow> (unit, 't) op" where
  "UpdateUserRestrictedIDs T sub operation add remove =
     andThen (Tenant_HasUserPermission T sub operation) (\<lambda>ok.
     if \<not> ok then throw ErrNotFound
     else andThen (Tenant_AddUserRestrictedIDs T sub operation add) (\<lambda>_.
          Tenant_RemoveUserRestrictedIDs T sub operation remove))"

lemmas admin_defs =
  EnsureUser_def ListUsers_def CreateResource_def DeleteResource_def ListResources_def
  CreateOperation_def EnsureOperation_def DeleteOperation_def ListOperations_def requireOperation_def
  CreateRole_def EnsureRole_def GetRole_def RenameRole_def DeleteRole_def ListRoles_def
  RolePermissions_def AssignRole_def UnassignRole_def UserRoles_def SetRolePermission_def
  RemoveRolePermission_def SetUserPermission_def RemoveUserPermission_def
  UpdateRoleRestrictedIDs_def UpdateUserRestrictedIDs_def

section \<open>Refinement: the admin functions on any conforming stores\<close>

text \<open>The services work on one shared store and one tenant store at a time.\<close>

locale administration = shared_store S invS absS + authorization T invT absT
  for S :: "'s Shared" and invS absS and T :: "'t Tenant" and invT absT
begin

lemma EnsureUser_refines: "refines invS absS (EnsureUser S sub) (EnsureUser spec_shared sub)"
  by (simp add: EnsureUser_def EnsureUser refines_throw)

lemma CreateResource_refines: "refines invS absS (CreateResource S name) (CreateResource spec_shared name)"
  by (simp add: CreateResource_def CreateResource refines_throw)

lemma CreateOperation_refines: "refines invS absS (CreateOperation S name) (CreateOperation spec_shared name)"
  by (simp add: CreateOperation_def CreateOperation refines_throw Let_def)

lemma EnsureOperation_refines: "refines invS absS (EnsureOperation S name) (EnsureOperation spec_shared name)"
  by (simp add: EnsureOperation_def EnsureOperation refines_throw Let_def)

lemma requireOperation_refines:
  "refines invS absS (requireOperation S name) (requireOperation spec_shared name)"
  by (auto simp: requireOperation_def intro!: refine_rules OperationExists)

lemma shared_pass_refines:
  "refines invS absS (ListUsers S) (ListUsers spec_shared)"
  "refines invS absS (DeleteResource S name) (DeleteResource spec_shared name)"
  "refines invS absS (ListResources S) (ListResources spec_shared)"
  "refines invS absS (DeleteOperation S name) (DeleteOperation spec_shared name)"
  "refines invS absS (ListOperations S) (ListOperations spec_shared)"
  by (simp_all add: admin_defs ListUsers DeleteResource ListResources DeleteOperation ListOperations)

lemmas shared_admin_refines =
  EnsureUser_refines CreateResource_refines CreateOperation_refines EnsureOperation_refines
  requireOperation_refines shared_pass_refines


lemma CreateRole_refines: "refines invT absT (CreateRole T name) (CreateRole spec_tenant name)"
  by (simp add: CreateRole_def CreateRole refines_throw)

lemma EnsureRole_refines: "refines invT absT (EnsureRole T name) (EnsureRole spec_tenant name)"
  by (simp add: EnsureRole_def EnsureRole refines_throw)

lemma GetRole_refines: "refines invT absT (GetRole T name) (GetRole spec_tenant name)"
  by (auto simp: GetRole_def intro!: refine_rules RoleExists)

lemma RenameRole_refines: "refines invT absT (RenameRole T n n') (RenameRole spec_tenant n n')"
  by (simp add: RenameRole_def RenameRole refines_throw)

text \<open>
  The call that removes IDs comes after the permission was found, so the role exists there and
  the conditional law of the contract applies.
\<close>

lemma UpdateRoleRestrictedIDs_refines:
  "refines invT absT (UpdateRoleRestrictedIDs T role p add remove)
     (UpdateRoleRestrictedIDs spec_tenant role p add remove)"
  unfolding UpdateRoleRestrictedIDs_def spec_tenant_simps
proof (rule refinesRI, rule refines_at_andThen, rule refinesR_at[OF HasRolePermission], assumption)
  fix s x y s1
  assume s1: "invT s1" and has: "spec_HasRolePermission role p (absT s) = (Inr y, absT s1)" and "x = y"
  have role: "role \<in> aRoles (absT s1)"
    using has by (auto simp: spec_defs eff_simps split: if_splits)
  show "refines_at invT absT (=)
     (if \<not> x then throw ErrNotFound
      else andThen (Tenant_AddRoleRestrictedIDs T role p add) (\<lambda>_. Tenant_RemoveRoleRestrictedIDs T role p remove))
     (if \<not> y then throw ErrNotFound
      else andThen (spec_AddRoleRestrictedIDs role p add) (\<lambda>_. spec_RemoveRoleRestrictedIDs role p remove)) s1"
  proof (cases y)
    case False
    then show ?thesis using \<open>x = y\<close> s1 by (auto intro: refinesR_at refines_throw)
  next
    case True
    have "refines_at invT absT (=)
      (andThen (Tenant_AddRoleRestrictedIDs T role p add) (\<lambda>_. Tenant_RemoveRoleRestrictedIDs T role p remove))
      (andThen (spec_AddRoleRestrictedIDs role p add) (\<lambda>_. spec_RemoveRoleRestrictedIDs role p remove)) s1"
    proof (rule refines_at_andThen[OF refinesR_at[OF AddRoleRestrictedIDs s1]])
      fix u :: unit and s2 assume "invT s2" "spec_AddRoleRestrictedIDs role p add (absT s1) = (Inr u, absT s2)"
      moreover from this have "role \<in> aRoles (absT s2)"
        using role by (auto simp: spec_defs eff_simps dest: arg_cong[of _ _ aRoles])
      ultimately show "refines_at invT absT (=) (Tenant_RemoveRoleRestrictedIDs T role p remove)
          (spec_RemoveRoleRestrictedIDs role p remove) s2"
        by (intro RemoveRoleRestrictedIDs) simp_all
    qed
    then show ?thesis using True \<open>x = y\<close> by simp
  qed
qed

lemma UpdateUserRestrictedIDs_refines:
  "refines invT absT (UpdateUserRestrictedIDs T sub p add remove)
     (UpdateUserRestrictedIDs spec_tenant sub p add remove)"
  by (auto simp: UpdateUserRestrictedIDs_def
      intro!: refine_rules HasUserPermission AddUserRestrictedIDs RemoveUserRestrictedIDs)

lemma tenant_pass_refines:
  "refines invT absT (DeleteRole T role) (DeleteRole spec_tenant role)"
  "refines invT absT (ListRoles T) (ListRoles spec_tenant)"
  "refines invT absT (RolePermissions T role) (RolePermissions spec_tenant role)"
  "refines invT absT (UnassignRole T sub role) (UnassignRole spec_tenant sub role)"
  "refinesR invT absT same_slice (UserRoles T sub) (UserRoles spec_tenant sub)"
  "refines invT absT (RemoveRolePermission T role p) (RemoveRolePermission spec_tenant role p)"
  "refines invT absT (RemoveUserPermission T sub p) (RemoveUserPermission spec_tenant sub p)"
  by (simp_all add: admin_defs DeleteRole ListRoles RolePermissions UnassignRole UserRoles
      RemoveRolePermission RemoveUserPermission)

lemmas tenant_admin_refines =
  CreateRole_refines EnsureRole_refines GetRole_refines RenameRole_refines
  UpdateRoleRestrictedIDs_refines UpdateUserRestrictedIDs_refines tenant_pass_refines


lemma AssignRole_refines:
  "refines (both invS invT) (map_prod absS absT) (AssignRole S T sub role)
     (AssignRole spec_shared spec_tenant sub role)"
  by (auto simp: AssignRole_def intro!: refine_rules EnsureUser_refines AssignRole)

lemma SetRolePermission_refines:
  "refines (both invS invT) (map_prod absS absT) (SetRolePermission S T role p sc)
     (SetRolePermission spec_shared spec_tenant role p sc)"
  by (auto simp: SetRolePermission_def intro!: refine_rules requireOperation_refines SetRolePermission)

lemma SetUserPermission_refines:
  "refines (both invS invT) (map_prod absS absT) (SetUserPermission S T sub p sc)
     (SetUserPermission spec_shared spec_tenant sub p sc)"
  by (auto simp: SetUserPermission_def
      intro!: refine_rules requireOperation_refines EnsureUser_refines SetUserPermission)

lemmas both_admin_refines = AssignRole_refines SetRolePermission_refines SetUserPermission_refines

end

section \<open>The invariant\<close>

text \<open>
  What the administrative functions keep. In a tenant: assignments, permissions and record IDs
  belong to existing roles, IDs to an existing permission, and scopes are valid. In the shared
  store: every operation carries the resource of its name, and that resource is registered.
  Across the two: a user with an assignment or an override is provisioned.
\<close>

definition tenant_ok :: "tenantA \<Rightarrow> bool" where
  "tenant_ok a \<longleftrightarrow> finite_tenant a \<and> valid_scopes a
     \<and> (\<forall>sub. aAssign a sub \<subseteq> aRoles a)
     \<and> (\<forall>r p sc. aRolePerm a r p = Some sc \<longrightarrow> r \<in> aRoles a)
     \<and> (\<forall>r p. aRoleIDs a r p \<noteq> {} \<longrightarrow> aRolePerm a r p \<noteq> None)
     \<and> (\<forall>u p. aUserIDs a u p \<noteq> {} \<longrightarrow> aUserPerm a u p \<noteq> None)"

definition shared_ok :: "sharedA \<Rightarrow> bool" where
  "shared_ok a \<longleftrightarrow> finite_shared a \<and> '''' \<notin> aUsers a
     \<and> (\<forall>p r. aOps a p = Some r \<longrightarrow> r = OperationResource p \<and> r \<noteq> '''' \<and> r \<in> aResources a)"

definition provisioned :: "sharedA \<Rightarrow> tenantA \<Rightarrow> bool" where
  "provisioned s t \<longleftrightarrow> (\<forall>sub. aAssign t sub \<noteq> {} \<or> aUserPerm t sub \<noteq> Map.empty \<longrightarrow> sub \<in> aUsers s)"

definition consistent :: "sharedA \<times> tenantA \<Rightarrow> bool" where
  "consistent st \<longleftrightarrow> shared_ok (fst st) \<and> tenant_ok (snd st) \<and> provisioned (fst st) (snd st)"

text \<open>A change of the shared store that no user is lost in is harmless for every tenant.\<close>

lemma provisioned_mono: "provisioned s t \<Longrightarrow> aUsers s \<subseteq> aUsers s' \<Longrightarrow> provisioned s' t"
  by (auto simp: provisioned_def)

text \<open>A change of one tenant that gives no user its first assignment or override.\<close>

definition no_new_users :: "tenantA \<Rightarrow> tenantA \<Rightarrow> bool" where
  "no_new_users t t' \<longleftrightarrow> (\<forall>sub. (aAssign t' sub \<noteq> {} \<longrightarrow> aAssign t sub \<noteq> {})
     \<and> (aUserPerm t' sub \<noteq> Map.empty \<longrightarrow> aUserPerm t sub \<noteq> Map.empty))"

lemma provisioned_no_new: "provisioned s t \<Longrightarrow> no_new_users t t' \<Longrightarrow> provisioned s t'"
  unfolding provisioned_def no_new_users_def by blast

lemma shared_okD:
  assumes "shared_ok a"
  shows "finite (aUsers a)" "finite (aResources a)" "finite (dom (aOps a))" "'''' \<notin> aUsers a"
    "aOps a p = Some r \<Longrightarrow> r = OperationResource p \<and> r \<noteq> '''' \<and> r \<in> aResources a"
  using assms by (auto simp: shared_ok_def finite_shared_def)

subsection \<open>The shared store\<close>

text \<open>
  The functions that work on the shared store alone keep \<open>shared_ok\<close> and lose no user. The
  bootstrap adds resources without a name check, so \<open>aResources\<close> may contain the empty name.
\<close>

definition shared_step :: "('b, sharedA) op \<Rightarrow> bool" where
  "shared_step m \<longleftrightarrow> (\<forall>s. shared_ok s \<longrightarrow> shared_ok (snd (m s)) \<and> aUsers s \<subseteq> aUsers (snd (m s)))"

lemma finite_dom_delete: "finite (dom m) \<Longrightarrow> finite (dom (\<lambda>p. if Q p then None else m p))"
  by (erule rev_finite_subset) (auto split: if_splits)

lemma shared_steps:
  "shared_step (EnsureUser spec_shared sub)" "shared_step (ListUsers spec_shared)"
  "shared_step (CreateResource spec_shared name)" "shared_step (spec_EnsureResource name)"
  "shared_step (DeleteResource spec_shared name)" "shared_step (ListResources spec_shared)"
  "shared_step (CreateOperation spec_shared p)" "shared_step (EnsureOperation spec_shared p)"
  "shared_step (DeleteOperation spec_shared p)" "shared_step (ListOperations spec_shared)"
  "shared_step (requireOperation spec_shared p)"
  by (auto simp: shared_step_def shared_ok_def finite_shared_def admin_defs spec_defs eff_simps Let_def
      intro!: finite_dom_delete split: if_splits)

subsection \<open>A tenant\<close>

definition tenant_step :: "('b, tenantA) op \<Rightarrow> bool" where
  "tenant_step m \<longleftrightarrow> (\<forall>t. tenant_ok t \<longrightarrow> tenant_ok (snd (m t)) \<and> no_new_users t (snd (m t)))"

lemma tenant_ok_noop: "tenant_step m" if "\<And>t. snd (m t) = t"
  using that by (simp add: tenant_step_def no_new_users_def)

lemma tenant_reads:
  "tenant_step (GetRole spec_tenant name)" "tenant_step (ListRoles spec_tenant)"
  "tenant_step (RolePermissions spec_tenant name)" "tenant_step (UserRoles spec_tenant sub)"
  by (auto intro!: tenant_ok_noop simp: admin_defs spec_defs eff_simps split: if_splits)

lemma tenant_okD:
  assumes "tenant_ok t"
  shows "finite_tenant t" "valid_scopes t" "aAssign t sub \<subseteq> aRoles t"
    "aRolePerm t r p = Some sc \<Longrightarrow> r \<in> aRoles t" "aRoleIDs t r p \<noteq> {} \<Longrightarrow> aRolePerm t r p \<noteq> None"
    "aUserIDs t u p \<noteq> {} \<Longrightarrow> aUserPerm t u p \<noteq> None"
    "aRolePerm t r p = Some sc \<Longrightarrow> Valid sc" "aUserPerm t u p = Some sc \<Longrightarrow> Valid sc"
  using assms by (auto simp: tenant_ok_def valid_scopes_def) blast+

lemma tenant_ok_missing_role:
  assumes "tenant_ok t" and "r \<notin> aRoles t"
  shows "aRolePerm t r = Map.empty" "aRoleIDs t r = (\<lambda>_. {})" "r \<notin> aAssign t sub"
proof -
  show "aRolePerm t r = Map.empty" using assms tenant_okD(4)[OF assms(1), of r] by (auto intro!: ext) fastforce
  then show "aRoleIDs t r = (\<lambda>_. {})" using tenant_okD(5)[OF assms(1), of r] by fastforce
  show "r \<notin> aAssign t sub" using tenant_okD(3)[OF assms(1), of sub] assms(2) by blast
qed

lemma tenant_ok_create_role: "tenant_ok t \<Longrightarrow> tenant_ok (t\<lparr>aRoles := insert name (aRoles t)\<rparr>)"
  by (auto simp: tenant_ok_def finite_tenant_def valid_scopes_def)

lemma tenant_ok_delete_role:
  "tenant_ok t \<Longrightarrow> tenant_ok (t\<lparr>aRoles := aRoles t - {name}, aAssign := (\<lambda>sub. aAssign t sub - {name}),
     aRolePerm := (aRolePerm t)(name := Map.empty), aRoleIDs := (aRoleIDs t)(name := (\<lambda>_. {}))\<rparr>)"
  by (auto simp: tenant_ok_def finite_tenant_def valid_scopes_def)

lemma tenant_ok_rename_role:
  assumes "tenant_ok t" and "name \<in> aRoles t" and "newName \<notin> aRoles t"
  shows "tenant_ok (t\<lparr>
       aRoles := insert newName (aRoles t - {name}),
       aAssign := (\<lambda>sub. rename_in name newName (aAssign t sub)),
       aRolePerm := (aRolePerm t)(newName := aRolePerm t name, name := Map.empty),
       aRoleIDs := (aRoleIDs t)(newName := aRoleIDs t name, name := (\<lambda>_. {}))\<rparr>)"
  using assms by (auto simp: tenant_ok_def finite_tenant_def valid_scopes_def rename_in_def)

lemma tenant_ok_assign:
  "tenant_ok t \<Longrightarrow> A \<subseteq> aRoles t \<Longrightarrow>
   tenant_ok (t\<lparr>aAssign := (aAssign t)(sub := A)\<rparr>)"
  by (auto simp: tenant_ok_def finite_tenant_def valid_scopes_def intro: finite_subset)

lemma tenant_ok_role_perm:
  "tenant_ok t \<Longrightarrow> role \<in> aRoles t \<Longrightarrow> Valid sc \<Longrightarrow>
   tenant_ok (t\<lparr>aRolePerm := (aRolePerm t)(role := (aRolePerm t role)(p \<mapsto> sc))\<rparr>)"
  by (auto simp: tenant_ok_def finite_tenant_def valid_scopes_def)

lemma tenant_ok_drop_role_perm:
  "tenant_ok t \<Longrightarrow> tenant_ok (t\<lparr>aRolePerm := (aRolePerm t)(role := (aRolePerm t role)(p := None)),
                    aRoleIDs := (aRoleIDs t)(role := (aRoleIDs t role)(p := {}))\<rparr>)"
  by (auto simp: tenant_ok_def finite_tenant_def valid_scopes_def) blast+

lemma tenant_ok_role_ids:
  "tenant_ok t \<Longrightarrow> aRolePerm t role p \<noteq> None \<Longrightarrow> finite A \<Longrightarrow>
   tenant_ok (t\<lparr>aRoleIDs := (aRoleIDs t)(role := (aRoleIDs t role)(p := A))\<rparr>)"
  by (auto simp: tenant_ok_def finite_tenant_def valid_scopes_def)

lemma tenant_ok_user_perm:
  "tenant_ok t \<Longrightarrow> Valid sc \<Longrightarrow>
   tenant_ok (t\<lparr>aUserPerm := (aUserPerm t)(sub := (aUserPerm t sub)(p \<mapsto> sc))\<rparr>)"
  by (auto simp: tenant_ok_def finite_tenant_def valid_scopes_def)

lemma tenant_ok_drop_user_perm:
  "tenant_ok t \<Longrightarrow> tenant_ok (t\<lparr>aUserPerm := (aUserPerm t)(sub := (aUserPerm t sub)(p := None)),
                    aUserIDs := (aUserIDs t)(sub := (aUserIDs t sub)(p := {}))\<rparr>)"
  by (auto simp: tenant_ok_def finite_tenant_def valid_scopes_def)

lemma tenant_ok_user_ids:
  "tenant_ok t \<Longrightarrow> aUserPerm t sub p \<noteq> None \<Longrightarrow> finite A \<Longrightarrow>
   tenant_ok (t\<lparr>aUserIDs := (aUserIDs t)(sub := (aUserIDs t sub)(p := A))\<rparr>)"
  by (auto simp: tenant_ok_def finite_tenant_def valid_scopes_def)

text \<open>Every function on one tenant keeps \<open>tenant_ok\<close> and gives no user its first entry.\<close>

lemma tenant_stepI:
  "(\<And>t. tenant_ok t \<Longrightarrow> tenant_ok (snd (m t))) \<Longrightarrow> (\<And>t. no_new_users t (snd (m t))) \<Longrightarrow> tenant_step m"
  by (simp add: tenant_step_def)

lemma no_new_users_refl [simp]: "no_new_users t t"
  by (simp add: no_new_users_def)

lemma role_steps:
  "tenant_step (CreateRole spec_tenant name)" "tenant_step (EnsureRole spec_tenant name)"
  "tenant_step (DeleteRole spec_tenant name)" "tenant_step (UnassignRole spec_tenant sub name)"
  "tenant_step (RemoveRolePermission spec_tenant name p)"
  "tenant_step (RemoveUserPermission spec_tenant sub p)"
  by (rule tenant_stepI;
      auto simp: admin_defs spec_defs eff_simps no_new_users_def
        intro!: tenant_ok_create_role tenant_ok_delete_role tenant_ok_assign tenant_ok_drop_role_perm
          tenant_ok_drop_user_perm dest: tenant_okD(3))+

lemma rename_step: "tenant_step (RenameRole spec_tenant name newName)"
proof (rule tenant_stepI)
  fix t assume "tenant_ok t"
  then show "tenant_ok (snd (RenameRole spec_tenant name newName t))"
    by (simp add: admin_defs spec_defs eff_simps tenant_ok_rename_role)
next
  fix t show "no_new_users t (snd (RenameRole spec_tenant name newName t))"
    by (auto simp: admin_defs spec_defs eff_simps no_new_users_def rename_in_def)
qed

text \<open>The effect of the two updates of record IDs in closed form: add first, then remove.\<close>

lemma UpdateRoleRestrictedIDs_spec:
  "UpdateRoleRestrictedIDs spec_tenant role p add remove t =
     (if role \<notin> aRoles t \<or> aRolePerm t role p = None then (Inl ErrNotFound, t)
      else (Inr (), t\<lparr>aRoleIDs := (aRoleIDs t)(role := (aRoleIDs t role)
              (p := (aRoleIDs t role p \<union> set add) - set remove))\<rparr>))"
  by (auto simp: admin_defs spec_defs eff_simps)

lemma UpdateUserRestrictedIDs_spec:
  "UpdateUserRestrictedIDs spec_tenant sub p add remove t =
     (if aUserPerm t sub p = None then (Inl ErrNotFound, t)
      else (Inr (), t\<lparr>aUserIDs := (aUserIDs t)(sub := (aUserIDs t sub)
              (p := (aUserIDs t sub p \<union> set add) - set remove))\<rparr>))"
  by (auto simp: admin_defs spec_defs eff_simps)

lemma ids_steps:
  "tenant_step (UpdateRoleRestrictedIDs spec_tenant role p add remove)"
  "tenant_step (UpdateUserRestrictedIDs spec_tenant sub p add remove)"
proof -
  show "tenant_step (UpdateRoleRestrictedIDs spec_tenant role p add remove)"
    by (rule tenant_stepI)
      (auto simp: UpdateRoleRestrictedIDs_spec no_new_users_def
        intro!: tenant_ok_role_ids finite_tenantD(4) dest: tenant_okD(1))
  show "tenant_step (UpdateUserRestrictedIDs spec_tenant sub p add remove)"
    by (rule tenant_stepI)
      (auto simp: UpdateUserRestrictedIDs_spec no_new_users_def
        intro!: tenant_ok_user_ids finite_tenantD(6) dest: tenant_okD(1))
qed

lemmas tenant_steps = tenant_reads role_steps rename_step ids_steps

subsection \<open>Both stores\<close>

definition consistent_step :: "('b, sharedA \<times> tenantA) op \<Rightarrow> bool" where
  "consistent_step m \<longleftrightarrow> (\<forall>st. consistent st \<longrightarrow>
     consistent (snd (m st)) \<and> aUsers (fst st) \<subseteq> aUsers (fst (snd (m st))))"

lemma consistent_onFst: "shared_step m \<Longrightarrow> consistent_step (onFst m)"
  by (auto simp: consistent_step_def shared_step_def consistent_def onFst_apply intro: provisioned_mono)

lemma consistent_onSnd: "tenant_step m \<Longrightarrow> consistent_step (onSnd m)"
  by (auto simp: consistent_step_def tenant_step_def consistent_def onSnd_apply intro: provisioned_no_new)

text \<open>
  The three functions that use both stores, in closed form. They are not atomic on failure:
  a role assignment that fails because the role is missing has already provisioned the user.
\<close>

lemma AssignRole_spec:
  "AssignRole spec_shared spec_tenant sub role (s, t) =
     (if sub = '''' then (Inl ErrValidation, (s, t))
      else if role \<notin> aRoles t then (Inl ErrNotFound, (s\<lparr>aUsers := insert sub (aUsers s)\<rparr>, t))
      else (Inr (), (s\<lparr>aUsers := insert sub (aUsers s)\<rparr>,
                     t\<lparr>aAssign := (aAssign t)(sub := insert role (aAssign t sub))\<rparr>)))"
  by (simp add: admin_defs spec_defs eff_simps)

lemma SetRolePermission_spec:
  "SetRolePermission spec_shared spec_tenant role p sc (s, t) =
     (if \<not> Valid sc then (Inl ErrValidation, (s, t))
      else if aOps s p = None \<or> role \<notin> aRoles t then (Inl ErrNotFound, (s, t))
      else (Inr (), (s, t\<lparr>aRolePerm := (aRolePerm t)(role := (aRolePerm t role)(p \<mapsto> sc))\<rparr>)))"
  by (auto simp: admin_defs spec_defs eff_simps)

lemma SetUserPermission_spec:
  "SetUserPermission spec_shared spec_tenant sub p sc (s, t) =
     (if \<not> Valid sc then (Inl ErrValidation, (s, t))
      else if aOps s p = None then (Inl ErrNotFound, (s, t))
      else if sub = '''' then (Inl ErrValidation, (s, t))
      else (Inr (), (s\<lparr>aUsers := insert sub (aUsers s)\<rparr>,
                     t\<lparr>aUserPerm := (aUserPerm t)(sub := (aUserPerm t sub)(p \<mapsto> sc))\<rparr>)))"
  by (auto simp: admin_defs spec_defs eff_simps)

lemma shared_ok_insert_user:
  "shared_ok s \<Longrightarrow> sub \<noteq> '''' \<Longrightarrow> shared_ok (s\<lparr>aUsers := insert sub (aUsers s)\<rparr>)"
  by (auto simp: shared_ok_def finite_shared_def)

lemma AssignRole_step: "consistent_step (AssignRole spec_shared spec_tenant sub role)"
  unfolding consistent_step_def
proof (intro allI impI)
  fix st assume ok: "consistent st"
  obtain s t where st: "st = (s, t)" by force
  have "tenant_ok (t\<lparr>aAssign := (aAssign t)(sub := insert role (aAssign t sub))\<rparr>)" if "role \<in> aRoles t"
    using ok that st tenant_okD(3)[of t sub] by (intro tenant_ok_assign) (auto simp: consistent_def)
  then show "consistent (snd (AssignRole spec_shared spec_tenant sub role st))
      \<and> aUsers (fst st) \<subseteq> aUsers (fst (snd (AssignRole spec_shared spec_tenant sub role st)))"
    using ok st by (auto simp: AssignRole_spec consistent_def shared_ok_insert_user provisioned_def)
qed

lemma SetRolePermission_step: "consistent_step (SetRolePermission spec_shared spec_tenant role p sc)"
  by (auto simp: consistent_step_def consistent_def SetRolePermission_spec provisioned_def
      intro!: tenant_ok_role_perm)

lemma SetUserPermission_step: "consistent_step (SetUserPermission spec_shared spec_tenant sub p sc)"
  by (auto simp: consistent_step_def consistent_def SetUserPermission_spec provisioned_def
      intro!: tenant_ok_user_perm shared_ok_insert_user)

lemmas consistent_steps =
  shared_steps[THEN consistent_onFst] tenant_steps[THEN consistent_onSnd]
  AssignRole_step SetRolePermission_step SetUserPermission_step

lemma consistent_stepD:
  assumes "consistent_step m" and "consistent st"
  shows "consistent (snd (m st))" "aUsers (fst st) \<subseteq> aUsers (fst (snd (m st)))"
  using assms by (simp_all add: consistent_step_def del: split_paired_All)

lemma consistent_stepI:
  "(\<And>st. consistent st \<Longrightarrow> consistent (snd (m st)) \<and> aUsers (fst st) \<subseteq> aUsers (fst (snd (m st))))
   \<Longrightarrow> consistent_step m"
  by (simp add: consistent_step_def del: split_paired_All)

lemma consistent_andThen:
  assumes m: "consistent_step m" and f: "\<And>x. consistent_step (f x)"
  shows "consistent_step (andThen m f)"
proof (rule consistent_stepI)
  fix st assume st: "consistent st"
  obtain r st1 where run: "m st = (r, st1)" by (cases "m st")
  note st1 = consistent_stepD[OF m st, unfolded run snd_conv]
  show "consistent (snd (andThen m f st)) \<and> aUsers (fst st) \<subseteq> aUsers (fst (snd (andThen m f st)))"
  proof (cases r)
    case (Inl e)
    then show ?thesis using st1 run by (simp add: andThen_apply)
  next
    case (Inr x)
    then show ?thesis using st1 run consistent_stepD[OF f st1(1), of x] by (auto simp: andThen_apply)
  qed
qed

lemma consistent_simple: "consistent_step (ret x)" "consistent_step (throw e)"
  by (simp_all add: consistent_step_def eff_simps)

lemma consistent_if: "(b \<Longrightarrow> consistent_step m) \<Longrightarrow> (\<not> b \<Longrightarrow> consistent_step m')
    \<Longrightarrow> consistent_step (if b then m else m')"
  by simp

lemma consistent_forEach: "(\<And>x. consistent_step (f x)) \<Longrightarrow> consistent_step (forEach f xs)"
  by (induction xs) (simp_all add: consistent_simple consistent_andThen)

lemmas consistent_rules =
  consistent_andThen consistent_simple consistent_if consistent_forEach consistent_steps

end
