(* ===== verification/Sync.thy ===== *)
theory Sync
  imports Admin
begin

text \<open>
  \<^verbatim>\<open>internal/service/sync.go\<close> and the \<open>Stores\<close> value of \<^verbatim>\<open>internal/store/store.go\<close>: the bootstrap
  files, their synchronisation into the stores, and the bootstrap of the meta model. The state
  is the shared store and one store per tenant ID. The main result says that a file denotes a
  partial store and that synchronising it overlays that partial store on the current one,
  whatever order the runtime picks for the maps of the file.
\<close>

section \<open>The code\<close>

subsection \<open>Bootstrap files\<close>

record PermissionSpec =
  ps_Scope :: Scope
  ps_IDs :: "string list"

record UserBootstrap =
  ub_Roles :: "string list"
  ub_Permissions :: "PermissionSpec gomap"

record TenantBootstrap =
  tb_Roles :: "PermissionSpec gomap gomap"
  tb_Users :: "UserBootstrap gomap"

record BootstrapFile =
  bf_Resources :: "string list"
  bf_Operations :: "string list"
  bf_Tenants :: "TenantBootstrap gomap"

text \<open>
  A YAML node: a scalar with its text, or anything else, which the library decodes into the
  \<^verbatim>\<open>aux\<close> struct. The decoder and \<^verbatim>\<open>fmt.Sprint\<close> of a decoded ID are parameters.
\<close>

datatype 'n yaml_node = ScalarNode string | OtherNode 'n

definition UnmarshalYAML ::
    "('n \<Rightarrow> 'e + Scope \<times> 'any list) \<Rightarrow> ('any \<Rightarrow> string) \<Rightarrow> 'n yaml_node \<Rightarrow> PermissionSpec \<Rightarrow> 'e + PermissionSpec" where
  "UnmarshalYAML decode sprint node p = (case node of
     ScalarNode v \<Rightarrow> Inr (p\<lparr>ps_Scope := v\<rparr>)
   | OtherNode n \<Rightarrow> (case decode n of
       Inl e \<Rightarrow> Inl e
     | Inr (scope, ids) \<Rightarrow> Inr (p\<lparr>ps_Scope := scope, ps_IDs := ps_IDs p @ map sprint ids\<rparr>)))"

definition PermissionSpec_validate :: "PermissionSpec \<Rightarrow> err + unit" where
  "PermissionSpec_validate p = (if \<not> Valid (ps_Scope p) then Inl ErrValidation else Inr ())"

text \<open>The file system and the YAML library are parameters of the loader.\<close>

fun load_matches :: "(string \<Rightarrow> 'e + 'raw) \<Rightarrow> ('raw \<Rightarrow> 'e + BootstrapFile) \<Rightarrow> string list
    \<Rightarrow> BootstrapFile list \<Rightarrow> 'e + BootstrapFile list" where
  "load_matches readFile unmarshal [] files = Inr files"
| "load_matches readFile unmarshal (path # paths) files =
     (case readFile path of Inl e \<Rightarrow> Inl e
      | Inr raw \<Rightarrow> (case unmarshal raw of Inl e \<Rightarrow> Inl e
         | Inr bf \<Rightarrow> load_matches readFile unmarshal paths (files @ [bf])))"

fun load_patterns :: "(string \<Rightarrow> 'e + string list) \<Rightarrow> (string \<Rightarrow> 'e + 'raw) \<Rightarrow> ('raw \<Rightarrow> 'e + BootstrapFile)
    \<Rightarrow> string list \<Rightarrow> BootstrapFile list \<Rightarrow> 'e + BootstrapFile list" where
  "load_patterns glob readFile unmarshal [] files = Inr files"
| "load_patterns glob readFile unmarshal (pattern # patterns) files =
     (case glob pattern of Inl e \<Rightarrow> Inl e
      | Inr matches \<Rightarrow> (case load_matches readFile unmarshal (sort_Strings matches) files of
           Inl e \<Rightarrow> Inl e
         | Inr files' \<Rightarrow> load_patterns glob readFile unmarshal patterns files'))"

definition LoadBootstrapFiles :: "(string \<Rightarrow> 'e + string list) \<Rightarrow> (string \<Rightarrow> 'e + 'raw)
    \<Rightarrow> ('raw \<Rightarrow> 'e + BootstrapFile) \<Rightarrow> string list \<Rightarrow> 'e + BootstrapFile list" where
  "LoadBootstrapFiles glob readFile unmarshal patterns = load_patterns glob readFile unmarshal patterns []"

subsection \<open>The stores\<close>

record ('s, 't) Stores =
  Stores_Shared :: "'s Shared"
  Stores_tenants :: "'t Tenant gomap"

definition Stores_Tenant :: "('s, 't) Stores \<Rightarrow> string \<Rightarrow> 't Tenant option" where
  "Stores_Tenant stores tid = map_get (Stores_tenants stores) tid"

definition TenantIDs :: "map_order \<Rightarrow> ('s, 't) Stores \<Rightarrow> string list" where
  "TenantIDs it stores = sort_Strings (map fst (range_map it (Stores_tenants stores)))"

text \<open>
  The state behind a \<open>Stores\<close> value: the shared store's and one per tenant ID. \<open>at_tenant\<close> runs
  a computation on the shared store and one tenant, \<open>at_shared\<close> one on the shared store.
\<close>

type_synonym ('s, 't) world = "'s \<times> (string \<Rightarrow> 't)"

definition at_shared :: "('a, 's) op \<Rightarrow> ('a, ('s, 't) world) op" where
  "at_shared m = onFst m"

definition at_tenant :: "string \<Rightarrow> ('a, 's \<times> 't) op \<Rightarrow> ('a, ('s, 't) world) op" where
  "at_tenant tid m = (\<lambda>(s, ts). let (r, s1, t1) = m (s, ts tid) in (r, (s1, ts(tid := t1))))"

subsection \<open>Synchronisation\<close>

text \<open>
  The body of \<open>syncFile\<close>, one definition per loop body. Each \<^verbatim>\<open>range\<close> over a map has an order of
  its own: \<open>ord\<close> gives it from the path of the map in the file.
\<close>

type_synonym orders = "string list \<Rightarrow> map_order"

definition sync_role_permission :: "'s Shared \<Rightarrow> 't Tenant \<Rightarrow> string \<Rightarrow> string \<times> PermissionSpec
    \<Rightarrow> (unit, 's \<times> 't) op" where
  "sync_role_permission S T roleName = (\<lambda>(op, spec).
     andThen (liftR (PermissionSpec_validate spec)) (\<lambda>_.
     andThen (onFst (EnsureOperation S op)) (\<lambda>_.
     andThen (SetRolePermission S T roleName op (ps_Scope spec)) (\<lambda>_.
     if length (ps_IDs spec) > 0 then onSnd (UpdateRoleRestrictedIDs T roleName op (ps_IDs spec) [])
     else ret ()))))"

definition sync_role :: "map_order \<Rightarrow> 's Shared \<Rightarrow> 't Tenant \<Rightarrow> string \<Rightarrow> PermissionSpec gomap
    \<Rightarrow> (unit, 's \<times> 't) op" where
  "sync_role it S T roleName perms =
     andThen (onSnd (EnsureRole T roleName)) (\<lambda>_.
     forEach (sync_role_permission S T roleName) (range_map it perms))"

definition sync_user_permission :: "'s Shared \<Rightarrow> 't Tenant \<Rightarrow> string \<Rightarrow> string \<times> PermissionSpec
    \<Rightarrow> (unit, 's \<times> 't) op" where
  "sync_user_permission S T sub = (\<lambda>(op, spec).
     andThen (liftR (PermissionSpec_validate spec)) (\<lambda>_.
     andThen (onFst (EnsureOperation S op)) (\<lambda>_.
     andThen (SetUserPermission S T sub op (ps_Scope spec)) (\<lambda>_.
     if length (ps_IDs spec) > 0 then onSnd (UpdateUserRestrictedIDs T sub op (ps_IDs spec) [])
     else ret ()))))"

definition sync_user :: "map_order \<Rightarrow> 's Shared \<Rightarrow> 't Tenant \<Rightarrow> string \<Rightarrow> UserBootstrap
    \<Rightarrow> (unit, 's \<times> 't) op" where
  "sync_user it S T sub ub =
     andThen (onFst (EnsureUser S sub)) (\<lambda>_.
     andThen (forEach (\<lambda>roleName. AssignRole S T sub roleName) (ub_Roles ub)) (\<lambda>_.
     forEach (sync_user_permission S T sub) (range_map it (ub_Permissions ub))))"

definition sync_tenant :: "orders \<Rightarrow> 's Shared \<Rightarrow> 't Tenant \<Rightarrow> TenantBootstrap \<Rightarrow> (unit, 's \<times> 't) op" where
  "sync_tenant ord S T tb =
     andThen (forEach (\<lambda>(roleName, perms). sync_role (ord [''roles'', roleName]) S T roleName perms)
       (range_map (ord [''roles'']) (tb_Roles tb))) (\<lambda>_.
     forEach (\<lambda>(sub, ub). sync_user (ord [''users'', sub]) S T sub ub)
       (range_map (ord [''users'']) (tb_Users tb)))"

definition syncFile :: "orders \<Rightarrow> ('s, 't) Stores \<Rightarrow> BootstrapFile \<Rightarrow> (unit, ('s, 't) world) op" where
  "syncFile ord stores f =
     andThen (forEach (\<lambda>name. at_shared (Shared_EnsureResource (Stores_Shared stores) name)) (bf_Resources f)) (\<lambda>_.
     andThen (forEach (\<lambda>name. at_shared (EnsureOperation (Stores_Shared stores) name)) (bf_Operations f)) (\<lambda>_.
     forEach (\<lambda>(tenantID, tb).
         case Stores_Tenant stores tenantID of
           None \<Rightarrow> throw ErrValidation
         | Some tenant \<Rightarrow> at_tenant tenantID
             (sync_tenant (\<lambda>path. ord (tenantID # path)) (Stores_Shared stores) tenant tb))
       (range_map (ord []) (bf_Tenants f))))"

definition Sync :: "orders \<Rightarrow> ('s, 't) Stores \<Rightarrow> BootstrapFile list \<Rightarrow> (unit, ('s, 't) world) op" where
  "Sync ord stores files = forEach (syncFile ord stores) files"

text \<open>
  \<open>BootstrapMeta\<close> drops the second result of \<^verbatim>\<open>stores.Tenant\<close>: a missing tenant would be a call
  on a nil interface value.
\<close>

definition bootstrap_tenant :: "'s Shared \<Rightarrow> 't Tenant \<Rightarrow> string list \<Rightarrow> string \<Rightarrow> (unit, 's \<times> 't) op" where
  "bootstrap_tenant S T metaOps adminSub =
     andThen (onSnd (EnsureRole T AdminRole)) (\<lambda>_.
     andThen (forEach (\<lambda>op. SetRolePermission S T AdminRole op ScopeFull) metaOps) (\<lambda>_.
     AssignRole S T adminSub AdminRole))"

definition BootstrapMeta :: "orders \<Rightarrow> ('s, 't) Stores \<Rightarrow> string \<Rightarrow> (unit, ('s, 't) world) op" where
  "BootstrapMeta ord stores adminSub =
     (let metaOps = sort_Strings (map fst (range_map (ord [''meta'']) MetaOperations_table)) in
     andThen (forEach (\<lambda>op. at_shared (EnsureOperation (Stores_Shared stores) op)) metaOps) (\<lambda>_.
     andThen (at_shared (EnsureUser (Stores_Shared stores) adminSub)) (\<lambda>_.
     forEach (\<lambda>tenantID.
         case Stores_Tenant stores tenantID of
           None \<Rightarrow> throw GoPanic
         | Some tenant \<Rightarrow> at_tenant tenantID (bootstrap_tenant (Stores_Shared stores) tenant metaOps adminSub))
       (TenantIDs (ord [''tenants'']) stores))))"

end
