(* ===== verification/Overlay.thy ===== *)
theory Overlay
  imports Sync
begin

text \<open>
  The meaning of a bootstrap file: a partial store, overlaid on the current one. Overlaying is
  associative and idempotent, so running a list of files is one overlay, and running it again
  changes nothing. The loops of \<open>syncFile\<close> are shown to compute the overlay for every order of
  the maps, and to fail exactly when the file is not acceptable.
\<close>

section \<open>Overlays\<close>

text \<open>
  \<open>mg w d\<close> overlays the partial store \<open>d\<close> on \<open>w\<close>. \<open>merges mg ok d P Q m\<close>: from a state with \<open>P\<close>,
  the operation \<open>m\<close> succeeds exactly if \<open>ok\<close>, and then overlays \<open>d\<close> and establishes \<open>Q\<close>.
\<close>

definition merges :: "('w \<Rightarrow> 'w \<Rightarrow> 'w) \<Rightarrow> bool \<Rightarrow> 'w \<Rightarrow> ('w \<Rightarrow> bool) \<Rightarrow> ('w \<Rightarrow> bool)
    \<Rightarrow> ('e, unit, 'w) eff \<Rightarrow> bool" where
  "merges mg ok d P Q m \<longleftrightarrow> (\<forall>w. P w \<longrightarrow>
     (if ok then m w = (Inr (), mg w d) \<and> Q (mg w d) else isl (fst (m w))))"

lemma mergesI:
  assumes "\<And>w. P w \<Longrightarrow> ok \<Longrightarrow> m w = (Inr (), mg w d)"
    and "\<And>w. P w \<Longrightarrow> ok \<Longrightarrow> Q (mg w d)"
    and "\<And>w. P w \<Longrightarrow> \<not> ok \<Longrightarrow> isl (fst (m w))"
  shows "merges mg ok d P Q m"
  using assms by (simp add: merges_def)

lemma mergesD:
  assumes "merges mg ok d P Q m" and "P w"
  shows "ok \<Longrightarrow> m w = (Inr (), mg w d)" "ok \<Longrightarrow> Q (mg w d)" "\<not> ok \<Longrightarrow> isl (fst (m w))"
    "fst (m w) = Inr () \<longleftrightarrow> ok"
  using assms by (auto simp: merges_def isl_def split: if_splits)

lemma merges_weaken:
  "merges mg ok d P Q m \<Longrightarrow> (\<And>w. P' w \<Longrightarrow> P w) \<Longrightarrow> (\<And>w. Q w \<Longrightarrow> Q' w) \<Longrightarrow> merges mg ok d P' Q' m"
  by (simp add: merges_def)

lemma merges_post:
  "merges mg ok d P Q m \<Longrightarrow> (\<And>w. P' w \<Longrightarrow> P w) \<Longrightarrow> (\<And>w. P' w \<Longrightarrow> ok \<Longrightarrow> Q (mg w d) \<Longrightarrow> Q' (mg w d))
   \<Longrightarrow> merges mg ok d P' Q' m"
  by (simp add: merges_def)

text \<open>An interface for anything that can be overlaid.\<close>

locale overlay =
  fixes mg :: "'w \<Rightarrow> 'w \<Rightarrow> 'w" and none :: 'w
  assumes mg_assoc: "mg (mg w d) d' = mg w (mg d d')"
    and mg_none: "mg w none = w"
    and mg_idem: "mg d d = d"
begin

lemma merges_ret: "merges mg True none P P (ret ())"
  by (simp add: merges_def eff_simps mg_none)

lemma merges_andThen:
  assumes m: "merges mg ok d P Q m" and m': "merges mg ok' d' Q R m'"
  shows "merges mg (ok \<and> ok') (mg d d') P R (andThen m (\<lambda>_. m'))"
proof (rule mergesI)
  fix w assume w: "P w"
  show "andThen m (\<lambda>_. m') w = (Inr (), mg w (mg d d'))" "R (mg w (mg d d'))" if "ok \<and> ok'"
    using mergesD[OF m w] mergesD[OF m', of "mg w d"] that
    by (simp_all add: andThen_apply mg_assoc)
  show "isl (fst (andThen m (\<lambda>_. m') w))" if "\<not> (ok \<and> ok')"
  proof (cases ok)
    case True
    then show ?thesis using mergesD[OF m w] mergesD(3)[OF m', of "mg w d"] that
      by (simp add: andThen_apply)
  next
    case False
    then show ?thesis using mergesD(3)[OF m w]
      by (cases "m w"; cases "fst (m w)") (simp_all add: andThen_apply)
  qed
qed

lemma merges_forEach:
  assumes "\<And>zs x ys. xs = zs @ x # ys \<Longrightarrow> merges mg (ok x) (d x) (P (x # ys)) (P ys) (f x)"
    and "D [] = none" and "\<And>zs x ys. xs = zs @ x # ys \<Longrightarrow> D (x # ys) = mg (d x) (D ys)"
  shows "merges mg (\<forall>x \<in> set xs. ok x) (D xs) (P xs) (P []) (forEach f xs)"
  using assms(1,3)
proof (induction xs)
  case Nil
  show ?case using merges_ret[of "P []"] by (simp add: assms(2))
next
  case (Cons x xs)
  have "merges mg (\<forall>y \<in> set xs. ok y) (D xs) (P xs) (P []) (forEach f xs)"
  proof (rule Cons.IH)
    fix zs y ys assume "xs = zs @ y # ys"
    then have "x # xs = (x # zs) @ y # ys" by simp
    from Cons.prems[OF this]
    show "merges mg (ok y) (d y) (P (y # ys)) (P ys) (f y)" "D (y # ys) = mg (d y) (D ys)" by auto
  qed
  then show ?case
    using merges_andThen[OF Cons.prems(1)[of "[]" x xs]] Cons.prems(2)[of "[]" x xs] by fastforce
qed

text \<open>A loop over a list, and a loop over the entries of a map in any order.\<close>

lemma merges_list:
  assumes "\<And>x. x \<in> set xs \<Longrightarrow> merges mg (ok x) (d x) P P (f x)"
    and "D {} = none" and "\<And>x X. D (insert x X) = mg (d x) (D X)"
  shows "merges mg (\<forall>x \<in> set xs. ok x) (D (set xs)) P P (forEach f xs)"
  by (rule merges_forEach[where D = "\<lambda>ys. D (set ys)" and P = "\<lambda>_. P" and d = d])
    (use assms in simp_all)

lemma merges_range:
  fixes m :: "'v gomap"
  assumes step: "\<And>k v K. map_get m k = Some v \<Longrightarrow> k \<notin> K \<Longrightarrow>
      merges mg (ok k v) (d k v) (P (insert k K)) (P K) (f (k, v))"
    and D: "D Map.empty = none" "\<And>k v m'. m' k = None \<Longrightarrow> D (m'(k \<mapsto> v)) = mg (d k v) (D m')"
  shows "merges mg (\<forall>k v. map_get m k = Some v \<longrightarrow> ok k v) (D (map_get m)) (P {k. map_get m k \<noteq> None}) (P {})
    (forEach f (range_map it m))"
proof -
  let ?xs = "range_map it m"
  have dist: "k \<notin> fst ` set ys" "map_get m k = Some v" if "?xs = zs @ (k, v) # ys" for zs k v ys
  proof -
    have "distinct (map fst ?xs)" by simp
    then show "k \<notin> fst ` set ys" unfolding that by simp
    have "(k, v) \<in> set ?xs" unfolding that by simp
    then show "map_get m k = Some v" by simp
  qed
  have "merges mg (\<forall>x \<in> set ?xs. case x of (k, v) \<Rightarrow> ok k v) (D (map_of ?xs)) (P (fst ` set ?xs))
      (P (fst ` set ([] :: (string \<times> 'v) list))) (forEach f ?xs)"
  proof (rule merges_forEach[where D = "\<lambda>ys. D (map_of ys)" and P = "\<lambda>ys. P (fst ` set ys)"
        and d = "\<lambda>(k, v). d k v" and ok = "\<lambda>(k, v). ok k v" and xs = ?xs and f = f])
    fix zs x ys assume xs: "?xs = zs @ x # ys"
    obtain k v where x: "x = (k, v)" by force
    note kv = dist[OF xs[unfolded x]]
    show "merges mg (case x of (k, v) \<Rightarrow> ok k v) (case x of (k, v) \<Rightarrow> d k v) (P (fst ` set (x # ys)))
        (P (fst ` set ys)) (f x)"
      using step[OF kv(2,1)] x by simp
    show "D (map_of (x # ys)) = mg (case x of (k, v) \<Rightarrow> d k v) (D (map_of ys))"
      using D(2)[of "map_of ys" k v] kv(1) x by (simp add: map_of_eq_None_iff)
  qed (simp add: D(1))
  moreover have "map_of ?xs = map_get m" by (rule ext) simp
  moreover have "fst ` set ?xs = {k. map_get m k \<noteq> None}" by force
  ultimately show ?thesis by (simp add: Ball_def)
qed

text \<open>A list of overlays, each with its own condition on the state it meets.\<close>

lemma fold_overlay: "fold (\<lambda>d w. mg w d) ds w = mg w (fold (\<lambda>d w. mg w d) ds none)"
proof (induction ds arbitrary: w)
  case Nil
  then show ?case by (simp add: mg_none)
next
  case (Cons d ds)
  have "fold (\<lambda>d w. mg w d) ds (mg none d) = mg (mg none d) (fold (\<lambda>d w. mg w d) ds none)"
    by (rule Cons.IH)
  then show ?case using Cons.IH[of "mg w d"] by (simp add: mg_assoc) (metis mg_assoc mg_none)
qed

text \<open>Overlaying a list twice is overlaying it once.\<close>

lemma fold_overlay_twice:
  "fold (\<lambda>d w. mg w d) ds (fold (\<lambda>d w. mg w d) ds w) = fold (\<lambda>d w. mg w d) ds w"
proof -
  let ?D = "fold (\<lambda>d w. mg w d) ds none"
  have "fold (\<lambda>d w. mg w d) ds (fold (\<lambda>d w. mg w d) ds w) = mg (mg w ?D) ?D"
    using fold_overlay[of ds w] fold_overlay[of ds "fold (\<lambda>d w. mg w d) ds w"] by simp
  then show ?thesis using fold_overlay[of ds w] by (simp add: mg_assoc mg_idem)
qed

end

section \<open>Partial stores\<close>

definition merge_shared :: "sharedA \<Rightarrow> sharedA \<Rightarrow> sharedA" where
  "merge_shared s d = \<lparr>aUsers = aUsers s \<union> aUsers d, aResources = aResources s \<union> aResources d,
     aOps = aOps d ++ aOps s\<rparr>"

definition merge_tenant :: "tenantA \<Rightarrow> tenantA \<Rightarrow> tenantA" where
  "merge_tenant t d = \<lparr>aRoles = aRoles t \<union> aRoles d, aAssign = (\<lambda>u. aAssign t u \<union> aAssign d u),
     aRolePerm = (\<lambda>r. aRolePerm t r ++ aRolePerm d r), aRoleIDs = (\<lambda>r p. aRoleIDs t r p \<union> aRoleIDs d r p),
     aUserPerm = (\<lambda>u. aUserPerm t u ++ aUserPerm d u), aUserIDs = (\<lambda>u p. aUserIDs t u p \<union> aUserIDs d u p)\<rparr>"

definition no_shared :: sharedA where
  "no_shared = \<lparr>aUsers = {}, aResources = {}, aOps = Map.empty\<rparr>"

definition no_tenant :: tenantA where
  "no_tenant = \<lparr>aRoles = {}, aAssign = (\<lambda>_. {}), aRolePerm = (\<lambda>_. Map.empty),
     aRoleIDs = (\<lambda>_ _. {}), aUserPerm = (\<lambda>_. Map.empty), aUserIDs = (\<lambda>_ _. {})\<rparr>"

fun merge_pair :: "sharedA \<times> tenantA \<Rightarrow> sharedA \<times> tenantA \<Rightarrow> sharedA \<times> tenantA" where
  "merge_pair (s, t) (ds, dt) = (merge_shared s ds, merge_tenant t dt)"

fun merge_world :: "(sharedA, tenantA) world \<Rightarrow> (sharedA, tenantA) world \<Rightarrow> (sharedA, tenantA) world" where
  "merge_world (s, ts) (ds, dts) = (merge_shared s ds, (\<lambda>tid. merge_tenant (ts tid) (dts tid)))"

lemma map_add_self [simp]: "m ++ m = m"
  by (rule ext) (simp add: map_add_def split: option.splits)

lemma merge_shared_laws:
  "merge_shared (merge_shared w d) d' = merge_shared w (merge_shared d d')"
  "merge_shared w no_shared = w" "merge_shared no_shared w = w" "merge_shared d d = d"
  by (simp_all add: merge_shared_def no_shared_def Un_assoc)

lemma merge_tenant_laws:
  "merge_tenant (merge_tenant w d) d' = merge_tenant w (merge_tenant d d')"
  "merge_tenant w no_tenant = w" "merge_tenant no_tenant w = w" "merge_tenant d d = d"
  by (simp_all add: merge_tenant_def no_tenant_def Un_assoc)

interpretation pair: overlay merge_pair "(no_shared, no_tenant)"
proof
  show "merge_pair (merge_pair w d) d' = merge_pair w (merge_pair d d')" for w d d'
    by (cases w; cases d; cases d') (simp add: merge_shared_laws merge_tenant_laws)
  show "merge_pair w (no_shared, no_tenant) = w" for w
    by (cases w) (simp add: merge_shared_laws merge_tenant_laws)
  show "merge_pair d d = d" for d by (cases d) (simp add: merge_shared_laws merge_tenant_laws)
qed

interpretation whole: overlay merge_world "(no_shared, \<lambda>_. no_tenant)"
proof
  show "merge_world (merge_world w d) d' = merge_world w (merge_world d d')" for w d d'
    by (cases w; cases d; cases d') (simp add: merge_shared_laws merge_tenant_laws)
  show "merge_world w (no_shared, \<lambda>_. no_tenant) = w" for w
    by (cases w) (simp add: merge_shared_laws merge_tenant_laws)
  show "merge_world d d = d" for d by (cases d) (simp add: merge_shared_laws merge_tenant_laws)
qed

section \<open>What the parts of a file denote\<close>

type_synonym specs = "string \<Rightarrow> PermissionSpec option"

definition scopes_of :: "specs \<Rightarrow> string \<Rightarrow> Scope option" where
  "scopes_of m p = map_option ps_Scope (m p)"

definition ids_in :: "specs \<Rightarrow> string \<Rightarrow> string set" where
  "ids_in m p = (case m p of None \<Rightarrow> {} | Some spec \<Rightarrow> set (ps_IDs spec))"

definition spec_ok :: "string \<times> PermissionSpec \<Rightarrow> bool" where
  "spec_ok = (\<lambda>(p, spec). Valid (ps_Scope spec) \<and> OperationResource p \<noteq> '''')"

definition ops_part :: "string set \<Rightarrow> sharedA" where
  "ops_part P = no_shared\<lparr>aResources := OperationResource ` P,
     aOps := (\<lambda>p. if p \<in> P then Some (OperationResource p) else None)\<rparr>"

definition users_part :: "string set \<Rightarrow> sharedA" where
  "users_part U = no_shared\<lparr>aUsers := U\<rparr>"

definition role_perms_part :: "string \<Rightarrow> specs \<Rightarrow> sharedA \<times> tenantA" where
  "role_perms_part r m = (ops_part (dom m),
     no_tenant\<lparr>aRolePerm := (\<lambda>_. Map.empty)(r := scopes_of m), aRoleIDs := (\<lambda>_ _. {})(r := ids_in m)\<rparr>)"

definition user_perms_part :: "string \<Rightarrow> specs \<Rightarrow> sharedA \<times> tenantA" where
  "user_perms_part u m = (ops_part (dom m),
     no_tenant\<lparr>aUserPerm := (\<lambda>_. Map.empty)(u := scopes_of m), aUserIDs := (\<lambda>_ _. {})(u := ids_in m)\<rparr>)"

lemma ops_part_empty [simp]: "ops_part {} = no_shared"
  by (simp add: ops_part_def no_shared_def)

lemma ops_part_merge: "merge_shared (ops_part P) (ops_part P') = ops_part (P \<union> P')"
  by (auto simp: merge_shared_def ops_part_def no_shared_def map_add_def fun_eq_iff)

lemma users_part_merge: "merge_shared (users_part U) (users_part U') = users_part (U \<union> U')"
  by (auto simp: merge_shared_def users_part_def no_shared_def)

lemma dom_if [simp]: "dom (\<lambda>p. if p \<in> P then Some (f p) else None) = P"
  by (auto split: if_splits)

lemma shared_ok_ops_part:
  "shared_ok s \<Longrightarrow> finite P \<Longrightarrow> \<forall>p \<in> P. OperationResource p \<noteq> '''' \<Longrightarrow> shared_ok (merge_shared s (ops_part P))"
  by (auto simp: shared_ok_def finite_shared_def merge_shared_def ops_part_def no_shared_def map_add_Some_iff
      split: if_splits)

lemma EnsureOperation_merge:
  assumes "shared_ok s"
  shows "EnsureOperation spec_shared p s =
    (if OperationResource p = '''' then (Inl ErrValidation, s) else (Inr (), merge_shared s (ops_part {p})))"
proof (cases "aOps s p")
  case None
  then show ?thesis
    by (auto simp: admin_defs spec_defs eff_simps merge_shared_def ops_part_def no_shared_def map_add_def
        fun_eq_iff Let_def split: option.splits)
next
  case (Some r)
  have "r = OperationResource p" "r \<in> aResources s" using shared_okD(5)[OF assms Some] by auto
  moreover have "(\<lambda>q. if q = p then Some (OperationResource q) else None) ++ aOps s = aOps s"
    using Some by (auto simp: map_add_def fun_eq_iff split: option.splits)
  ultimately show ?thesis using Some
    by (simp add: admin_defs spec_defs eff_simps merge_shared_def ops_part_def no_shared_def Let_def
        insert_absorb)
qed

lemma EnsureUser_merge:
  "EnsureUser spec_shared sub s =
    (if sub = '''' then (Inl ErrValidation, s) else (Inr (), merge_shared s (users_part {sub})))"
  by (simp add: admin_defs spec_defs eff_simps merge_shared_def users_part_def no_shared_def)

lemma shared_ok_users_part:
  "shared_ok s \<Longrightarrow> finite U \<Longrightarrow> '''' \<notin> U \<Longrightarrow> shared_ok (merge_shared s (users_part U))"
  by (auto simp: shared_ok_def finite_shared_def merge_shared_def users_part_def no_shared_def)

lemma registered_ops_part [simp]: "aOps (merge_shared s (ops_part P)) p = None \<longleftrightarrow> aOps s p = None \<and> p \<notin> P"
  by (simp add: merge_shared_def ops_part_def)

lemma registered_ops_part' [simp]:
  "(\<exists>r. aOps (merge_shared s (ops_part P)) p = Some r) \<longleftrightarrow> (\<exists>r. aOps s p = Some r) \<or> p \<in> P"
  using registered_ops_part[of s P p] by (metis not_None_eq)

lemma roles_merge [simp]: "aRoles (merge_tenant t d) = aRoles t \<union> aRoles d"
  by (simp add: merge_tenant_def)

subsection \<open>One permission\<close>

definition role_ready :: "string \<Rightarrow> sharedA \<times> tenantA \<Rightarrow> bool" where
  "role_ready r = (\<lambda>(s, t). shared_ok s \<and> r \<in> aRoles t)"

lemma sync_role_permission_merges:
  "merges merge_pair (spec_ok (p, spec)) (role_perms_part r [p \<mapsto> spec]) (role_ready r) (role_ready r)
     (sync_role_permission spec_shared spec_tenant r (p, spec))"
proof (rule mergesI)
  fix w assume w: "role_ready r w"
  obtain s t where st: "w = (s, t)" by (cases w)
  have s: "shared_ok s" "r \<in> aRoles t" using w st by (auto simp: role_ready_def)
  show "role_ready r (merge_pair w (role_perms_part r [p \<mapsto> spec]))" if "spec_ok (p, spec)"
    using s that st by (auto simp: role_ready_def role_perms_part_def spec_ok_def intro!: shared_ok_ops_part)
  show "isl (fst (sync_role_permission spec_shared spec_tenant r (p, spec) w))" if "\<not> spec_ok (p, spec)"
    using s that st
    by (auto simp: sync_role_permission_def spec_ok_def PermissionSpec_validate_def eff_simps EnsureOperation_merge)
  have perm: "merge_tenant t (snd (role_perms_part r [p \<mapsto> spec]))
     = t\<lparr>aRolePerm := (aRolePerm t)(r := (aRolePerm t r)(p \<mapsto> ps_Scope spec)),
         aRoleIDs := (aRoleIDs t)(r := (aRoleIDs t r)(p := aRoleIDs t r p \<union> set (ps_IDs spec)))\<rparr>"
    by (cases t) (auto simp: merge_tenant_def role_perms_part_def no_tenant_def scopes_of_def ids_in_def
        fun_eq_iff map_add_def)
  show "sync_role_permission spec_shared spec_tenant r (p, spec) w
      = (Inr (), merge_pair w (role_perms_part r [p \<mapsto> spec]))" if "spec_ok (p, spec)"
    using s that perm st
    by (cases t) (auto simp: sync_role_permission_def spec_ok_def PermissionSpec_validate_def eff_simps
        EnsureOperation_merge SetRolePermission_spec UpdateRoleRestrictedIDs_spec role_perms_part_def fun_eq_iff)
qed

lemma role_perms_part_cons:
  "m p = None \<Longrightarrow> role_perms_part r (m(p \<mapsto> spec)) = merge_pair (role_perms_part r [p \<mapsto> spec]) (role_perms_part r m)"
  by (auto simp: role_perms_part_def ops_part_merge merge_tenant_def no_tenant_def fun_eq_iff scopes_of_def
      ids_in_def map_add_def split: option.splits)

lemma role_perms_part_empty: "role_perms_part r Map.empty = (no_shared, no_tenant)"
  by (simp add: role_perms_part_def no_tenant_def fun_eq_iff scopes_of_def ids_in_def)

lemma sync_role_permissions_merges:
  "merges merge_pair (\<forall>p spec. map_get perms p = Some spec \<longrightarrow> spec_ok (p, spec))
     (role_perms_part r (map_get perms)) (role_ready r) (role_ready r)
     (forEach (sync_role_permission spec_shared spec_tenant r) (range_map it perms))"
  by (rule pair.merges_range[where P = "\<lambda>_. role_ready r" and d = "\<lambda>p spec. role_perms_part r [p \<mapsto> spec]"])
    (rule role_perms_part_empty role_perms_part_cons sync_role_permission_merges; assumption?)+

subsection \<open>One role and all roles\<close>

definition role_ok :: "string \<Rightarrow> PermissionSpec gomap \<Rightarrow> bool" where
  "role_ok r perms \<longleftrightarrow> r \<noteq> '''' \<and> (\<forall>p spec. map_get perms p = Some spec \<longrightarrow> spec_ok (p, spec))"

text \<open>The entry of a map of maps: the zero value, a nil map, when there is none.\<close>

definition sub_map :: "(string \<Rightarrow> 'v gomap option) \<Rightarrow> string \<Rightarrow> string \<Rightarrow> 'v option" where
  "sub_map rs r = (case rs r of None \<Rightarrow> Map.empty | Some m \<Rightarrow> map_get m)"

definition roles_part :: "(string \<Rightarrow> PermissionSpec gomap option) \<Rightarrow> sharedA \<times> tenantA" where
  "roles_part rs = (ops_part (\<Union>r. dom (sub_map rs r)),
     no_tenant\<lparr>aRoles := dom rs, aRolePerm := (\<lambda>r. scopes_of (sub_map rs r)),
       aRoleIDs := (\<lambda>r. ids_in (sub_map rs r))\<rparr>)"

definition role_part :: "string \<Rightarrow> PermissionSpec gomap \<Rightarrow> sharedA \<times> tenantA" where
  "role_part r perms = merge_pair (no_shared, no_tenant\<lparr>aRoles := {r}\<rparr>) (role_perms_part r (map_get perms))"

text \<open>Between the roles: the shared store is in order and the tenant's roles are known.\<close>

definition shared_ready :: "sharedA \<times> tenantA \<Rightarrow> bool" where
  "shared_ready = (\<lambda>(s, t). shared_ok s)"

lemma sync_role_merges:
  "merges merge_pair (role_ok r perms) (role_part r perms) shared_ready shared_ready
     (sync_role it spec_shared spec_tenant r perms)"
proof -
  have "merges merge_pair (r \<noteq> '''') (no_shared, no_tenant\<lparr>aRoles := {r}\<rparr>) shared_ready (role_ready r)
      (onSnd (EnsureRole spec_tenant r))"
  proof (rule mergesI)
    fix w assume w: "shared_ready w"
    obtain s t where st: "w = (s, t)" by (cases w)
    show "onSnd (EnsureRole spec_tenant r) w = (Inr (), merge_pair w (no_shared, no_tenant\<lparr>aRoles := {r}\<rparr>))"
      if "r \<noteq> ''''" using st that
      by (cases t) (simp add: admin_defs spec_defs eff_simps merge_shared_laws merge_tenant_def no_tenant_def)
    show "role_ready r (merge_pair w (no_shared, no_tenant\<lparr>aRoles := {r}\<rparr>))"
      using w st by (simp add: role_ready_def shared_ready_def merge_shared_laws)
    show "isl (fst (onSnd (EnsureRole spec_tenant r) w))" if "\<not> r \<noteq> ''''"
      using that by (simp add: admin_defs eff_simps)
  qed
  from pair.merges_andThen[OF this sync_role_permissions_merges]
  have "merges merge_pair (role_ok r perms) (role_part r perms) shared_ready (role_ready r)
      (sync_role it spec_shared spec_tenant r perms)"
    unfolding sync_role_def role_part_def role_ok_def .
  then show ?thesis by (rule merges_weaken) (auto simp: role_ready_def shared_ready_def)
qed

lemma sub_map_upd: "sub_map (rs(r \<mapsto> m)) = (sub_map rs)(r := map_get m)"
  by (simp add: sub_map_def fun_eq_iff)

lemma sub_map_None: "rs x = None \<Longrightarrow> sub_map rs x = (\<lambda>_. None)"
  by (simp add: sub_map_def)

lemma UN_dom_upd:
  assumes "f r = (\<lambda>_. None)"
  shows "(\<Union>x. dom ((f(r := m)) x)) = dom m \<union> (\<Union>x. dom (f x))"
proof (intro equalityI subsetI)
  fix p assume "p \<in> dom m \<union> (\<Union>x. dom (f x))"
  then consider "p \<in> dom m" | x where "p \<in> dom (f x)" by blast
  then show "p \<in> (\<Union>x. dom ((f(r := m)) x))"
  proof cases
    case 1
    then show ?thesis by (intro UN_I[of r]) simp_all
  next
    case 2
    then have "x \<noteq> r" using assms by auto
    then show ?thesis using 2 by (intro UN_I[of x]) simp_all
  qed
qed (auto split: if_splits)

lemma roles_part_cons:
  assumes "rs r = None"
  shows "roles_part (rs(r \<mapsto> perms)) = merge_pair (role_part r perms) (roles_part rs)"
proof -
  have "(\<Union>x. dom (((sub_map rs)(r := map_get perms)) x)) = dom (map_get perms) \<union> (\<Union>x. dom (sub_map rs x))"
    using sub_map_None[of rs r, OF assms] by (rule UN_dom_upd)
  moreover have "scopes_of (sub_map rs r) = Map.empty" "ids_in (sub_map rs r) = (\<lambda>_. {})"
    by (simp_all add: sub_map_None[of rs r, OF assms] scopes_of_def ids_in_def fun_eq_iff)
  ultimately show ?thesis
    by (simp add: roles_part_def role_part_def role_perms_part_def sub_map_upd ops_part_merge merge_shared_laws)
      (auto simp: merge_tenant_def no_tenant_def fun_eq_iff map_add_def split: option.splits)
qed

lemma roles_part_empty: "roles_part Map.empty = (no_shared, no_tenant)"
  by (simp add: roles_part_def sub_map_def scopes_of_def ids_in_def no_tenant_def fun_eq_iff)

subsection \<open>One user and all users\<close>

text \<open>
  Between the users the roles of the tenant are \<open>R\<close>; inside the loops of one user, that user is
  provisioned, so the further calls of \<open>EnsureUser\<close> change nothing.
\<close>

definition users_ready :: "string set \<Rightarrow> sharedA \<times> tenantA \<Rightarrow> bool" where
  "users_ready R = (\<lambda>(s, t). shared_ok s \<and> aRoles t = R)"

definition user_ready :: "string set \<Rightarrow> string \<Rightarrow> sharedA \<times> tenantA \<Rightarrow> bool" where
  "user_ready R sub = (\<lambda>(s, t). shared_ok s \<and> aRoles t = R \<and> sub \<in> aUsers s)"

definition user_ok :: "string set \<Rightarrow> string \<Rightarrow> UserBootstrap \<Rightarrow> bool" where
  "user_ok R sub ub \<longleftrightarrow> sub \<noteq> '''' \<and> (\<forall>r \<in> set (ub_Roles ub). r \<in> R)
     \<and> (\<forall>p spec. map_get (ub_Permissions ub) p = Some spec \<longrightarrow> spec_ok (p, spec))"

definition assign_part :: "string \<Rightarrow> string set \<Rightarrow> sharedA \<times> tenantA" where
  "assign_part sub R = (no_shared, no_tenant\<lparr>aAssign := (\<lambda>_. {})(sub := R)\<rparr>)"

lemma provisioned_already: "sub \<in> aUsers s \<Longrightarrow> s\<lparr>aUsers := insert sub (aUsers s)\<rparr> = s"
  by (cases s) (simp add: insert_absorb)

lemma user_ready_nonempty: "user_ready R sub w \<Longrightarrow> sub \<noteq> ''''"
  by (auto simp: user_ready_def shared_ok_def)

lemma sync_user_permission_merges:
  "merges merge_pair (spec_ok (p, spec)) (user_perms_part sub [p \<mapsto> spec])
     (user_ready R sub) (user_ready R sub) (sync_user_permission spec_shared spec_tenant sub (p, spec))"
proof (rule mergesI)
  fix w assume w: "user_ready R sub w"
  obtain s t where st: "w = (s, t)" by (cases w)
  have s: "shared_ok s" "aRoles t = R" "sub \<in> aUsers s" using w st by (auto simp: user_ready_def)
  have ne: "sub \<noteq> ''''" using user_ready_nonempty[OF w] .
  show "user_ready R sub (merge_pair w (user_perms_part sub [p \<mapsto> spec]))" if "spec_ok (p, spec)"
    using s that st
    by (auto simp: user_ready_def user_perms_part_def spec_ok_def no_tenant_def intro!: shared_ok_ops_part)
      (simp add: merge_shared_def)
  show "isl (fst (sync_user_permission spec_shared spec_tenant sub (p, spec) w))" if "\<not> spec_ok (p, spec)"
    using s that st
    by (auto simp: sync_user_permission_def spec_ok_def PermissionSpec_validate_def eff_simps EnsureOperation_merge)
  have perm: "merge_tenant t (snd (user_perms_part sub [p \<mapsto> spec]))
     = t\<lparr>aUserPerm := (aUserPerm t)(sub := (aUserPerm t sub)(p \<mapsto> ps_Scope spec)),
         aUserIDs := (aUserIDs t)(sub := (aUserIDs t sub)(p := aUserIDs t sub p \<union> set (ps_IDs spec)))\<rparr>"
    by (cases t) (auto simp: merge_tenant_def user_perms_part_def no_tenant_def scopes_of_def ids_in_def
        fun_eq_iff map_add_def)
  have sub: "sub \<in> aUsers (merge_shared s (ops_part {p}))" using s by (simp add: merge_shared_def)
  show "sync_user_permission spec_shared spec_tenant sub (p, spec) w
      = (Inr (), merge_pair w (user_perms_part sub [p \<mapsto> spec]))"
    if "spec_ok (p, spec)"
    using s that perm st ne provisioned_already[OF sub]
    by (cases t) (auto simp: sync_user_permission_def spec_ok_def PermissionSpec_validate_def eff_simps
        EnsureOperation_merge SetUserPermission_spec UpdateUserRestrictedIDs_spec user_perms_part_def fun_eq_iff)
qed

lemma user_perms_part_cons:
  "m p = None \<Longrightarrow> user_perms_part u (m(p \<mapsto> spec)) = merge_pair (user_perms_part u [p \<mapsto> spec]) (user_perms_part u m)"
  by (auto simp: user_perms_part_def ops_part_merge merge_tenant_def no_tenant_def fun_eq_iff scopes_of_def
      ids_in_def map_add_def split: option.splits)

lemma user_perms_part_empty: "user_perms_part u Map.empty = (no_shared, no_tenant)"
  by (simp add: user_perms_part_def no_tenant_def fun_eq_iff scopes_of_def ids_in_def)

lemma sync_user_permissions_merges:
  "merges merge_pair (\<forall>p spec. map_get perms p = Some spec \<longrightarrow> spec_ok (p, spec))
     (user_perms_part sub (map_get perms)) (user_ready R sub) (user_ready R sub)
     (forEach (sync_user_permission spec_shared spec_tenant sub) (range_map it perms))"
  by (rule pair.merges_range[where P = "\<lambda>_. user_ready R sub" and d = "\<lambda>p spec. user_perms_part sub [p \<mapsto> spec]"])
    (rule user_perms_part_empty user_perms_part_cons sync_user_permission_merges; assumption?)+

lemma assign_merges:
  "merges merge_pair (r \<in> R) (assign_part sub {r}) (user_ready R sub) (user_ready R sub)
     (AssignRole spec_shared spec_tenant sub r)"
proof (rule mergesI)
  fix w assume w: "user_ready R sub w"
  obtain s t where st: "w = (s, t)" by (cases w)
  have s: "aRoles t = R" "sub \<in> aUsers s" using w st by (auto simp: user_ready_def)
  show "AssignRole spec_shared spec_tenant sub r w = (Inr (), merge_pair w (assign_part sub {r}))" if "r \<in> R"
    using s that st user_ready_nonempty[OF w] provisioned_already[OF s(2)]
    by (cases t) (auto simp: AssignRole_spec assign_part_def merge_shared_laws merge_tenant_def no_tenant_def fun_eq_iff)
  show "user_ready R sub (merge_pair w (assign_part sub {r}))"
    using w st by (simp add: user_ready_def assign_part_def merge_shared_laws no_tenant_def)
  show "isl (fst (AssignRole spec_shared spec_tenant sub r w))" if "r \<notin> R"
    using s that st user_ready_nonempty[OF w] by (simp add: AssignRole_spec)
qed

lemma assigns_merge:
  "merges merge_pair (\<forall>r \<in> set rs. r \<in> R) (assign_part sub (set rs)) (user_ready R sub) (user_ready R sub)
     (forEach (\<lambda>r. AssignRole spec_shared spec_tenant sub r) rs)"
  by (rule pair.merges_list[where d = "\<lambda>r. assign_part sub {r}"])
    (rule assign_merges, auto simp: assign_part_def merge_shared_laws merge_tenant_def no_tenant_def fun_eq_iff)

definition user_part :: "string \<Rightarrow> UserBootstrap \<Rightarrow> sharedA \<times> tenantA" where
  "user_part sub ub = merge_pair (users_part {sub}, no_tenant)
     (merge_pair (assign_part sub (set (ub_Roles ub))) (user_perms_part sub (map_get (ub_Permissions ub))))"

lemma sync_user_merges:
  "merges merge_pair (user_ok R sub ub) (user_part sub ub) (users_ready R) (users_ready R)
     (sync_user it spec_shared spec_tenant sub ub)"
proof -
  have "merges merge_pair (sub \<noteq> '''') (users_part {sub}, no_tenant) (users_ready R) (user_ready R sub)
      (onFst (EnsureUser spec_shared sub))"
  proof (rule mergesI)
    fix w assume w: "users_ready R w"
    obtain s t where st: "w = (s, t)" by (cases w)
    show "onFst (EnsureUser spec_shared sub) w = (Inr (), merge_pair w (users_part {sub}, no_tenant))"
      if "sub \<noteq> ''''" using st that by (simp add: eff_simps EnsureUser_merge merge_tenant_laws)
    show "user_ready R sub (merge_pair w (users_part {sub}, no_tenant))" if "sub \<noteq> ''''"
      using w st that
      by (simp add: user_ready_def users_ready_def merge_tenant_laws shared_ok_users_part)
        (simp add: merge_shared_def users_part_def)
    show "isl (fst (onFst (EnsureUser spec_shared sub) w))" if "\<not> sub \<noteq> ''''"
      using that by (simp add: admin_defs eff_simps)
  qed
  from pair.merges_andThen[OF this pair.merges_andThen[OF assigns_merge sync_user_permissions_merges]]
  have "merges merge_pair (user_ok R sub ub) (user_part sub ub) (users_ready R) (user_ready R sub)
      (sync_user it spec_shared spec_tenant sub ub)"
    unfolding sync_user_def user_part_def user_ok_def by simp
  then show ?thesis by (rule merges_weaken) (auto simp: user_ready_def users_ready_def)
qed

definition user_specs :: "(string \<Rightarrow> UserBootstrap option) \<Rightarrow> string \<Rightarrow> specs" where
  "user_specs us u = (case us u of None \<Rightarrow> (\<lambda>_. None) | Some ub \<Rightarrow> map_get (ub_Permissions ub))"

definition users_all :: "(string \<Rightarrow> UserBootstrap option) \<Rightarrow> sharedA \<times> tenantA" where
  "users_all us = (merge_shared (users_part (dom us)) (ops_part (\<Union>u. dom (user_specs us u))),
     no_tenant\<lparr>aAssign := (\<lambda>u. case us u of None \<Rightarrow> {} | Some ub \<Rightarrow> set (ub_Roles ub)),
       aUserPerm := (\<lambda>u. scopes_of (user_specs us u)), aUserIDs := (\<lambda>u. ids_in (user_specs us u))\<rparr>)"

lemma user_specs_upd: "user_specs (us(u \<mapsto> ub)) = (user_specs us)(u := map_get (ub_Permissions ub))"
  by (simp add: user_specs_def fun_eq_iff)

lemma users_part_empty [simp]: "users_part {} = no_shared"
  by (simp add: users_part_def no_shared_def)

lemma registrations_merge:
  "merge_shared (merge_shared (users_part U) (ops_part P)) (merge_shared (users_part U') (ops_part P'))
   = merge_shared (users_part (U \<union> U')) (ops_part (P \<union> P'))"
  by (auto simp: merge_shared_def users_part_def ops_part_def no_shared_def map_add_def fun_eq_iff)

lemma users_all_cons:
  assumes "us u = None"
  shows "users_all (us(u \<mapsto> ub)) = merge_pair (user_part u ub) (users_all us)"
proof -
  have none: "user_specs us u = (\<lambda>_. None)" using assms by (simp add: user_specs_def)
  then have ops: "(\<Union>x. dom (((user_specs us)(u := map_get (ub_Permissions ub))) x))
      = dom (map_get (ub_Permissions ub)) \<union> (\<Union>x. dom (user_specs us x))"
    by (rule UN_dom_upd)
  have empty: "scopes_of (user_specs us u) = Map.empty" "ids_in (user_specs us u) = (\<lambda>_. {})"
    by (simp_all add: none scopes_of_def ids_in_def fun_eq_iff)
  have "fst (users_all (us(u \<mapsto> ub))) = fst (merge_pair (user_part u ub) (users_all us))"
    using registrations_merge[of "{u}" "dom (map_get (ub_Permissions ub))"] ops
    by (simp add: users_all_def user_part_def user_perms_part_def assign_part_def user_specs_upd merge_shared_laws)
  moreover have "snd (users_all (us(u \<mapsto> ub))) = snd (merge_pair (user_part u ub) (users_all us))"
    using empty assms
    by (auto simp: users_all_def user_part_def user_perms_part_def assign_part_def user_specs_upd
        merge_tenant_def no_tenant_def fun_eq_iff map_add_def split: option.splits)
  ultimately show ?thesis by (simp add: prod_eq_iff)
qed

lemma users_all_empty: "users_all Map.empty = (no_shared, no_tenant)"
  by (simp add: users_all_def user_specs_def scopes_of_def ids_in_def no_tenant_def fun_eq_iff merge_shared_laws)

subsection \<open>One tenant\<close>

definition tenant_part :: "TenantBootstrap \<Rightarrow> sharedA \<times> tenantA" where
  "tenant_part tb = merge_pair (roles_part (map_get (tb_Roles tb))) (users_all (map_get (tb_Users tb)))"

definition tenant_acceptable :: "string set \<Rightarrow> TenantBootstrap \<Rightarrow> bool" where
  "tenant_acceptable R tb \<longleftrightarrow> (\<forall>r perms. map_get (tb_Roles tb) r = Some perms \<longrightarrow> role_ok r perms)
     \<and> (\<forall>sub ub. map_get (tb_Users tb) sub = Some ub \<longrightarrow> user_ok (R \<union> dom (map_get (tb_Roles tb))) sub ub)"

lemma sync_tenant_merges:
  "merges merge_pair (tenant_acceptable R tb) (tenant_part tb) (users_ready R) shared_ready
     (sync_tenant ord spec_shared spec_tenant tb)"
proof -
  let ?R = "R \<union> dom (map_get (tb_Roles tb))"
  have "merges merge_pair (\<forall>r perms. map_get (tb_Roles tb) r = Some perms \<longrightarrow> role_ok r perms)
      (roles_part (map_get (tb_Roles tb))) shared_ready shared_ready
      (forEach (\<lambda>(r, perms). sync_role (ord [''roles'', r]) spec_shared spec_tenant r perms)
        (range_map (ord [''roles'']) (tb_Roles tb)))"
    by (rule pair.merges_range[where P = "\<lambda>_. shared_ready" and d = role_part])
      (use sync_role_merges roles_part_empty roles_part_cons in \<open>simp_all del: fun_upd_apply\<close>)
  then have roles: "merges merge_pair (\<forall>r perms. map_get (tb_Roles tb) r = Some perms \<longrightarrow> role_ok r perms)
      (roles_part (map_get (tb_Roles tb))) (users_ready R) (users_ready ?R)
      (forEach (\<lambda>(r, perms). sync_role (ord [''roles'', r]) spec_shared spec_tenant r perms)
        (range_map (ord [''roles'']) (tb_Roles tb)))"
    by (rule merges_post) (auto simp: users_ready_def shared_ready_def roles_part_def)
  have users: "merges merge_pair (\<forall>sub ub. map_get (tb_Users tb) sub = Some ub \<longrightarrow> user_ok ?R sub ub)
      (users_all (map_get (tb_Users tb))) (users_ready ?R) (users_ready ?R)
      (forEach (\<lambda>(sub, ub). sync_user (ord [''users'', sub]) spec_shared spec_tenant sub ub)
        (range_map (ord [''users'']) (tb_Users tb)))"
    by (rule pair.merges_range[where P = "\<lambda>_. users_ready ?R" and d = user_part])
      (use sync_user_merges users_all_empty users_all_cons in \<open>simp_all del: fun_upd_apply\<close>)
  from pair.merges_andThen[OF roles users]
  have "merges merge_pair (tenant_acceptable R tb) (tenant_part tb) (users_ready R) (users_ready ?R)
      (sync_tenant ord spec_shared spec_tenant tb)"
    unfolding sync_tenant_def tenant_part_def tenant_acceptable_def .
  then show ?thesis by (rule merges_weaken) (auto simp: users_ready_def shared_ready_def)
qed

section \<open>A whole file\<close>

definition world_ready :: "(string \<Rightarrow> string set) \<Rightarrow> string set \<Rightarrow> (sharedA, tenantA) world \<Rightarrow> bool" where
  "world_ready R K = (\<lambda>(s, ts). shared_ok s \<and> (\<forall>tid \<in> K. aRoles (ts tid) = R tid))"

definition at_part :: "string \<Rightarrow> sharedA \<times> tenantA \<Rightarrow> (sharedA, tenantA) world" where
  "at_part tid d = (fst d, (\<lambda>_. no_tenant)(tid := snd d))"

lemma merge_world_at_part:
  "merge_world (s, ts) (at_part tid d)
   = (merge_shared s (fst d), ts(tid := merge_tenant (ts tid) (snd d)))"
  by (simp add: at_part_def merge_tenant_laws fun_eq_iff)

lemma merges_at_tenant:
  assumes m: "merges merge_pair ok d P Q m"
    and pre: "\<And>s ts. PW (s, ts) \<Longrightarrow> P (s, ts tid)"
    and post: "\<And>s ts s' t'. PW (s, ts) \<Longrightarrow> Q (s', t') \<Longrightarrow> QW (s', ts(tid := t'))"
  shows "merges merge_world ok (at_part tid d) PW QW (at_tenant tid m)"
proof (rule mergesI)
  fix w assume w: "PW w"
  obtain s ts where st: "w = (s, ts)" by (cases w)
  note run = mergesD[OF m pre[OF w[unfolded st]]]
  obtain ds dt where d: "d = (ds, dt)" by (cases d)
  show "at_tenant tid m w = (Inr (), merge_world w (at_part tid d))" if ok
    using run(1)[OF that] by (simp add: at_tenant_def st merge_world_at_part d del: merge_world.simps)
  show "QW (merge_world w (at_part tid d))" if ok
    using post[OF w[unfolded st]] run(2)[OF that]
    by (simp add: st merge_world_at_part d del: merge_world.simps)
  show "isl (fst (at_tenant tid m w))" if "\<not> ok"
    using run(3)[OF that] by (cases "m (s, ts tid)") (simp add: at_tenant_def st)
qed

lemma merge_world_parts:
  "fst (merge_world w d) = merge_shared (fst w) (fst d)"
  "snd (merge_world w d) tid = merge_tenant (snd w tid) (snd d tid)"
  by (cases w; cases d; simp)+

definition file_tenants :: "(string \<Rightarrow> TenantBootstrap option) \<Rightarrow> (sharedA, tenantA) world" where
  "file_tenants tm =
     (merge_shared (users_part {u. \<exists>tid tb. tm tid = Some tb \<and> u \<in> dom (map_get (tb_Users tb))})
        (ops_part {p. \<exists>tid tb. tm tid = Some tb
          \<and> ((\<exists>r. p \<in> dom (sub_map (map_get (tb_Roles tb)) r))
             \<or> (\<exists>u. p \<in> dom (user_specs (map_get (tb_Users tb)) u)))}),
      (\<lambda>tid. case tm tid of None \<Rightarrow> no_tenant | Some tb \<Rightarrow> snd (tenant_part tb)))"

lemma tenant_part_shared:
  "fst (tenant_part tb) = merge_shared (users_part (dom (map_get (tb_Users tb))))
     (ops_part {p. (\<exists>r. p \<in> dom (sub_map (map_get (tb_Roles tb)) r))
        \<or> (\<exists>u. p \<in> dom (user_specs (map_get (tb_Users tb)) u))})"
proof -
  let ?P = "\<Union>r. dom (sub_map (map_get (tb_Roles tb)) r)"
  let ?Q = "\<Union>u. dom (user_specs (map_get (tb_Users tb)) u)"
  have "fst (tenant_part tb) = merge_shared (merge_shared (users_part {}) (ops_part ?P))
      (merge_shared (users_part (dom (map_get (tb_Users tb)))) (ops_part ?Q))"
    by (simp add: tenant_part_def roles_part_def users_all_def merge_shared_laws)
  moreover have "?P \<union> ?Q = {p. (\<exists>r. p \<in> dom (sub_map (map_get (tb_Roles tb)) r))
        \<or> (\<exists>u. p \<in> dom (user_specs (map_get (tb_Users tb)) u))}"
    by blast
  ultimately show ?thesis by (simp only: registrations_merge Un_empty_left)
qed

lemma ex_upd:
  assumes "tm k = None"
  shows "(\<exists>x y. (tm(k \<mapsto> v)) x = Some y \<and> Q y) \<longleftrightarrow> Q v \<or> (\<exists>x y. tm x = Some y \<and> Q y)"
  using assms by (metis fun_upd_other fun_upd_same option.distinct(1) option.inject)

lemma file_tenants_cons:
  assumes "tm tid = None"
  shows "file_tenants (tm(tid \<mapsto> tb)) = merge_world (at_part tid (tenant_part tb)) (file_tenants tm)"
proof -
  have shared: "fst (file_tenants (tm(tid \<mapsto> tb))) = merge_shared (fst (tenant_part tb)) (fst (file_tenants tm))"
    unfolding tenant_part_shared file_tenants_def fst_conv registrations_merge ex_upd[of tm tid, OF assms]
    by (intro arg_cong2[where f = merge_shared] arg_cong[where f = users_part] arg_cong[where f = ops_part]) auto
  have "snd (file_tenants (tm(tid \<mapsto> tb))) x = merge_tenant (((\<lambda>_. no_tenant)(tid := snd (tenant_part tb))) x)
      (snd (file_tenants tm) x)" for x
    using assms by (simp add: file_tenants_def merge_tenant_laws)
  then show ?thesis using shared
    by (simp add: at_part_def prod_eq_iff fun_eq_iff merge_world_parts)
qed

lemma file_tenants_empty: "file_tenants Map.empty = (no_shared, \<lambda>_. no_tenant)"
  by (simp add: file_tenants_def merge_shared_laws)

text \<open>The partial store a file denotes, and when it is acceptable.\<close>

definition denotes :: "BootstrapFile \<Rightarrow> (sharedA, tenantA) world" where
  "denotes f = merge_world (no_shared\<lparr>aResources := set (bf_Resources f)\<rparr>, \<lambda>_. no_tenant)
     (merge_world (ops_part (set (bf_Operations f)), \<lambda>_. no_tenant) (file_tenants (map_get (bf_Tenants f))))"

definition acceptable :: "string set \<Rightarrow> (string \<Rightarrow> string set) \<Rightarrow> BootstrapFile \<Rightarrow> bool" where
  "acceptable tids R f \<longleftrightarrow> (\<forall>p \<in> set (bf_Operations f). OperationResource p \<noteq> '''')
     \<and> (\<forall>tid tb. map_get (bf_Tenants f) tid = Some tb \<longrightarrow> tid \<in> tids \<and> tenant_acceptable (R tid) tb)"

text \<open>A configuration whose tenants \<open>tids\<close> all run the same driver; the specification stores.\<close>

definition serves :: "'s Shared \<Rightarrow> 't Tenant \<Rightarrow> string set \<Rightarrow> ('s, 't) Stores \<Rightarrow> bool" where
  "serves S T tids stores \<longleftrightarrow> Stores_Shared stores = S
     \<and> (\<forall>tid. Stores_Tenant stores tid = (if tid \<in> tids then Some T else None))"

lemma servesD:
  assumes "serves S T tids stores"
  shows "Stores_Shared stores = S" "Stores_Tenant stores tid = (if tid \<in> tids then Some T else None)"
  using assms by (simp_all add: serves_def)

abbreviation spec_stores :: "string set \<Rightarrow> (sharedA, tenantA) Stores \<Rightarrow> bool" where
  "spec_stores \<equiv> serves spec_shared spec_tenant"

lemma shared_ok_more_resources:
  "shared_ok s \<Longrightarrow> finite X \<Longrightarrow> shared_ok (merge_shared s (no_shared\<lparr>aResources := X\<rparr>))"
  unfolding shared_ok_def finite_shared_def by (simp add: merge_shared_def no_shared_def)

lemma resources_merge:
  "merges merge_world True (no_shared\<lparr>aResources := set rs\<rparr>, \<lambda>_. no_tenant) (world_ready R K) (world_ready R K)
     (forEach (\<lambda>name. at_shared (spec_EnsureResource name)) rs)"
proof -
  have "merges merge_world (\<forall>x \<in> set rs. True) ((\<lambda>X. (no_shared\<lparr>aResources := X\<rparr>, \<lambda>_. no_tenant)) (set rs))
      (world_ready R K) (world_ready R K) (forEach (\<lambda>name. at_shared (spec_EnsureResource name)) rs)"
  proof (rule whole.merges_list[where d = "\<lambda>x. (no_shared\<lparr>aResources := {x}\<rparr>, \<lambda>_. no_tenant)"])
    show "merges merge_world True (no_shared\<lparr>aResources := {x}\<rparr>, \<lambda>_. no_tenant) (world_ready R K) (world_ready R K)
        (at_shared (spec_EnsureResource x))" for x
    proof (rule mergesI)
      fix w assume w: "world_ready R K w"
      obtain s ts where st: "w = (s, ts)" by (cases w)
      show "at_shared (spec_EnsureResource x) w = (Inr (), merge_world w (no_shared\<lparr>aResources := {x}\<rparr>, \<lambda>_. no_tenant))"
        by (simp add: st at_shared_def spec_defs eff_simps merge_tenant_laws) (simp add: merge_shared_def no_shared_def)
      show "world_ready R K (merge_world w (no_shared\<lparr>aResources := {x}\<rparr>, \<lambda>_. no_tenant))"
        using w by (simp add: st world_ready_def merge_tenant_laws shared_ok_more_resources)
    qed simp
  qed (auto simp: merge_shared_def no_shared_def merge_tenant_laws)
  then show ?thesis by simp
qed

lemma operations_merge:
  "merges merge_world (\<forall>p \<in> set ps. OperationResource p \<noteq> '''') (ops_part (set ps), \<lambda>_. no_tenant)
     (world_ready R K) (world_ready R K) (forEach (\<lambda>p. at_shared (EnsureOperation spec_shared p)) ps)"
proof (rule whole.merges_list[where d = "\<lambda>p. (ops_part {p}, \<lambda>_. no_tenant)" and D = "\<lambda>P. (ops_part P, \<lambda>_. no_tenant)"])
  show "merges merge_world (OperationResource p \<noteq> '''') (ops_part {p}, \<lambda>_. no_tenant) (world_ready R K)
      (world_ready R K) (at_shared (EnsureOperation spec_shared p))" for p
    by (rule mergesI) (auto simp: at_shared_def eff_simps world_ready_def EnsureOperation_merge
        merge_tenant_laws intro!: shared_ok_ops_part)
qed (simp_all add: ops_part_merge merge_tenant_laws)

text \<open>
  The main result on one file: \<open>syncFile\<close> succeeds exactly on acceptable files, and then overlays
  what the file denotes, in whatever order the maps are visited.
\<close>

theorem syncFile_merges:
  assumes "spec_stores tids stores"
  shows "merges merge_world (acceptable tids R f) (denotes f) (world_ready R UNIV) (world_ready R {})
     (syncFile ord stores f)"
proof -
  let ?body = "\<lambda>(tid, tb). case Stores_Tenant stores tid of None \<Rightarrow> throw ErrValidation
     | Some T \<Rightarrow> at_tenant tid (sync_tenant (\<lambda>path. ord (tid # path)) (Stores_Shared stores) T tb)"
  let ?tm = "map_get (bf_Tenants f)"
  have "merges merge_world (\<forall>tid tb. ?tm tid = Some tb \<longrightarrow> tid \<in> tids \<and> tenant_acceptable (R tid) tb)
      (file_tenants ?tm) (world_ready R {tid. ?tm tid \<noteq> None}) (world_ready R {})
      (forEach ?body (range_map (ord []) (bf_Tenants f)))"
  proof (rule whole.merges_range[where P = "world_ready R" and d = "\<lambda>tid tb. at_part tid (tenant_part tb)"])
    fix tid :: string and tb K assume "tid \<notin> K"
    have "merges merge_world (tenant_acceptable (R tid) tb) (at_part tid (tenant_part tb))
        (world_ready R (insert tid K)) (world_ready R K)
        (at_tenant tid (sync_tenant (\<lambda>path. ord (tid # path)) spec_shared spec_tenant tb))"
      by (rule merges_at_tenant[OF sync_tenant_merges])
        (use \<open>tid \<notin> K\<close> in \<open>auto simp: world_ready_def users_ready_def shared_ready_def\<close>)
    then show "merges merge_world (tid \<in> tids \<and> tenant_acceptable (R tid) tb) (at_part tid (tenant_part tb))
        (world_ready R (insert tid K)) (world_ready R K) (?body (tid, tb))"
      using assms by (auto simp: serves_def merges_def eff_simps)
  qed (fact file_tenants_empty, rule file_tenants_cons)
  then have tenants: "merges merge_world
      (\<forall>tid tb. ?tm tid = Some tb \<longrightarrow> tid \<in> tids \<and> tenant_acceptable (R tid) tb)
      (file_tenants ?tm) (world_ready R UNIV) (world_ready R {})
      (forEach ?body (range_map (ord []) (bf_Tenants f)))"
    by (rule merges_weaken) (auto simp: world_ready_def)
  from whole.merges_andThen[OF resources_merge whole.merges_andThen[OF operations_merge tenants]]
  show ?thesis using assms unfolding syncFile_def denotes_def acceptable_def serves_def by simp
qed

section \<open>A list of files\<close>

text \<open>Each file meets the roles that the files before it declared.\<close>

fun acceptable_all :: "string set \<Rightarrow> (string \<Rightarrow> string set) \<Rightarrow> BootstrapFile list \<Rightarrow> bool" where
  "acceptable_all tids R [] = True"
| "acceptable_all tids R (f # fs) =
     (acceptable tids R f \<and> acceptable_all tids (\<lambda>tid. R tid \<union> aRoles (snd (denotes f) tid)) fs)"

definition overlay_files :: "BootstrapFile list \<Rightarrow> (sharedA, tenantA) world \<Rightarrow> (sharedA, tenantA) world" where
  "overlay_files fs = fold (\<lambda>d w. merge_world w d) (map denotes fs)"

lemma overlay_files_simps [simp]:
  "overlay_files [] w = w" "overlay_files (f # fs) w = overlay_files fs (merge_world w (denotes f))"
  by (simp_all add: overlay_files_def)

lemma Sync_spec:
  assumes "spec_stores tids stores" and "shared_ok (fst w)"
  shows "if acceptable_all tids (\<lambda>tid. aRoles (snd w tid)) fs
    then Sync ord stores fs w = (Inr (), overlay_files fs w) \<and> shared_ok (fst (overlay_files fs w))
    else isl (fst (Sync ord stores fs w))"
  using assms(2)
proof (induction fs arbitrary: w)
  case Nil
  then show ?case by (simp add: Sync_def eff_simps)
next
  case (Cons f fs)
  have ready: "world_ready (\<lambda>tid. aRoles (snd w tid)) UNIV w"
    using Cons.prems by (cases w) (simp add: world_ready_def)
  note run = mergesD[OF syncFile_merges[OF assms(1), where f = f and ord = ord] ready]
  show ?case
  proof (cases "acceptable tids (\<lambda>tid. aRoles (snd w tid)) f")
    case True
    have "shared_ok (fst (merge_world w (denotes f)))"
      using run(2)[OF True] by (auto simp: world_ready_def split: prod.splits)
    from Cons.IH[OF this] show ?thesis using run(1)[OF True] True
      by (simp add: Sync_def andThen_apply merge_world_parts split: if_splits)
  next
    case False
    have "isl (fst (Sync ord stores (f # fs) w))" using run(3)[OF False]
      by (cases "syncFile ord stores f w"; cases "fst (syncFile ord stores f w)")
        (simp_all add: Sync_def andThen_apply)
    then show ?thesis using False by simp
  qed
qed

lemma acceptable_mono:
  "acceptable tids R f \<Longrightarrow> (\<And>tid. R tid \<subseteq> R' tid) \<Longrightarrow> acceptable tids R' f"
  unfolding acceptable_def tenant_acceptable_def user_ok_def by blast

lemma acceptable_all_mono:
  "acceptable_all tids R fs \<Longrightarrow> (\<And>tid. R tid \<subseteq> R' tid) \<Longrightarrow> acceptable_all tids R' fs"
proof (induction fs arbitrary: R R')
  case Nil
  show ?case by simp
next
  case (Cons f fs)
  have "acceptable tids R' f" by (rule acceptable_mono[of tids R]) (use Cons.prems in simp_all)
  moreover have "acceptable_all tids (\<lambda>tid. R' tid \<union> aRoles (snd (denotes f) tid)) fs"
  proof (rule Cons.IH)
    show "acceptable_all tids (\<lambda>tid. R tid \<union> aRoles (snd (denotes f) tid)) fs" using Cons.prems(1) by simp
    show "R tid \<union> aRoles (snd (denotes f) tid) \<subseteq> R' tid \<union> aRoles (snd (denotes f) tid)" for tid
      by (rule Un_mono[OF Cons.prems(2) subset_refl])
  qed
  ultimately show ?case by simp
qed

lemma overlay_files_twice: "overlay_files fs (overlay_files fs w) = overlay_files fs w"
  unfolding overlay_files_def by (rule whole.fold_overlay_twice)

lemma overlay_files_grows:
  "aRoles (snd w tid) \<subseteq> aRoles (snd (overlay_files fs w) tid)"
proof (induction fs arbitrary: w)
  case (Cons f fs)
  have "aRoles (snd w tid) \<subseteq> aRoles (snd (merge_world w (denotes f)) tid)"
    by (simp add: merge_world_parts)
  also have "\<dots> \<subseteq> aRoles (snd (overlay_files (f # fs) w) tid)" using Cons.IH by simp
  finally show ?case .
qed simp

text \<open>Nothing is lost: sets only grow, and a grant stays a grant.\<close>

definition below :: "(sharedA, tenantA) world \<Rightarrow> (sharedA, tenantA) world \<Rightarrow> bool" where
  "below w w' \<longleftrightarrow> aUsers (fst w) \<subseteq> aUsers (fst w') \<and> aResources (fst w) \<subseteq> aResources (fst w')
     \<and> aOps (fst w) \<subseteq>\<^sub>m aOps (fst w')
     \<and> (\<forall>tid. aRoles (snd w tid) \<subseteq> aRoles (snd w' tid)
        \<and> (\<forall>u. aAssign (snd w tid) u \<subseteq> aAssign (snd w' tid) u)
        \<and> (\<forall>r. dom (aRolePerm (snd w tid) r) \<subseteq> dom (aRolePerm (snd w' tid) r))
        \<and> (\<forall>r p. aRoleIDs (snd w tid) r p \<subseteq> aRoleIDs (snd w' tid) r p)
        \<and> (\<forall>u. dom (aUserPerm (snd w tid) u) \<subseteq> dom (aUserPerm (snd w' tid) u))
        \<and> (\<forall>u p. aUserIDs (snd w tid) u p \<subseteq> aUserIDs (snd w' tid) u p))"

lemma below_refl: "below w w"
  by (simp add: below_def)

lemma below_trans: "below w w' \<Longrightarrow> below w' w'' \<Longrightarrow> below w w''"
  unfolding below_def by (meson map_le_trans subset_trans)

lemma below_merge: "below w (merge_world w d)"
  by (cases w; cases d) (auto simp: below_def merge_shared_def merge_tenant_def map_le_def)

lemma overlay_files_below: "below w (overlay_files fs w)"
proof (induction fs arbitrary: w)
  case Nil
  show ?case by (simp add: below_refl)
next
  case (Cons f fs)
  show ?case using below_trans[OF below_merge Cons.IH] by simp
qed

lemma Sync_spec_twice:
  assumes "spec_stores tids stores" and "shared_ok (fst w)" and "Sync ord stores fs w = (Inr (), w')"
  shows "Sync ord' stores fs w' = (Inr (), w')"
proof -
  have ok: "acceptable_all tids (\<lambda>tid. aRoles (snd w tid)) fs"
    using Sync_spec[OF assms(1,2), of fs ord] assms(3) by (auto split: if_splits)
  then have w': "w' = overlay_files fs w" "shared_ok (fst w')"
    using Sync_spec[OF assms(1,2), of fs ord] assms(3) by auto
  have "acceptable_all tids (\<lambda>tid. aRoles (snd w' tid)) fs"
    by (rule acceptable_all_mono[OF ok]) (simp add: w'(1) overlay_files_grows)
  then show ?thesis using Sync_spec[OF assms(1) w'(2), of fs ord'] by (simp add: w'(1) overlay_files_twice)
qed

section \<open>The meta model\<close>

definition meta_permissions :: "string \<Rightarrow> Scope option" where
  "meta_permissions p = (if IsMetaOperation p then Some ScopeFull else None)"

definition meta_tenant :: "string \<Rightarrow> tenantA" where
  "meta_tenant adminSub = no_tenant\<lparr>aRoles := {AdminRole}, aAssign := (\<lambda>_. {})(adminSub := {AdminRole}),
     aRolePerm := (\<lambda>_. Map.empty)(AdminRole := meta_permissions)\<rparr>"

definition meta_world :: "string set \<Rightarrow> string \<Rightarrow> (sharedA, tenantA) world" where
  "meta_world tids adminSub = (merge_shared (ops_part {p. IsMetaOperation p}) (users_part {adminSub}),
     (\<lambda>tid. if tid \<in> tids then meta_tenant adminSub else no_tenant))"

definition meta_ready :: "string \<Rightarrow> sharedA \<times> tenantA \<Rightarrow> bool" where
  "meta_ready adminSub = (\<lambda>(s, t). shared_ok s \<and> (\<forall>p. IsMetaOperation p \<longrightarrow> aOps s p \<noteq> None)
     \<and> adminSub \<in> aUsers s)"

definition meta_role_ready :: "string \<Rightarrow> sharedA \<times> tenantA \<Rightarrow> bool" where
  "meta_role_ready adminSub = (\<lambda>(s, t). meta_ready adminSub (s, t) \<and> AdminRole \<in> aRoles t)"

definition admin_perms :: "string set \<Rightarrow> tenantA" where
  "admin_perms P = no_tenant\<lparr>aRolePerm := (\<lambda>_. Map.empty)
     (AdminRole := (\<lambda>p. if p \<in> P then Some ScopeFull else None))\<rparr>"

lemma set_metaOps [simp]:
  "set (sort_Strings (map fst (range_map it MetaOperations_table))) = {p. IsMetaOperation p}"
  by (auto simp: sort_Strings_def map_fst_range_map IsMetaOperation_def)

lemma bootstrap_tenant_merges:
  assumes ops: "set ps = {p. IsMetaOperation p}"
  shows "merges merge_pair True (no_shared, meta_tenant adminSub) (meta_ready adminSub) (meta_ready adminSub)
     (bootstrap_tenant spec_shared spec_tenant ps adminSub)"
proof -
  let ?P = "meta_role_ready adminSub"
  have role: "merges merge_pair True (no_shared, no_tenant\<lparr>aRoles := {AdminRole}\<rparr>) (meta_ready adminSub) ?P
      (onSnd (EnsureRole spec_tenant AdminRole))"
    by (rule mergesI)
      (auto simp: admin_defs spec_defs eff_simps merge_shared_laws merge_tenant_def no_tenant_def
        meta_role_ready_def meta_ready_def AdminRole_def)
  have perms: "merges merge_pair (\<forall>p \<in> set ps. True) (no_shared, admin_perms (set ps)) ?P ?P
      (forEach (\<lambda>p. SetRolePermission spec_shared spec_tenant AdminRole p ScopeFull) ps)"
  proof (rule pair.merges_list[where D = "\<lambda>P. (no_shared, admin_perms P)" and d = "\<lambda>p. (no_shared, admin_perms {p})"])
    show "merges merge_pair True (no_shared, admin_perms {p}) ?P ?P
        (SetRolePermission spec_shared spec_tenant AdminRole p ScopeFull)" if "p \<in> set ps" for p
      by (rule mergesI)
        (use that ops in \<open>auto simp: SetRolePermission_spec meta_role_ready_def meta_ready_def merge_shared_laws
          merge_tenant_def admin_perms_def no_tenant_def fun_eq_iff map_add_def\<close>)
  qed (auto simp: admin_perms_def merge_shared_laws merge_tenant_def no_tenant_def fun_eq_iff map_add_def)
  have assign: "merges merge_pair True (no_shared, no_tenant\<lparr>aAssign := (\<lambda>_. {})(adminSub := {AdminRole})\<rparr>)
      ?P (meta_ready adminSub) (AssignRole spec_shared spec_tenant adminSub AdminRole)"
    by (rule mergesI)
      (auto simp: AssignRole_spec meta_role_ready_def meta_ready_def merge_shared_laws merge_tenant_def
        no_tenant_def fun_eq_iff provisioned_already dest: shared_okD(4))
  have "meta_tenant adminSub = merge_tenant (no_tenant\<lparr>aRoles := {AdminRole}\<rparr>) (merge_tenant (admin_perms (set ps))
      (no_tenant\<lparr>aAssign := (\<lambda>_. {})(adminSub := {AdminRole})\<rparr>))"
    by (auto simp: meta_tenant_def merge_tenant_def admin_perms_def no_tenant_def fun_eq_iff ops meta_permissions_def)
  with pair.merges_andThen[OF role pair.merges_andThen[OF perms assign]] show ?thesis
    by (simp add: bootstrap_tenant_def merge_shared_laws)
qed

lemma set_TenantIDs: "set (TenantIDs it stores) = {tid. Stores_Tenant stores tid \<noteq> None}"
  by (auto simp: TenantIDs_def sort_Strings_def map_fst_range_map Stores_Tenant_def)

text \<open>\<open>BootstrapMeta\<close> fails only for an empty administrator, and otherwise overlays the meta model.\<close>

theorem BootstrapMeta_merges:
  assumes stores: "spec_stores tids stores"
  shows "merges merge_world (adminSub \<noteq> '''') (meta_world tids adminSub) (\<lambda>w. shared_ok (fst w))
     (\<lambda>w. shared_ok (fst w)) (BootstrapMeta ord stores adminSub)"
proof -
  let ?ps = "sort_Strings (map fst (range_map (ord [''meta'']) MetaOperations_table))"
  let ?registered = "\<lambda>w. shared_ok (fst w) \<and> (\<forall>p. IsMetaOperation p \<longrightarrow> aOps (fst w) p \<noteq> None)"
  let ?ready = "\<lambda>w. ?registered w \<and> adminSub \<in> aUsers (fst w)"
  have "merges merge_world (\<forall>p \<in> set ?ps. OperationResource p \<noteq> '''') (ops_part (set ?ps), \<lambda>_. no_tenant)
      (world_ready (\<lambda>_. {}) {}) (world_ready (\<lambda>_. {}) {})
      (forEach (\<lambda>p. at_shared (EnsureOperation spec_shared p)) ?ps)"
    by (rule operations_merge)
  then have ops: "merges merge_world True (ops_part {p. IsMetaOperation p}, \<lambda>_. no_tenant)
      (\<lambda>w. shared_ok (fst w)) ?registered (forEach (\<lambda>p. at_shared (EnsureOperation spec_shared p)) ?ps)"
    by (simp add: merges_def world_ready_def MetaOperations_have_resource)
  have user: "merges merge_world (adminSub \<noteq> '''') (users_part {adminSub}, \<lambda>_. no_tenant) ?registered ?ready
      (at_shared (EnsureUser spec_shared adminSub))"
  proof (rule mergesI)
    fix w :: "(sharedA, tenantA) world" assume w: "?registered w"
    obtain s ts where st: "w = (s, ts)" by (cases w)
    show "at_shared (EnsureUser spec_shared adminSub) w = (Inr (), merge_world w (users_part {adminSub}, \<lambda>_. no_tenant))"
      if "adminSub \<noteq> ''''" using that by (simp add: st at_shared_def eff_simps EnsureUser_merge merge_tenant_laws)
    show "?ready (merge_world w (users_part {adminSub}, \<lambda>_. no_tenant))" if "adminSub \<noteq> ''''"
      using w that by (simp add: st shared_ok_users_part) (auto simp: merge_shared_def users_part_def no_shared_def map_add_def)
    show "isl (fst (at_shared (EnsureUser spec_shared adminSub) w))" if "\<not> adminSub \<noteq> ''''"
      using that by (simp add: admin_defs at_shared_def eff_simps)
  qed
  let ?body = "\<lambda>tid. case Stores_Tenant stores tid of None \<Rightarrow> throw GoPanic
     | Some T \<Rightarrow> at_tenant tid (bootstrap_tenant spec_shared T ?ps adminSub)"
  let ?D = "\<lambda>K. (no_shared, \<lambda>tid. if tid \<in> K then meta_tenant adminSub else no_tenant)"
  have "merges merge_world (\<forall>tid \<in> set (TenantIDs (ord [''tenants'']) stores). True)
      (?D (set (TenantIDs (ord [''tenants'']) stores))) ?ready ?ready
      (forEach ?body (TenantIDs (ord [''tenants'']) stores))"
  proof (rule whole.merges_list[where D = ?D and d = "\<lambda>tid. at_part tid (no_shared, meta_tenant adminSub)"])
    fix tid assume "tid \<in> set (TenantIDs (ord [''tenants'']) stores)"
    then have "?body tid = at_tenant tid (bootstrap_tenant spec_shared spec_tenant ?ps adminSub)"
      using stores by (auto simp: set_TenantIDs serves_def split: if_splits)
    moreover have "merges merge_world True (at_part tid (no_shared, meta_tenant adminSub)) ?ready ?ready
        (at_tenant tid (bootstrap_tenant spec_shared spec_tenant ?ps adminSub))"
      by (rule merges_at_tenant[OF bootstrap_tenant_merges]) (auto simp: meta_ready_def)
    ultimately show "merges merge_world True (at_part tid (no_shared, meta_tenant adminSub)) ?ready ?ready (?body tid)"
      by (simp only:)
  qed (auto simp: at_part_def merge_shared_laws merge_tenant_laws fun_eq_iff)
  moreover have "set (TenantIDs (ord [''tenants'']) stores) = tids"
    using stores by (auto simp: set_TenantIDs serves_def split: if_splits)
  ultimately have tenants: "merges merge_world True (?D tids) ?ready ?ready
      (forEach ?body (TenantIDs (ord [''tenants'']) stores))"
    by simp
  have "merges merge_world (True \<and> adminSub \<noteq> '''' \<and> True)
      (merge_world (ops_part {p. IsMetaOperation p}, \<lambda>_. no_tenant)
        (merge_world (users_part {adminSub}, \<lambda>_. no_tenant) (?D tids)))
      (\<lambda>w. shared_ok (fst w)) ?ready (BootstrapMeta ord stores adminSub)"
    using whole.merges_andThen[OF ops whole.merges_andThen[OF user tenants]] stores
    unfolding BootstrapMeta_def Let_def serves_def by (simp only:)
  then show ?thesis
    by (simp add: meta_world_def merge_shared_laws merge_tenant_laws) (auto simp: merges_def)
qed

section \<open>The invariant of the whole system\<close>

definition world_consistent :: "(sharedA, tenantA) world \<Rightarrow> bool" where
  "world_consistent w \<longleftrightarrow> (\<forall>tid. consistent (fst w, snd w tid))"

definition world_step :: "('b, (sharedA, tenantA) world) op \<Rightarrow> bool" where
  "world_step m \<longleftrightarrow> (\<forall>w. world_consistent w \<longrightarrow> world_consistent (snd (m w)))"

lemma world_stepD: "world_step m \<Longrightarrow> world_consistent w \<Longrightarrow> world_consistent (snd (m w))"
  by (simp add: world_step_def del: split_paired_All)

lemma world_stepI:
  "(\<And>w. world_consistent w \<Longrightarrow> world_consistent (snd (m w))) \<Longrightarrow> world_step m"
  by (simp add: world_step_def del: split_paired_All)

lemma world_at_shared:
  assumes "shared_step m"
  shows "world_step (at_shared m)"
proof (rule world_stepI)
  fix w assume w: "world_consistent w"
  then have "shared_ok (fst w)" by (simp add: world_consistent_def consistent_def)
  then have "shared_ok (snd (m (fst w)))" "aUsers (fst w) \<subseteq> aUsers (snd (m (fst w)))"
    using assms by (simp_all add: shared_step_def)
  then show "world_consistent (snd (at_shared m w))"
    using w by (auto simp: world_consistent_def consistent_def at_shared_def onFst_apply intro: provisioned_mono)
qed

lemma world_at_tenant:
  assumes "consistent_step m"
  shows "world_step (at_tenant tid m)"
proof (rule world_stepI)
  fix w assume w: "world_consistent w"
  obtain s ts where st: "w = (s, ts)" by (cases w)
  obtain r s1 t1 where m: "m (s, ts tid) = (r, s1, t1)" by (cases "m (s, ts tid)")
  have pre: "consistent (s, ts tid)" using w st by (simp add: world_consistent_def)
  from consistent_stepD[OF assms this] have post: "consistent (s1, t1)" "aUsers s \<subseteq> aUsers s1"
    by (simp_all add: m)
  have "consistent (s1, ts x)" for x
    using post w st by (auto simp: world_consistent_def consistent_def intro: provisioned_mono)
  then show "world_consistent (snd (at_tenant tid m w))"
    using post(1) by (simp add: world_consistent_def at_tenant_def st m)
qed

lemma world_andThen:
  assumes m: "world_step m" and f: "\<And>x. world_step (f x)"
  shows "world_step (andThen m f)"
proof (rule world_stepI)
  fix w assume w: "world_consistent w"
  obtain r w1 where run: "m w = (r, w1)" by (cases "m w")
  have w1: "world_consistent w1" using world_stepD[OF m w] run by simp
  show "world_consistent (snd (andThen m f w))"
    using w1 world_stepD[OF f w1] run by (cases r) (simp_all add: andThen_apply)
qed

lemma world_simple: "world_step (ret x)" "world_step (throw e)"
  by (simp_all add: world_step_def eff_simps)

lemma world_forEach: "(\<And>x. x \<in> set xs \<Longrightarrow> world_step (f x)) \<Longrightarrow> world_step (forEach f xs)"
  by (induction xs) (simp_all add: world_simple world_andThen)

lemma consistent_liftR: "consistent_step (liftR r)"
  by (simp add: consistent_step_def eff_simps)

lemma sync_tenant_step: "consistent_step (sync_tenant ord spec_shared spec_tenant tb)"
  by (auto simp: sync_tenant_def sync_role_def sync_role_permission_def sync_user_def sync_user_permission_def
      intro!: consistent_rules consistent_liftR split: prod.splits)

lemma bootstrap_tenant_step: "consistent_step (bootstrap_tenant spec_shared spec_tenant ps sub)"
  by (auto simp: bootstrap_tenant_def intro!: consistent_rules)

lemma syncFile_step:
  assumes "spec_stores tids stores"
  shows "world_step (syncFile ord stores f)"
  by (auto simp: syncFile_def servesD[OF assms] world_simple split: prod.splits
      intro!: world_andThen world_forEach world_at_shared world_at_tenant shared_steps sync_tenant_step)

lemma Sync_step:
  assumes "spec_stores tids stores"
  shows "world_step (Sync ord stores fs)"
  unfolding Sync_def by (rule world_forEach) (rule syncFile_step[OF assms])

lemma BootstrapMeta_step:
  assumes "spec_stores tids stores"
  shows "world_step (BootstrapMeta ord stores sub)"
  by (auto simp: BootstrapMeta_def servesD[OF assms] world_simple Let_def
      intro!: world_andThen world_forEach world_at_shared world_at_tenant shared_steps bootstrap_tenant_step)

section \<open>Failing halfway\<close>

text \<open>
  A run that fails halfway leaves what the steps before the failure did, and each of them only adds. \<open>grows le m\<close>: whatever
  \<open>m\<close> returns, it leads up in the order \<open>le\<close>.
\<close>

definition grows :: "('w \<Rightarrow> 'w \<Rightarrow> bool) \<Rightarrow> ('b, 'w) op \<Rightarrow> bool" where
  "grows le m \<longleftrightarrow> (\<forall>w. le w (snd (m w)))"

lemma growsD: "grows le m \<Longrightarrow> le w (snd (m w))"
  by (simp add: grows_def del: split_paired_All)

lemma growsI: "(\<And>w. le w (snd (m w))) \<Longrightarrow> grows le m"
  by (simp add: grows_def del: split_paired_All)

lemma grows_andThen:
  assumes trans: "\<And>a b c. le a b \<Longrightarrow> le b c \<Longrightarrow> le a c" and m: "grows le m" and f: "\<And>x. grows le (f x)"
  shows "grows le (andThen m f)"
proof (rule growsI)
  fix w
  obtain r w1 where run: "m w = (r, w1)" by (cases "m w")
  have "le w w1" using growsD[OF m, of w] by (simp add: run)
  then show "le w (snd (andThen m f w))"
    using trans growsD[OF f] by (cases r) (simp_all add: andThen_apply run)
qed

lemma grows_simple: "(\<And>a. le a a) \<Longrightarrow> grows le (ret x)" "(\<And>a. le a a) \<Longrightarrow> grows le (throw e)"
  by (rule growsI; simp add: ret_def throw_def)+

lemma grows_forEach:
  assumes "\<And>a. le a a" and "\<And>a b c. le a b \<Longrightarrow> le b c \<Longrightarrow> le a c" and "\<And>x. grows le (f x)"
  shows "grows le (forEach f xs)"
  by (induction xs) (use assms in \<open>simp_all add: grows_simple(1) grows_andThen\<close>)

definition below_both :: "sharedA \<times> tenantA \<Rightarrow> sharedA \<times> tenantA \<Rightarrow> bool" where
  "below_both st st' \<longleftrightarrow> below (fst st, \<lambda>_. snd st) (fst st', \<lambda>_. snd st')"

lemma below_both_refl: "below_both st st"
  by (simp add: below_both_def below_refl)

lemma below_both_trans: "below_both a b \<Longrightarrow> below_both b c \<Longrightarrow> below_both a c"
  unfolding below_both_def by (rule below_trans)

lemma grows_services:
  "grows below_both (liftR r)" "grows below_both (ret x)"
  "grows below_both (onFst (EnsureOperation spec_shared p))" "grows below_both (onFst (EnsureUser spec_shared sub))"
  "grows below_both (onSnd (EnsureRole spec_tenant name))"
  "grows below_both (AssignRole spec_shared spec_tenant sub name)"
  "grows below_both (SetRolePermission spec_shared spec_tenant name p sc)"
  "grows below_both (SetUserPermission spec_shared spec_tenant sub p sc)"
  "grows below_both (onSnd (UpdateRoleRestrictedIDs spec_tenant name p ids []))"
  "grows below_both (onSnd (UpdateUserRestrictedIDs spec_tenant sub p ids []))"
  by (rule growsI; auto simp: below_both_def below_def eff_simps EnsureOperation_def EnsureUser_def EnsureRole_def
      spec_EnsureOperation_def spec_EnsureUser_def spec_EnsureRole_def register_def map_le_def Let_def
      AssignRole_spec SetRolePermission_spec SetUserPermission_spec UpdateRoleRestrictedIDs_spec
      UpdateUserRestrictedIDs_spec split_paired_all)+

lemmas grows_both = grows_andThen[of below_both, OF below_both_trans]
  grows_forEach[of below_both, OF below_both_refl below_both_trans] grows_services

lemma sync_tenant_grows: "grows below_both (sync_tenant ord spec_shared spec_tenant tb)"
  by (auto simp: sync_tenant_def sync_role_def sync_role_permission_def sync_user_def sync_user_permission_def
      intro!: grows_both split: prod.splits)

lemma grows_at_shared: "(\<And>s. below_both (s, no_tenant) (snd (m s), no_tenant)) \<Longrightarrow> grows below (at_shared m)"
  by (rule growsI) (auto simp: below_both_def below_def at_shared_def onFst_apply)

lemma grows_at_tenant:
  assumes "grows below_both m"
  shows "grows below (at_tenant tid m)"
proof (rule growsI)
  fix w :: "(sharedA, tenantA) world"
  obtain s ts where w: "w = (s, ts)" by (cases w)
  obtain r s1 t1 where m: "m (s, ts tid) = (r, s1, t1)" by (cases "m (s, ts tid)")
  have "below_both (s, ts tid) (s1, t1)" using growsD[OF assms, of "(s, ts tid)"] by (simp add: m)
  then show "below w (snd (at_tenant tid m w))"
    by (auto simp: w m at_tenant_def below_both_def below_def)
qed

lemma Sync_grows:
  assumes "spec_stores tids stores"
  shows "grows below (Sync ord stores fs)"
proof -
  have shared: "grows below (at_shared (spec_EnsureResource name))" "grows below (at_shared (EnsureOperation spec_shared name))" for name
    by (rule grows_at_shared; auto simp: below_both_def below_def spec_defs eff_simps EnsureOperation_def map_le_def Let_def)+
  have "grows below (syncFile ord stores f)" for f
    by (auto simp: syncFile_def servesD[OF assms] shared split: prod.splits
        intro!: grows_andThen[of below, OF below_trans] grows_forEach[of below, OF below_refl below_trans]
          grows_at_tenant sync_tenant_grows grows_simple below_refl)
  then show ?thesis unfolding Sync_def by (intro grows_forEach[of below, OF below_refl below_trans])
qed

section \<open>Synchronisation on any conforming stores\<close>

definition all_inv :: "('s \<Rightarrow> bool) \<Rightarrow> ('t \<Rightarrow> bool) \<Rightarrow> ('s, 't) world \<Rightarrow> bool" where
  "all_inv ivS ivT = (\<lambda>(s, ts). ivS s \<and> (\<forall>tid. ivT (ts tid)))"

definition all_abs :: "('s \<Rightarrow> sharedA) \<Rightarrow> ('t \<Rightarrow> tenantA) \<Rightarrow> ('s, 't) world \<Rightarrow> (sharedA, tenantA) world" where
  "all_abs abS abT = (\<lambda>(s, ts). (abS s, \<lambda>tid. abT (ts tid)))"

lemma all_inv_simp [simp]: "all_inv ivS ivT (s, ts) \<longleftrightarrow> ivS s \<and> (\<forall>tid. ivT (ts tid))"
  by (simp add: all_inv_def)

lemma all_abs_simp [simp]: "all_abs abS abT (s, ts) = (abS s, \<lambda>tid. abT (ts tid))"
  by (simp add: all_abs_def)

lemma all_invD:
  assumes "all_inv ivS ivT w"
  shows "ivS (fst w)" "ivT (snd w tid)"
  using assms by (cases w; simp)+

lemma all_abs_parts [simp]:
  "fst (all_abs abS abT w) = abS (fst w)" "snd (all_abs abS abT w) tid = abT (snd w tid)"
  by (cases w; simp)+

lemma refines_at_shared [refine_rules]:
  assumes "refinesR ivS abS R m sp"
  shows "refinesR (all_inv ivS ivT) (all_abs abS abT) R (at_shared m) (at_shared sp)"
proof (rule refinesRI)
  fix w assume w: "all_inv ivS ivT w"
  obtain s ts where st: "w = (s, ts)" by (cases w)
  show "refines_at (all_inv ivS ivT) (all_abs abS abT) R (at_shared m) (at_shared sp) w"
    using refinesRD[OF assms, of s] w by (simp add: st at_shared_def refines_at_def onFst_apply)
qed

lemma refines_at_tenant [refine_rules]:
  assumes "refinesR (both ivS ivT) (map_prod abS abT) R m sp"
  shows "refinesR (all_inv ivS ivT) (all_abs abS abT) R (at_tenant tid m) (at_tenant tid sp)"
proof (rule refinesRI)
  fix w assume w: "all_inv ivS ivT w"
  obtain s ts where st: "w = (s, ts)" by (cases w)
  obtain r s1 t1 where m: "m (s, ts tid) = (r, s1, t1)" by (cases "m (s, ts tid)")
  obtain r' s2 t2 where sp: "sp (abS s, abT (ts tid)) = (r', s2, t2)" by (cases "sp (abS s, abT (ts tid))")
  show "refines_at (all_inv ivS ivT) (all_abs abS abT) R (at_tenant tid m) (at_tenant tid sp) w"
    using refinesRD[OF assms, of "(s, ts tid)"] w m sp
    by (auto simp: st at_tenant_def refines_at_def)
qed

lemma refines_liftR: "refines iv \<alpha> (liftR r) (liftR r)"
  by (rule refinesI) (simp_all add: eff_simps)

text \<open>The specification stores with the tenants of a configuration.\<close>

definition reference_stores :: "('s, 't) Stores \<Rightarrow> (sharedA, tenantA) Stores" where
  "reference_stores stores = \<lparr>Stores_Shared = spec_shared,
     Stores_tenants = map_option (fmmap (\<lambda>_. spec_tenant)) (Stores_tenants stores)\<rparr>"

lemma reference_Shared [simp]: "Stores_Shared (reference_stores stores) = spec_shared"
  by (simp add: reference_stores_def)

lemma reference_Tenant [simp]:
  "Stores_Tenant (reference_stores stores) tid = map_option (\<lambda>_. spec_tenant) (Stores_Tenant stores tid)"
  by (cases "Stores_tenants stores") (simp_all add: Stores_Tenant_def reference_stores_def)

lemma reference_serves: "serves S T tids stores \<Longrightarrow> spec_stores tids (reference_stores stores)"
  by (simp add: serves_def)

lemma map_keys_map [simp]: "map_keys (map_option (fmmap g) m) = map_keys m"
  by (cases m) (simp_all add: map_keys_def keys_def)

lemma reference_TenantIDs [simp]: "TenantIDs it (reference_stores stores) = TenantIDs it stores"
  by (simp add: TenantIDs_def reference_stores_def map_fst_range_map)

context administration
begin

abbreviation invW where "invW \<equiv> all_inv invS invT"

abbreviation absW where "absW \<equiv> all_abs absS absT"

abbreviation invP where "invP \<equiv> both invS invT"

abbreviation absP where "absP \<equiv> map_prod absS absT"

lemmas sync_refine_rules = refine_rules refines_liftR both_admin_refines shared_admin_refines tenant_admin_refines

lemma sync_role_refines:
  "refines invP absP (sync_role it S T r perms) (sync_role it spec_shared spec_tenant r perms)"
  by (auto simp: sync_role_def sync_role_permission_def intro!: sync_refine_rules split: prod.splits)

lemma sync_user_refines:
  "refines invP absP (sync_user it S T sub ub) (sync_user it spec_shared spec_tenant sub ub)"
  by (auto simp: sync_user_def sync_user_permission_def intro!: sync_refine_rules split: prod.splits)

lemma sync_tenant_refines:
  "refines invP absP (sync_tenant ord S T tb) (sync_tenant ord spec_shared spec_tenant tb)"
  by (auto simp: sync_tenant_def intro!: refine_rules sync_role_refines sync_user_refines split: prod.splits)

lemma syncFile_refines:
  assumes "serves S T tids stores"
  shows "refines invW absW (syncFile ord stores f) (syncFile ord (reference_stores stores) f)"
  by (auto simp: syncFile_def servesD[OF assms] refines_throw split: prod.splits
      intro!: refines_seq refines_forEach refines_at_shared refines_at_tenant sync_tenant_refines
        EnsureResource EnsureOperation_refines)

lemma Sync_refines:
  assumes "serves S T tids stores"
  shows "refines invW absW (Sync ord stores fs) (Sync ord (reference_stores stores) fs)"
  unfolding Sync_def by (intro refines_forEach syncFile_refines[OF assms])

lemma bootstrap_tenant_refines:
  "refines invP absP (bootstrap_tenant S T ps sub) (bootstrap_tenant spec_shared spec_tenant ps sub)"
  by (auto simp: bootstrap_tenant_def intro!: sync_refine_rules)

lemma BootstrapMeta_refines:
  assumes "serves S T tids stores"
  shows "refines invW absW (BootstrapMeta ord stores sub) (BootstrapMeta ord (reference_stores stores) sub)"
  by (auto simp: BootstrapMeta_def servesD[OF assms] Let_def refines_throw
      intro!: refines_seq refines_forEach refines_at_shared refines_at_tenant bootstrap_tenant_refines
        EnsureUser_refines EnsureOperation_refines)

text \<open>The results of the two bootstraps on these stores.\<close>

lemma Sync_run:
  assumes serves: "serves S T tids stores" and w: "invW w" and ok: "shared_ok (absS (fst w))"
  shows "fst (Sync ord stores fs w) = Inr () \<longleftrightarrow> acceptable_all tids (\<lambda>tid. aRoles (absT (snd w tid))) fs"
    "fst (Sync ord stores fs w) = Inr () \<Longrightarrow> absW (snd (Sync ord stores fs w)) = overlay_files fs (absW w)"
    "invW (snd (Sync ord stores fs w))"
proof -
  note D = refinesD[OF Sync_refines[OF serves, of ord fs] w]
  have eq: "snd (absW w) = (\<lambda>tid. absT (snd w tid))" "fst (absW w) = absS (fst w)" by (cases w; simp)+
  note spec = Sync_spec[OF reference_serves[OF serves], of "absW w" fs ord, unfolded eq, OF ok]
  show "fst (Sync ord stores fs w) = Inr () \<longleftrightarrow> acceptable_all tids (\<lambda>tid. aRoles (absT (snd w tid))) fs"
    using spec D(1) by (auto split: if_splits simp: isl_def)
  show "fst (Sync ord stores fs w) = Inr () \<Longrightarrow> absW (snd (Sync ord stores fs w)) = overlay_files fs (absW w)"
    using spec D(1,2) by (auto split: if_splits simp: isl_def)
  show "invW (snd (Sync ord stores fs w))" by (rule D(3))
qed

lemma Sync_again:
  assumes serves: "serves S T tids stores" and w: "invW w" and ok: "shared_ok (absS (fst w))"
    and run: "fst (Sync ord stores fs w) = Inr ()"
  shows "fst (Sync ord' stores fs (snd (Sync ord stores fs w))) = Inr ()
    \<and> absW (snd (Sync ord' stores fs (snd (Sync ord stores fs w)))) = absW (snd (Sync ord stores fs w))"
proof -
  let ?w = "snd (Sync ord stores fs w)"
  note first = refinesD[OF Sync_refines[OF serves, of ord fs] w]
  have "Sync ord (reference_stores stores) fs (absW w) = (Inr (), absW ?w)"
    using first run by (simp add: prod_eq_iff)
  moreover have "shared_ok (fst (absW w))" using ok by simp
  ultimately have "Sync ord' (reference_stores stores) fs (absW ?w) = (Inr (), absW ?w)"
    using Sync_spec_twice[OF reference_serves[OF serves]] by blast
  then show ?thesis using refinesD(1,2)[OF Sync_refines[OF serves, of ord' fs] first(3)] by simp
qed

lemma Sync_consistent:
  assumes serves: "serves S T tids stores" and w: "invW w" and ok: "world_consistent (absW w)"
  shows "world_consistent (absW (snd (Sync ord stores fs w)))"
  using refinesD(2)[OF Sync_refines[OF serves, of ord fs] w] world_stepD[OF Sync_step[OF reference_serves[OF serves]] ok]
  by simp

lemma Sync_below:
  assumes "serves S T tids stores" and "invW w"
  shows "below (absW w) (absW (snd (Sync ord stores fs w)))"
  unfolding refinesD(2)[OF Sync_refines[OF assms(1)] assms(2)]
  by (rule growsD[OF Sync_grows[OF reference_serves[OF assms(1)]]])

lemma BootstrapMeta_consistent:
  assumes serves: "serves S T tids stores" and w: "invW w" and ok: "world_consistent (absW w)"
  shows "world_consistent (absW (snd (BootstrapMeta ord stores sub w)))"
  using refinesD(2)[OF BootstrapMeta_refines[OF serves, of ord sub] w]
    world_stepD[OF BootstrapMeta_step[OF reference_serves[OF serves]] ok]
  by simp

lemma BootstrapMeta_run:
  assumes serves: "serves S T tids stores" and w: "invW w" and ok: "shared_ok (absS (fst w))"
  shows "fst (BootstrapMeta ord stores sub w) = Inr () \<longleftrightarrow> sub \<noteq> ''''"
    "sub \<noteq> '''' \<Longrightarrow> absW (snd (BootstrapMeta ord stores sub w)) = merge_world (absW w) (meta_world tids sub)"
    "invW (snd (BootstrapMeta ord stores sub w))"
proof -
  note D = refinesD[OF BootstrapMeta_refines[OF serves, of ord sub] w]
  have "shared_ok (fst (absW w))" using ok by (cases w) simp
  note spec = mergesD[OF BootstrapMeta_merges[OF reference_serves[OF serves], of sub ord] this]
  show "fst (BootstrapMeta ord stores sub w) = Inr () \<longleftrightarrow> sub \<noteq> ''''" using spec(4) D(1) by simp
  show "sub \<noteq> '''' \<Longrightarrow> absW (snd (BootstrapMeta ord stores sub w)) = merge_world (absW w) (meta_world tids sub)"
    using spec(1) D(2) by simp
  show "invW (snd (BootstrapMeta ord stores sub w))" by (rule D(3))
qed

end

end
