(* ===== verification/Auth.thy ===== *)
theory Auth
  imports Model
begin

text \<open>
  \<^verbatim>\<open>internal/auth/auth.go\<close>: who the caller of a request is. The interface \<open>Authenticator\<close> is the
  locale \<open>authenticator\<close>; both implementations of the package keep its promises. The OIDC
  library's token verifier is a parameter.
\<close>

section \<open>Requests\<close>

text \<open>
  What the program reads of an HTTP request: \<^verbatim>\<open>r.Header.Get\<close> (the empty string for a header that
  is not there), \<^verbatim>\<open>r.URL.Query().Get\<close>, and the body.
\<close>

record 'b request =
  rq_header :: "string \<Rightarrow> string"
  rq_query :: "string \<Rightarrow> string"
  rq_body :: 'b

definition HeaderUserSub :: string where "HeaderUserSub = ''X-User-Sub''"

definition HeaderAuthorization :: string where "HeaderAuthorization = ''Authorization''"

type_synonym 'b Authenticate = "'b request \<Rightarrow> err + string"

section \<open>The code\<close>

definition Static_Authenticate :: "string \<Rightarrow> 'b Authenticate" where
  "Static_Authenticate defaultSub r =
     (let sub = rq_header r HeaderUserSub in
      if sub \<noteq> '''' then Inr sub
      else if defaultSub = '''' then Inl ErrUnauthenticated
      else Inr defaultSub)"

text \<open>\<open>verify\<close> is \<^verbatim>\<open>IDTokenVerifier.Verify\<close>: the subject of a valid token.\<close>

definition OIDC_Authenticate :: "(string \<Rightarrow> 'e + string) \<Rightarrow> 'b Authenticate" where
  "OIDC_Authenticate verify r =
     (case CutPrefix (rq_header r HeaderAuthorization) ''Bearer '' of
        (rawToken, ok) \<Rightarrow>
          if \<not> ok \<or> rawToken = '''' then Inl ErrUnauthenticated
          else (case verify rawToken of
                  Inl e \<Rightarrow> Inl ErrUnauthenticated
                | Inr tokenSubject \<Rightarrow>
                    let headerSub = rq_header r HeaderUserSub in
                    if headerSub = '''' then Inl ErrUnauthenticated
                    else if tokenSubject \<noteq> headerSub then Inl ErrUnauthenticated
                    else Inr tokenSubject))"

text \<open>The verifier configuration that \<open>NewOIDC\<close> builds: client ID and whether its check is skipped.\<close>

record oidc_config =
  ClientID :: string
  SkipClientIDCheck :: bool

definition NewOIDC_config :: "string \<Rightarrow> oidc_config" where
  "NewOIDC_config audience =
     (let cfg = \<lparr>ClientID = audience, SkipClientIDCheck = False\<rparr> in
      if audience = '''' then cfg\<lparr>SkipClientIDCheck := True\<rparr> else cfg)"

text \<open>\<open>new_provider\<close> is \<^verbatim>\<open>oidc.NewProvider\<close>: on success, the verifiers of the provider.\<close>

definition NewOIDC :: "(string \<Rightarrow> 'p + (oidc_config \<Rightarrow> string \<Rightarrow> 'e + string)) \<Rightarrow> string \<Rightarrow> string \<Rightarrow> 'p + 'b Authenticate" where
  "NewOIDC new_provider issuer audience =
     (case new_provider issuer of
        Inl e \<Rightarrow> Inl e
      | Inr provider \<Rightarrow> Inr (OIDC_Authenticate (provider (NewOIDC_config audience))))"

section \<open>The contract\<close>

locale authenticator =
  fixes authn :: "'b Authenticate"
  assumes only_unauthenticated: "authn r = Inl e \<Longrightarrow> e = ErrUnauthenticated"
    and verified_subject: "authn r = Inr sub \<Longrightarrow> sub \<noteq> ''''"
begin

lemma authn_cases:
  obtains "authn r = Inl ErrUnauthenticated" | sub where "authn r = Inr sub" "sub \<noteq> ''''"
  using only_unauthenticated verified_subject by (cases "authn r") auto

end

lemma Static_result:
  "Static_Authenticate d r = (if rq_header r HeaderUserSub \<noteq> '''' then Inr (rq_header r HeaderUserSub)
     else if d \<noteq> '''' then Inr d else Inl ErrUnauthenticated)"
  by (simp add: Static_Authenticate_def Let_def)

text \<open>
  A caller is accepted only with a bearer token that verifies and whose subject is the one the
  caller claims in \<^verbatim>\<open>X-User-Sub\<close>.
\<close>

lemma OIDC_accepts_iff:
  "OIDC_Authenticate verify r = Inr sub \<longleftrightarrow>
     (\<exists>token. rq_header r HeaderAuthorization = ''Bearer '' @ token \<and> token \<noteq> ''''
        \<and> verify token = Inr sub \<and> rq_header r HeaderUserSub = sub \<and> sub \<noteq> '''')"
  (is "?lhs \<longleftrightarrow> ?rhs")
proof
  assume ?lhs
  obtain raw ok where cut: "CutPrefix (rq_header r HeaderAuthorization) ''Bearer '' = (raw, ok)"
    by (cases "CutPrefix (rq_header r HeaderAuthorization) ''Bearer ''")
  with \<open>?lhs\<close> have raw: "ok" "raw \<noteq> ''''" "verify raw = Inr sub" "rq_header r HeaderUserSub = sub" "sub \<noteq> ''''"
    by (auto simp: OIDC_Authenticate_def Let_def split: if_splits sum.splits)
  then have "rq_header r HeaderAuthorization = ''Bearer '' @ raw"
    using CutPrefix_True[of "rq_header r HeaderAuthorization" "''Bearer ''" raw] cut by simp
  with raw show ?rhs by blast
next
  assume ?rhs
  then obtain token where token: "rq_header r HeaderAuthorization = ''Bearer '' @ token" "token \<noteq> ''''"
      "verify token = Inr sub" "rq_header r HeaderUserSub = sub" "sub \<noteq> ''''"
    by blast
  have "CutPrefix (''Bearer '' @ token) ''Bearer '' = (token, True)" by (rule CutPrefix_append)
  with token show ?lhs by (simp add: OIDC_Authenticate_def del: append.simps)
qed

lemma OIDC_error: "OIDC_Authenticate verify r = Inl e \<Longrightarrow> e = ErrUnauthenticated"
  by (auto simp: OIDC_Authenticate_def Let_def split: prod.splits sum.splits if_splits)

interpretation static: authenticator "Static_Authenticate d" for d
  by unfold_locales (auto simp: Static_result split: if_splits)

interpretation oidc: authenticator "OIDC_Authenticate verify" for verify
  by unfold_locales (auto simp: OIDC_accepts_iff dest: OIDC_error)

end
