(* ===== verification/JsonFile.thy ===== *)
theory JsonFile
  imports StoreSpec
begin

text \<open>
  The parts of \<^verbatim>\<open>internal/store/json.go\<close> that its two stores share: sorted string lists, the
  JSON documents the stores are written as, and \<open>loadJSON\<close> and \<open>saveJSON\<close>. A document is a
  \<open>json\<close> tree; of its text form (\<^verbatim>\<open>encoding/json\<close>) the model has that strings and the keys of objects
  are UTF-8, so that writing or reading one replaces what is not (\<open>coerce_utf8\<close>). The file system
  enters as the state of the backing file and a list that says, for each coming save, which of
  its steps fails (\<open>None\<close>: none does); after the end of the list all saves succeed.
\<close>

section \<open>Sorted lists without duplicates\<close>

definition insertSorted :: "string list \<Rightarrow> string \<Rightarrow> string list" where
  "insertSorted list v =
     (case BinarySearch list v of (i, found) \<Rightarrow> if found then list else Insert list i v)"

definition removeString :: "string list \<Rightarrow> string \<Rightarrow> string list \<times> bool" where
  "removeString list v =
     (let i = Index list v
      in if i < 0 then (list, False) else (Delete list (nat i) (nat i + 1), True))"

definition ssorted :: "string list \<Rightarrow> bool" where
  "ssorted xs \<longleftrightarrow> sorted xs \<and> distinct xs"

lemma ssorted_Nil [simp]: "ssorted []"
  by (simp add: ssorted_def)

lemma ssorted_list_of_set: "ssorted xs \<Longrightarrow> sorted_list_of_set (set xs) = xs"
  by (simp add: ssorted_def sorted_list_of_set.idem_if_sorted_distinct)

lemma ssorted_unique: "ssorted xs \<Longrightarrow> ssorted ys \<Longrightarrow> set xs = set ys \<Longrightarrow> xs = ys"
  by (simp add: ssorted_def sorted_distinct_set_unique)

lemma insertSorted_member: "ssorted xs \<Longrightarrow> v \<in> set xs \<Longrightarrow> insertSorted xs v = xs"
  using BinarySearch_sorted(4)[of xs v]
  by (auto simp: insertSorted_def ssorted_def split: prod.splits)

lemma insertSorted_fresh:
  assumes "ssorted xs" and "v \<notin> set xs"
  shows "ssorted (insertSorted xs v)" "set (insertSorted xs v) = insert v (set xs)"
proof -
  obtain i found where bs: "BinarySearch xs v = (i, found)" by force
  have srt: "sorted xs" using assms(1) by (simp add: ssorted_def)
  note bs_facts = BinarySearch_sorted[OF srt bs]
  have ins: "insertSorted xs v = take i xs @ v # drop i xs"
    using bs_facts(4) assms(2) by (simp add: insertSorted_def bs Insert_def)
  have lo: "\<forall>x \<in> set (take i xs). x \<le> v"
    using bs_facts(2) by (force simp: in_set_conv_nth)
  have hi: "\<forall>x \<in> set (drop i xs). v \<le> x"
    using bs_facts(1,3) by (force simp: in_set_conv_nth)
  have parts: "set xs = set (take i xs) \<union> set (drop i xs)"
    by (metis append_take_drop_id set_append)
  show "set (insertSorted xs v) = insert v (set xs)"
    using parts by (auto simp: ins)
  have "set (take i xs) \<inter> set (drop i xs) = {}"
    using assms(1) by (simp add: ssorted_def set_take_disj_set_drop_if_distinct)
  then show "ssorted (insertSorted xs v)"
    using lo hi assms parts
    by (auto simp: ins ssorted_def sorted_append intro: order_trans)
qed

lemma ssorted_insertSorted [simp]: "ssorted xs \<Longrightarrow> ssorted (insertSorted xs v)"
  by (cases "v \<in> set xs") (simp_all add: insertSorted_member insertSorted_fresh)

lemma set_insertSorted [simp]: "ssorted xs \<Longrightarrow> set (insertSorted xs v) = insert v (set xs)"
  by (cases "v \<in> set xs") (simp_all add: insertSorted_member insertSorted_fresh insert_absorb)

lemma removeString_eq: "removeString xs v = (remove1 v xs, v \<in> set xs)"
proof (cases "v \<in> set xs")
  case True
  then have "\<not> Index xs v < 0" using Index_iff[of xs v] by linarith
  then show ?thesis using True Delete_Index[OF True] by (simp add: removeString_def Let_def)
next
  case False
  then have "Index xs v < 0" using Index_iff[of xs v] by linarith
  then show ?thesis using False by (simp add: removeString_def Let_def remove1_idem)
qed

lemma ssorted_remove1 [simp]:
  "ssorted xs \<Longrightarrow> ssorted (remove1 v xs)" "ssorted xs \<Longrightarrow> set (remove1 v xs) = set xs - {v}"
  by (simp_all add: ssorted_def sorted_remove1)

lemma ssorted_removeString [simp]: "ssorted xs \<Longrightarrow> ssorted (fst (removeString xs v))"
  by (simp add: removeString_eq)

lemma set_removeString [simp]: "ssorted xs \<Longrightarrow> set (fst (removeString xs v)) = set xs - {v}"
  by (simp add: removeString_eq)

lemma snd_removeString [simp]: "snd (removeString xs v) \<longleftrightarrow> v \<in> set xs"
  by (simp add: removeString_eq)

lemma Index_bound: "Index xs v < int (length xs)"
  by (induction xs) (auto simp: Let_def)

section \<open>JSON documents\<close>

datatype json =
    JNull
  | JBool bool
  | JNumber string
  | JString string
  | JArray "json list"
  | JObject "(string \<times> json) list"

text \<open>Objects are written with their keys sorted as strings of bytes.\<close>

definition enc_string :: "string \<Rightarrow> json" where
  "enc_string s = JString (coerce_utf8 s)"

definition enc_strings :: "string list \<Rightarrow> json" where
  "enc_strings xs = JArray (map enc_string xs)"

definition enc_map :: "('v \<Rightarrow> json) \<Rightarrow> 'v gomap \<Rightarrow> json" where
  "enc_map enc m = (case m of None \<Rightarrow> JNull
     | Some f \<Rightarrow> JObject (map (\<lambda>k. (coerce_utf8 k, enc (the (fmlookup f k)))) (keys f)))"

text \<open>A field with \<^verbatim>\<open>omitempty\<close> is left out when its map or slice is empty.\<close>

definition omitempty :: "bool \<Rightarrow> string \<Rightarrow> json \<Rightarrow> (string \<times> json) list" where
  "omitempty is_empty name j = (if is_empty then [] else [(name, j)])"

fun mapE :: "('a \<Rightarrow> 'e + 'b) \<Rightarrow> 'a list \<Rightarrow> 'e + 'b list" where
  "mapE f [] = Inr []"
| "mapE f (x # xs) = (case f x of Inl e \<Rightarrow> Inl e
     | Inr y \<Rightarrow> (case mapE f xs of Inl e \<Rightarrow> Inl e | Inr ys \<Rightarrow> Inr (y # ys)))"

fun dec_string :: "json \<Rightarrow> err + string" where
  "dec_string (JString s) = Inr (coerce_utf8 s)"
| "dec_string JNull = Inr ''''"
| "dec_string _ = Inl (ErrIO ParseFile)"

fun dec_strings :: "json \<Rightarrow> err + string list" where
  "dec_strings (JArray xs) = mapE dec_string xs"
| "dec_strings JNull = Inr []"
| "dec_strings _ = Inl (ErrIO ParseFile)"

text \<open>Into a field that may be nil: an empty array is an empty slice, \<^verbatim>\<open>null\<close> the nil slice.\<close>

fun dec_slice :: "json \<Rightarrow> err + string slice" where
  "dec_slice (JArray xs) = map_sum id Some (mapE dec_string xs)"
| "dec_slice JNull = Inr None"
| "dec_slice _ = Inl (ErrIO ParseFile)"

fun dec_map :: "(json \<Rightarrow> err + 'v) \<Rightarrow> json \<Rightarrow> err + 'v gomap" where
  "dec_map dec (JObject kvs) =
     (case mapE (\<lambda>(k, j). map_sum id (Pair (coerce_utf8 k)) (dec j)) kvs of
        Inl e \<Rightarrow> Inl e
      | Inr kvs' \<Rightarrow> Inr (Some (fmap_of_list (rev kvs'))))"
| "dec_map dec JNull = Inr None"
| "dec_map dec _ = Inl (ErrIO ParseFile)"

definition dec_field :: "string \<Rightarrow> 'a \<Rightarrow> (json \<Rightarrow> err + 'a) \<Rightarrow> (string \<times> json) list \<Rightarrow> err + 'a" where
  "dec_field name zero dec kvs =
     (case map_of (rev kvs) name of None \<Rightarrow> Inr zero | Some j \<Rightarrow> dec j)"

section \<open>The backing file\<close>

datatype disk_file = NoFile | Unreadable | EmptyFile | Garbage | Doc json

record 'd jstore =
  js_dir :: string
  js_data :: 'd
  js_disk :: disk_file
  js_temps :: nat
  js_faults :: "io_step option list"

text \<open>The hypothesis of what is proved about running stores: no save fails.\<close>

definition saves_succeed :: "'d jstore \<Rightarrow> bool" where
  "saves_succeed s \<longleftrightarrow> js_faults s = []"

lemma saves_succeed_update [simp]:
  "saves_succeed (s\<lparr>js_data := d\<rparr>) = saves_succeed s" "saves_succeed (s\<lparr>js_disk := f\<rparr>) = saves_succeed s"
  by (simp_all add: saves_succeed_def)

definition next_fault :: "'d jstore \<Rightarrow> io_step option" where
  "next_fault s = (case js_faults s of [] \<Rightarrow> None | f # _ \<Rightarrow> f)"

text \<open>
  \<open>loadJSON\<close> decodes the file over the value it is given. A missing or empty file leaves the
  value as it is.
\<close>

definition loadJSON :: "(json \<Rightarrow> 'd \<Rightarrow> err + 'd) \<Rightarrow> disk_file \<Rightarrow> 'd \<Rightarrow> err + 'd" where
  "loadJSON unmarshal file v = (case file of
       NoFile \<Rightarrow> Inr v
     | Unreadable \<Rightarrow> Inl (ErrIO ReadFile)
     | EmptyFile \<Rightarrow> Inr v
     | Garbage \<Rightarrow> Inl (ErrIO ParseFile)
     | Doc j \<Rightarrow> unmarshal j v)"

text \<open>
  \<open>saveJSON\<close> writes a temporary file and renames it over the backing file. The deferred
  \<^verbatim>\<open>os.Remove\<close> takes the temporary file away on every exit after its creation (after the rename
  there is nothing left to remove). \<open>js_dir\<close> is \<^verbatim>\<open>filepath.Dir(path)\<close>.
\<close>

definition saveJSON :: "json \<Rightarrow> (unit, 'd jstore) op" where
  "saveJSON raw = (\<lambda>s.
     let fault = next_fault s; s0 = s\<lparr>js_faults := tl (js_faults s)\<rparr> in
     if js_dir s \<noteq> ''.'' \<and> fault = Some MkdirAll then (Inl (ErrIO MkdirAll), s0)
     else if fault = Some CreateTemp then (Inl (ErrIO CreateTemp), s0)
     else
       let s1 = s0\<lparr>js_temps := js_temps s0 + 1\<rparr>;
           remove_temp = (\<lambda>s. s\<lparr>js_temps := js_temps s - 1\<rparr>) in
       if fault = Some WriteTemp then (Inl (ErrIO WriteTemp), remove_temp s1)
       else if fault = Some CloseTemp then (Inl (ErrIO CloseTemp), remove_temp s1)
       else if fault = Some RenameTemp then (Inl (ErrIO RenameTemp), remove_temp s1)
       else (Inr (), (remove_temp s1)\<lparr>js_disk := Doc raw\<rparr>))"

text \<open>
  Whatever step fails, \<open>saveJSON\<close> leaves either the whole new document or the file as it was,
  no temporary file, and the data in memory untouched.
\<close>

lemma jstore_same_temps [simp]:
  "s\<lparr>js_faults := F, js_temps := js_temps s\<rparr> = s\<lparr>js_faults := F\<rparr>"
  "s\<lparr>js_faults := F, js_temps := js_temps s, js_disk := D\<rparr> = s\<lparr>js_faults := F, js_disk := D\<rparr>"
  by (cases s, simp)+

lemma saveJSON_run:
  "saveJSON raw s = (Inr (), s\<lparr>js_faults := tl (js_faults s), js_disk := Doc raw\<rparr>)
   \<or> (\<exists>step. next_fault s = Some step
        \<and> saveJSON raw s = (Inl (ErrIO step), s\<lparr>js_faults := tl (js_faults s)\<rparr>))"
proof (cases "next_fault s")
  case None
  then show ?thesis by (simp add: saveJSON_def Let_def)
next
  case (Some step)
  then show ?thesis by (cases "js_dir s = ''.''"; cases step) (simp_all add: saveJSON_def Let_def)
qed

lemma saveJSON_cases:
  obtains (saved) "saveJSON raw s = (Inr (), s\<lparr>js_faults := tl (js_faults s), js_disk := Doc raw\<rparr>)"
  | (failed) step where "next_fault s = Some step"
      "saveJSON raw s = (Inl (ErrIO step), s\<lparr>js_faults := tl (js_faults s)\<rparr>)"
  using saveJSON_run[of raw s] by blast

lemma saveJSON_no_fault:
  assumes "saves_succeed s"
  shows "saveJSON raw s = (Inr (), s\<lparr>js_disk := Doc raw\<rparr>)"
proof -
  have "s\<lparr>js_faults := tl (js_faults s)\<rparr> = s" using assms by (cases s) (simp add: saves_succeed_def)
  moreover have "next_fault s = None" using assms by (simp add: next_fault_def saves_succeed_def)
  ultimately show ?thesis using saveJSON_run[of raw s] by simp
qed

lemma saveJSON_data [simp]:
  "js_data (snd (saveJSON raw s)) = js_data s" "js_temps (snd (saveJSON raw s)) = js_temps s"
  "js_dir (snd (saveJSON raw s)) = js_dir s"
  by (cases rule: saveJSON_cases[of raw s], auto)+

lemma saveJSON_disk:
  "js_disk (snd (saveJSON raw s)) = (if fst (saveJSON raw s) = Inr () then Doc raw else js_disk s)"
  by (cases rule: saveJSON_cases[of raw s]) auto

section \<open>Decoding what was encoded\<close>

lemma mapE_map: "mapE f (map g xs) = mapE (f \<circ> g) xs"
  by (induction xs) (simp_all split: sum.splits)

lemma mapE_Inr: "(\<And>x. x \<in> set xs \<Longrightarrow> f x = Inr (g x)) \<Longrightarrow> mapE f xs = Inr (map g xs)"
  by (induction xs) auto

lemma dec_enc_string [simp]: "dec_string (enc_string s) = Inr (coerce_utf8 s)"
  by (simp add: enc_string_def)

lemma dec_enc_strings: "dec_strings (enc_strings xs) = Inr (map coerce_utf8 xs)"
  using mapE_Inr[of xs "dec_string \<circ> enc_string" coerce_utf8] by (simp add: enc_strings_def mapE_map)

lemma dec_enc_slice: "dec_slice (enc_strings xs) = Inr (Some (map coerce_utf8 xs))"
  using mapE_Inr[of xs "dec_string \<circ> enc_string" coerce_utf8] by (simp add: enc_strings_def mapE_map)

text \<open>
  A map comes back with its keys and values read as UTF-8; of keys that are then the same the last
  one written counts.
\<close>

lemma dec_enc_map:
  assumes "\<And>k v. map_get m k = Some v \<Longrightarrow> dec (enc v) = Inr (g v)"
  shows "dec_map dec (enc_map enc m)
    = Inr (map_option (\<lambda>f. fmap_of_list (rev (map (\<lambda>k. (coerce_utf8 k, g (the (fmlookup f k)))) (keys f)))) m)"
proof (cases m)
  case None
  then show ?thesis by (simp add: enc_map_def)
next
  case (Some f)
  have "mapE (\<lambda>(k, j). map_sum id (Pair (coerce_utf8 k)) (dec j))
        (map (\<lambda>k. (coerce_utf8 k, enc (the (fmlookup f k)))) (keys f))
      = Inr (map (\<lambda>k. (coerce_utf8 k, g (the (fmlookup f k)))) (keys f))"
    unfolding mapE_map
    by (rule mapE_Inr) (use assms Some in \<open>force simp: in_fmdom_iff\<close>)
  then show ?thesis using Some by (simp add: enc_map_def)
qed

text \<open>The maps whose keys and values are UTF-8.\<close>

definition utf8_map :: "('v \<Rightarrow> bool) \<Rightarrow> 'v gomap \<Rightarrow> bool" where
  "utf8_map P m \<longleftrightarrow> list_all (\<lambda>k. valid_utf8 k \<and> P (the (map_get m k))) (map_keys m)"

lemma utf8_map_iff: "utf8_map P m \<longleftrightarrow> (\<forall>k v. map_get m k = Some v \<longrightarrow> valid_utf8 k \<and> P v)"
proof (cases m)
  case (Some f)
  have "utf8_map P m \<longleftrightarrow> (\<forall>k. fmlookup f k \<noteq> None \<longrightarrow> valid_utf8 k \<and> P (the (fmlookup f k)))"
    by (simp only: utf8_map_def Some map_keys_def option.case list_all_iff set_keys in_fmdom_iff map_get_simps Ball_def)
  then show ?thesis by (auto simp: Some)
qed (simp add: utf8_map_def map_keys_def)

lemma utf8_map_simps [simp]: "utf8_map P None" "utf8_map P make_map"
  by (simp_all add: utf8_map_iff)

lemma fmap_of_list_keys:
  "fmap_of_list (rev (map (\<lambda>k. (k, g (the (fmlookup f k)))) (keys f))) = fmmap g f"
proof (rule fmap_ext)
  fix x
  let ?kvs = "map (\<lambda>k. (k, g (the (fmlookup f k)))) (keys f)"
  have dist: "distinct (map fst ?kvs)" by (simp add: comp_def)
  have "map_of (rev ?kvs) = map_of ?kvs"
    using dist by (subst map_of_inject_set) (simp_all flip: rev_map)
  then have "map_of (rev ?kvs) x = map_of ?kvs x" by simp
  also have "\<dots> = map_option g (fmlookup f x)"
    by (cases "fmlookup f x") (simp_all add: map_of_map_restrict restrict_map_def in_fmdom_iff)
  finally show "fmlookup (fmap_of_list (rev ?kvs)) x = fmlookup (fmmap g f) x"
    by (simp add: fmlookup_of_list)
qed

lemma dec_enc_utf8_map:
  assumes "utf8_map P m" and "\<And>v. P v \<Longrightarrow> dec (enc v) = Inr (g v)"
  shows "dec_map dec (enc_map enc m) = Inr (map_option (fmmap g) m)"
proof (cases m)
  case (Some f)
  have P: "valid_utf8 k \<and> P v" if "fmlookup f k = Some v" for k v
    using assms(1) that by (simp add: Some utf8_map_iff)
  have same: "map (\<lambda>k. (coerce_utf8 k, g (the (fmlookup f k)))) (keys f) = map (\<lambda>k. (k, g (the (fmlookup f k)))) (keys f)"
    using P by (intro map_cong refl) (auto simp only: set_keys in_fmdom_iff coerce_valid)
  have "dec_map dec (enc_map enc m) = Inr (Some (fmap_of_list (rev (map (\<lambda>k. (coerce_utf8 k, g (the (fmlookup f k)))) (keys f)))))"
    using dec_enc_map[of m dec enc g] P assms(2) by (simp add: Some)
  then show ?thesis unfolding same fmap_of_list_keys by (simp add: Some)
qed (simp add: enc_map_def)

text \<open>Whatever the file says, the keys of a map read from it are UTF-8.\<close>

lemma mapE_set: "mapE f xs = Inr ys \<Longrightarrow> y \<in> set ys \<Longrightarrow> \<exists>x \<in> set xs. f x = Inr y"
  by (induction xs arbitrary: ys) (auto split: sum.splits)

lemma dec_map_keys:
  assumes "dec_map dec j = Inr m" and "map_get m k = Some v"
  shows "valid_utf8 k"
proof (cases j)
  case (JObject kvs)
  then obtain kvs' where kvs': "mapE (\<lambda>(k, j). map_sum id (Pair (coerce_utf8 k)) (dec j)) kvs = Inr kvs'"
    "m = Some (fmap_of_list (rev kvs'))"
    using assms(1) by (auto split: sum.splits)
  have "(k, v) \<in> set kvs'" using assms(2) kvs'(2) by (auto simp: fmlookup_of_list dest: map_of_SomeD)
  from mapE_set[OF kvs'(1) this] show ?thesis by (auto simp: map_sum_def split: sum.splits)
qed (use assms in auto)

end
