(* ===== verification/Api.thy ===== *)
theory Api
  imports Overlay Auth JsonFile
begin

text \<open>
  \<^verbatim>\<open>internal/api\<close>: the REST server over any pair of stores. A handler answers a request and may
  change the state of the stores; the middlewares are functions on handlers. The matching of
  paths is the router library's: a request comes with the entry of the routing table that
  was selected and the URL parameters it carries.
\<close>

section \<open>Routes\<close>

datatype route =
    Healthz
  | MyOperations | MyRecordIDs | MyMetaOperations
  | GetResources | PostResource | DeleteResource_r string
  | GetOperations | PostOperation | DeleteOperation_r string
  | GetUsers | GetUserOperations string | GetUserMetaOperations string | GetUserRoles string
  | PutUserPermission string string | DeleteUserPermission string string | PostUserIDs string string
  | GetRoles | GetRole_r string | PostRole | PutRole string | DeleteRole_r string
  | PostAssignment string string | DeleteAssignment string string
  | PutRolePermission string string | DeleteRolePermission string string | PostRoleIDs string string
  | PostSync

text \<open>The meta operations that \<^verbatim>\<open>Router\<close> attaches to a route with \<^verbatim>\<open>requireMeta\<close>.\<close>

fun required :: "route \<Rightarrow> string list" where
  "required Healthz = []"
| "required MyOperations = []"
| "required MyRecordIDs = []"
| "required MyMetaOperations = []"
| "required GetResources = [MetaResourceRead]"
| "required PostResource = [MetaResourceWrite]"
| "required (DeleteResource_r _) = [MetaResourceWrite]"
| "required GetOperations = [MetaOperationRead]"
| "required PostOperation = [MetaOperationWrite]"
| "required (DeleteOperation_r _) = [MetaOperationWrite]"
| "required GetUsers = [MetaUserRead]"
| "required (GetUserOperations _) = [MetaUserRead]"
| "required (GetUserMetaOperations _) = [MetaUserRead]"
| "required (GetUserRoles _) = [MetaRoleRead]"
| "required (PutUserPermission _ _) = [MetaOperationAssign]"
| "required (DeleteUserPermission _ _) = [MetaOperationAssign]"
| "required (PostUserIDs _ _) = [MetaOperationAssign]"
| "required GetRoles = [MetaRoleRead]"
| "required (GetRole_r _) = [MetaRoleRead]"
| "required PostRole = [MetaRoleWrite]"
| "required (PutRole _) = [MetaRoleWrite]"
| "required (DeleteRole_r _) = [MetaRoleWrite]"
| "required (PostAssignment _ _) = [MetaRoleAssign]"
| "required (DeleteAssignment _ _) = [MetaRoleAssign]"
| "required (PutRolePermission _ _) = [MetaOperationAssign]"
| "required (DeleteRolePermission _ _) = [MetaOperationAssign]"
| "required (PostRoleIDs _ _) = [MetaOperationAssign]"
| "required PostSync =
     [MetaResourceWrite, MetaOperationWrite, MetaRoleWrite, MetaRoleAssign, MetaOperationAssign]"

section \<open>Requests and responses\<close>

datatype body = BadBody | JsonBody json

text \<open>
  \<open>decode\<close> of a body into a struct: \<^verbatim>\<open>null\<close> leaves the zero value, an object sets the named
  fields, anything else is an error.
\<close>

definition decode :: "((string \<times> json) list \<Rightarrow> err + 'a) \<Rightarrow> body \<Rightarrow> err + 'a" where
  "decode dec b = (case b of
     BadBody \<Rightarrow> Inl (ErrIO ParseFile)
   | JsonBody j \<Rightarrow> (case j of JNull \<Rightarrow> dec [] | JObject kvs \<Rightarrow> dec kvs | _ \<Rightarrow> Inl (ErrIO ParseFile)))"

definition dec_name :: "(string \<times> json) list \<Rightarrow> err + string" where
  "dec_name = dec_field ''name'' '''' dec_string"

definition dec_scope :: "(string \<times> json) list \<Rightarrow> err + Scope" where
  "dec_scope = dec_field ''scope'' '''' dec_string"

record restrictedIDsRequest =
  Add :: "string list"
  Remove :: "string list"

definition dec_restricted_ids :: "(string \<times> json) list \<Rightarrow> err + restrictedIDsRequest" where
  "dec_restricted_ids kvs =
     (case dec_field ''add'' [] dec_strings kvs of
        Inl e \<Rightarrow> Inl e
      | Inr add \<Rightarrow> (case dec_field ''remove'' [] dec_strings kvs of
          Inl e \<Rightarrow> Inl e
        | Inr remove \<Rightarrow> Inr \<lparr>Add = add, Remove = remove\<rparr>))"

text \<open>What a response carries; the text of an error is dropped.\<close>

datatype payload =
    NoContent
  | ErrorBody
  | StatusOK
  | OperationsBody "OperationScope list"
  | RecordIDsBody "(string, string list) fmap"
  | ResourcesBody "Resource list"
  | OperationRowsBody "Operation_row list"
  | UsersBody "User list"
  | RolesBody "Role list"
  | NamesBody "string slice"
  | NameBody string
  | RoleBody string "OperationScope list"
  | SyncedBody nat

record response =
  status :: nat
  payload :: payload

definition writeJSON :: "nat \<Rightarrow> payload \<Rightarrow> response" where
  "writeJSON code v = \<lparr>status = code, payload = v\<rparr>"

definition writeError :: "nat \<Rightarrow> response" where
  "writeError code = writeJSON code ErrorBody"

definition httpStatus :: "err \<Rightarrow> nat" where
  "httpStatus e = (case e of
     ErrNotFound \<Rightarrow> 404
   | ErrConflict \<Rightarrow> 409
   | ErrValidation \<Rightarrow> 400
   | ErrUnauthenticated \<Rightarrow> 401
   | _ \<Rightarrow> 500)"

definition HeaderTenantID :: string where "HeaderTenantID = ''X-Tenant-ID''"

section \<open>The server\<close>

text \<open>
  The fields of \<^verbatim>\<open>Server\<close> with what they give access to: the bootstrap patterns of the
  configuration, the stores, the authenticator; the file system and the YAML library that
  \<open>handleSync\<close> reaches through \<open>LoadBootstrapFiles\<close>; and the orders the runtime picks for maps.
\<close>

record ('s, 't, 'raw) Server =
  sv_files :: "string list"
  sv_stores :: "('s, 't) Stores"
  sv_authn :: "body Authenticate"
  sv_glob :: "string \<Rightarrow> err + string list"
  sv_readFile :: "string \<Rightarrow> err + 'raw"
  sv_unmarshal :: "'raw \<Rightarrow> err + BootstrapFile"
  sv_order :: map_order
  sv_orders :: orders

type_synonym ('s, 't) handler = "('s, 't) world \<Rightarrow> response \<times> ('s, 't) world"

text \<open>The shape of every handler: run the service function, map its error, or write its result.\<close>

definition respond :: "('a \<Rightarrow> response) \<Rightarrow> ('a, ('s, 't) world) op \<Rightarrow> ('s, 't) handler" where
  "respond ok m = (\<lambda>w. case m w of
     (Inl e, w1) \<Rightarrow> (writeError (httpStatus e), w1)
   | (Inr a, w1) \<Rightarrow> (ok a, w1))"

definition answer :: "response \<Rightarrow> ('s, 't) handler" where
  "answer resp = (\<lambda>w. (resp, w))"

definition with_body :: "((string \<times> json) list \<Rightarrow> err + 'a) \<Rightarrow> body request \<Rightarrow> ('a \<Rightarrow> ('s, 't) handler) \<Rightarrow> ('s, 't) handler" where
  "with_body dec rq h = (case decode dec (rq_body rq) of Inl _ \<Rightarrow> answer (writeError 400) | Inr x \<Rightarrow> h x)"

abbreviation "ok_json v \<equiv> writeJSON 200 v"

abbreviation "created v \<equiv> writeJSON 201 v"

abbreviation no_content :: "unit \<Rightarrow> response" where
  "no_content \<equiv> \<lambda>_. writeJSON 204 NoContent"

definition handleSync :: "('s, 't, 'raw) Server \<Rightarrow> ('s, 't) handler" where
  "handleSync srv = (case LoadBootstrapFiles (sv_glob srv) (sv_readFile srv) (sv_unmarshal srv) (sv_files srv) of
     Inl _ \<Rightarrow> answer (writeError 500)
   | Inr files \<Rightarrow> respond (\<lambda>_. ok_json (SyncedBody (length files)))
       (Sync (sv_orders srv) (sv_stores srv) files))"

definition handleMyRecordIDs :: "'t Tenant \<Rightarrow> string \<Rightarrow> string \<Rightarrow> body request \<Rightarrow> ('s, 't) handler" where
  "handleMyRecordIDs T tid sub rq =
     (let raw = rq_query rq ''operations'' in
      if raw = '''' then answer (writeError 400)
      else respond (\<lambda>ids. ok_json (RecordIDsBody ids))
        (at_tenant tid (onSnd (RecordIDs T sub (Split raw (CHR '',''))))))"

text \<open>The handlers, one for each function of \<^verbatim>\<open>handlers.go\<close>; the caller \<open>sub\<close> and the tenant come from the middlewares.\<close>

named_theorems handler_defs

definition handleMyOperations :: "('s, 't, 'raw) Server \<Rightarrow> 't Tenant \<Rightarrow> string \<Rightarrow> string \<Rightarrow> ('s, 't) handler" where [handler_defs]:
  "handleMyOperations srv T tid sub =
     respond (\<lambda>ops. ok_json (OperationsBody ops)) (at_tenant tid (onSnd (EffectiveOperations (sv_order srv) T sub)))"

definition handleMyMetaOperations :: "('s, 't, 'raw) Server \<Rightarrow> 't Tenant \<Rightarrow> string \<Rightarrow> string \<Rightarrow> ('s, 't) handler" where [handler_defs]:
  "handleMyMetaOperations srv T tid sub =
     respond (\<lambda>ops. ok_json (OperationsBody ops)) (at_tenant tid (onSnd (MetaOperations (sv_order srv) T sub)))"

definition handleListResources :: "('s, 't, 'raw) Server \<Rightarrow> ('s, 't) handler" where [handler_defs]:
  "handleListResources srv =
     respond (\<lambda>rs. ok_json (ResourcesBody rs)) (at_shared (ListResources (Stores_Shared (sv_stores srv))))"

definition handleCreateResource :: "('s, 't, 'raw) Server \<Rightarrow> body request \<Rightarrow> ('s, 't) handler" where [handler_defs]:
  "handleCreateResource srv rq =
     with_body dec_name rq (\<lambda>name.
     respond (\<lambda>_. created (NameBody name)) (at_shared (CreateResource (Stores_Shared (sv_stores srv)) name)))"

definition handleDeleteResource :: "('s, 't, 'raw) Server \<Rightarrow> string \<Rightarrow> ('s, 't) handler" where [handler_defs]:
  "handleDeleteResource srv name =
     respond no_content (at_shared (DeleteResource (Stores_Shared (sv_stores srv)) name))"

definition handleListOperations :: "('s, 't, 'raw) Server \<Rightarrow> ('s, 't) handler" where [handler_defs]:
  "handleListOperations srv =
     respond (\<lambda>ops. ok_json (OperationRowsBody ops)) (at_shared (ListOperations (Stores_Shared (sv_stores srv))))"

definition handleCreateOperation :: "('s, 't, 'raw) Server \<Rightarrow> body request \<Rightarrow> ('s, 't) handler" where [handler_defs]:
  "handleCreateOperation srv rq =
     with_body dec_name rq (\<lambda>name.
     respond (\<lambda>_. created (NameBody name)) (at_shared (CreateOperation (Stores_Shared (sv_stores srv)) name)))"

definition handleDeleteOperation :: "('s, 't, 'raw) Server \<Rightarrow> string \<Rightarrow> ('s, 't) handler" where [handler_defs]:
  "handleDeleteOperation srv name =
     respond no_content (at_shared (DeleteOperation (Stores_Shared (sv_stores srv)) name))"

definition handleListUsers :: "('s, 't, 'raw) Server \<Rightarrow> ('s, 't) handler" where [handler_defs]:
  "handleListUsers srv =
     respond (\<lambda>us. ok_json (UsersBody us)) (at_shared (ListUsers (Stores_Shared (sv_stores srv))))"

definition handleUserOperations :: "('s, 't, 'raw) Server \<Rightarrow> 't Tenant \<Rightarrow> string \<Rightarrow> string \<Rightarrow> ('s, 't) handler" where [handler_defs]:
  "handleUserOperations srv T tid user =
     respond (\<lambda>ops. ok_json (OperationsBody ops)) (at_tenant tid (onSnd (EffectiveOperations (sv_order srv) T user)))"

definition handleUserMetaOperations :: "('s, 't, 'raw) Server \<Rightarrow> 't Tenant \<Rightarrow> string \<Rightarrow> string \<Rightarrow> ('s, 't) handler" where [handler_defs]:
  "handleUserMetaOperations srv T tid user =
     respond (\<lambda>ops. ok_json (OperationsBody ops)) (at_tenant tid (onSnd (MetaOperations (sv_order srv) T user)))"

definition handleUserRoles :: "'t Tenant \<Rightarrow> string \<Rightarrow> string \<Rightarrow> ('s, 't) handler" where [handler_defs]:
  "handleUserRoles T tid user =
     respond (\<lambda>rs. ok_json (NamesBody rs)) (at_tenant tid (onSnd (UserRoles T user)))"

definition handleSetUserPermission :: "('s, 't, 'raw) Server \<Rightarrow> 't Tenant \<Rightarrow> string \<Rightarrow> string \<Rightarrow> string \<Rightarrow> body request \<Rightarrow> ('s, 't) handler" where [handler_defs]:
  "handleSetUserPermission srv T tid user p rq =
     with_body dec_scope rq (\<lambda>scope.
     respond no_content (at_tenant tid (SetUserPermission (Stores_Shared (sv_stores srv)) T user p scope)))"

definition handleRemoveUserPermission :: "'t Tenant \<Rightarrow> string \<Rightarrow> string \<Rightarrow> string \<Rightarrow> ('s, 't) handler" where [handler_defs]:
  "handleRemoveUserPermission T tid user p =
     respond no_content (at_tenant tid (onSnd (RemoveUserPermission T user p)))"

definition handleUserRestrictedIDs :: "'t Tenant \<Rightarrow> string \<Rightarrow> string \<Rightarrow> string \<Rightarrow> body request \<Rightarrow> ('s, 't) handler" where [handler_defs]:
  "handleUserRestrictedIDs T tid user p rq =
     with_body dec_restricted_ids rq (\<lambda>req.
     respond no_content (at_tenant tid (onSnd (UpdateUserRestrictedIDs T user p (Add req) (Remove req)))))"

definition handleListRoles :: "'t Tenant \<Rightarrow> string \<Rightarrow> ('s, 't) handler" where [handler_defs]:
  "handleListRoles T tid =
     respond (\<lambda>rs. ok_json (RolesBody rs)) (at_tenant tid (onSnd (ListRoles T)))"

definition handleGetRole :: "'t Tenant \<Rightarrow> string \<Rightarrow> string \<Rightarrow> ('s, 't) handler" where [handler_defs]:
  "handleGetRole T tid name =
     respond (\<lambda>ps. ok_json (RoleBody name ps)) (at_tenant tid (onSnd (RolePermissions T name)))"

definition handleCreateRole :: "'t Tenant \<Rightarrow> string \<Rightarrow> body request \<Rightarrow> ('s, 't) handler" where [handler_defs]:
  "handleCreateRole T tid rq =
     with_body dec_name rq (\<lambda>name.
     respond (\<lambda>_. created (NameBody name)) (at_tenant tid (onSnd (CreateRole T name))))"

definition handleRenameRole :: "'t Tenant \<Rightarrow> string \<Rightarrow> string \<Rightarrow> body request \<Rightarrow> ('s, 't) handler" where [handler_defs]:
  "handleRenameRole T tid name rq =
     with_body dec_name rq (\<lambda>newName.
     respond (\<lambda>_. ok_json (NameBody newName)) (at_tenant tid (onSnd (RenameRole T name newName))))"

definition handleDeleteRole :: "'t Tenant \<Rightarrow> string \<Rightarrow> string \<Rightarrow> ('s, 't) handler" where [handler_defs]:
  "handleDeleteRole T tid name =
     respond no_content (at_tenant tid (onSnd (DeleteRole T name)))"

definition handleAssignRole :: "('s, 't, 'raw) Server \<Rightarrow> 't Tenant \<Rightarrow> string \<Rightarrow> string \<Rightarrow> string \<Rightarrow> ('s, 't) handler" where [handler_defs]:
  "handleAssignRole srv T tid name user =
     respond no_content (at_tenant tid (AssignRole (Stores_Shared (sv_stores srv)) T user name))"

definition handleUnassignRole :: "'t Tenant \<Rightarrow> string \<Rightarrow> string \<Rightarrow> string \<Rightarrow> ('s, 't) handler" where [handler_defs]:
  "handleUnassignRole T tid name user =
     respond no_content (at_tenant tid (onSnd (UnassignRole T user name)))"

definition handleSetRolePermission :: "('s, 't, 'raw) Server \<Rightarrow> 't Tenant \<Rightarrow> string \<Rightarrow> string \<Rightarrow> string \<Rightarrow> body request \<Rightarrow> ('s, 't) handler" where [handler_defs]:
  "handleSetRolePermission srv T tid name p rq =
     with_body dec_scope rq (\<lambda>scope.
     respond no_content (at_tenant tid (SetRolePermission (Stores_Shared (sv_stores srv)) T name p scope)))"

definition handleRemoveRolePermission :: "'t Tenant \<Rightarrow> string \<Rightarrow> string \<Rightarrow> string \<Rightarrow> ('s, 't) handler" where [handler_defs]:
  "handleRemoveRolePermission T tid name p =
     respond no_content (at_tenant tid (onSnd (RemoveRolePermission T name p)))"

definition handleRoleRestrictedIDs :: "'t Tenant \<Rightarrow> string \<Rightarrow> string \<Rightarrow> string \<Rightarrow> body request \<Rightarrow> ('s, 't) handler" where [handler_defs]:
  "handleRoleRestrictedIDs T tid name p rq =
     with_body dec_restricted_ids rq (\<lambda>req.
     respond no_content (at_tenant tid (onSnd (UpdateRoleRestrictedIDs T name p (Add req) (Remove req)))))"

text \<open>The handler of each route.\<close>

fun endpoint :: "('s, 't, 'raw) Server \<Rightarrow> route \<Rightarrow> 't Tenant \<Rightarrow> string \<Rightarrow> string \<Rightarrow> body request \<Rightarrow> ('s, 't) handler" where
  "endpoint srv Healthz T tid sub rq = answer (ok_json StatusOK)"
| "endpoint srv MyOperations T tid sub rq = handleMyOperations srv T tid sub"
| "endpoint srv MyMetaOperations T tid sub rq = handleMyMetaOperations srv T tid sub"
| "endpoint srv MyRecordIDs T tid sub rq = handleMyRecordIDs T tid sub rq"
| "endpoint srv GetResources T tid sub rq = handleListResources srv"
| "endpoint srv PostResource T tid sub rq = handleCreateResource srv rq"
| "endpoint srv (DeleteResource_r name) T tid sub rq = handleDeleteResource srv name"
| "endpoint srv GetOperations T tid sub rq = handleListOperations srv"
| "endpoint srv PostOperation T tid sub rq = handleCreateOperation srv rq"
| "endpoint srv (DeleteOperation_r name) T tid sub rq = handleDeleteOperation srv name"
| "endpoint srv GetUsers T tid sub rq = handleListUsers srv"
| "endpoint srv (GetUserOperations user) T tid sub rq = handleUserOperations srv T tid user"
| "endpoint srv (GetUserMetaOperations user) T tid sub rq = handleUserMetaOperations srv T tid user"
| "endpoint srv (GetUserRoles user) T tid sub rq = handleUserRoles T tid user"
| "endpoint srv (PutUserPermission user p) T tid sub rq = handleSetUserPermission srv T tid user p rq"
| "endpoint srv (DeleteUserPermission user p) T tid sub rq = handleRemoveUserPermission T tid user p"
| "endpoint srv (PostUserIDs user p) T tid sub rq = handleUserRestrictedIDs T tid user p rq"
| "endpoint srv GetRoles T tid sub rq = handleListRoles T tid"
| "endpoint srv (GetRole_r name) T tid sub rq = handleGetRole T tid name"
| "endpoint srv PostRole T tid sub rq = handleCreateRole T tid rq"
| "endpoint srv (PutRole name) T tid sub rq = handleRenameRole T tid name rq"
| "endpoint srv (DeleteRole_r name) T tid sub rq = handleDeleteRole T tid name"
| "endpoint srv (PostAssignment name user) T tid sub rq = handleAssignRole srv T tid name user"
| "endpoint srv (DeleteAssignment name user) T tid sub rq = handleUnassignRole T tid name user"
| "endpoint srv (PutRolePermission name p) T tid sub rq = handleSetRolePermission srv T tid name p rq"
| "endpoint srv (DeleteRolePermission name p) T tid sub rq = handleRemoveRolePermission T tid name p"
| "endpoint srv (PostRoleIDs name p) T tid sub rq = handleRoleRestrictedIDs T tid name p rq"
| "endpoint srv PostSync T tid sub rq = handleSync srv"

section \<open>The middlewares\<close>

text \<open>The caller is authenticated and provisioned before anything else is looked at.\<close>

definition withAuth :: "('s, 't, 'raw) Server \<Rightarrow> body request \<Rightarrow> (string \<Rightarrow> ('s, 't) handler) \<Rightarrow> ('s, 't) handler" where
  "withAuth srv rq next = (case sv_authn srv rq of
     Inl _ \<Rightarrow> answer (writeError 401)
   | Inr sub \<Rightarrow> (\<lambda>w. case at_shared (EnsureUser (Stores_Shared (sv_stores srv)) sub) w of
         (Inl _, w1) \<Rightarrow> (writeError 500, w1)
       | (Inr _, w1) \<Rightarrow> next sub w1))"

definition withTenant :: "('s, 't, 'raw) Server \<Rightarrow> body request \<Rightarrow> (string \<Rightarrow> 't Tenant \<Rightarrow> ('s, 't) handler) \<Rightarrow> ('s, 't) handler" where
  "withTenant srv rq next =
     (let tid = rq_header rq HeaderTenantID in
      if tid = '''' then answer (writeError 400)
      else (case Stores_Tenant (sv_stores srv) tid of
              None \<Rightarrow> answer (writeError 404)
            | Some T \<Rightarrow> next tid T))"

fun requireMeta :: "'t Tenant \<Rightarrow> string \<Rightarrow> string \<Rightarrow> string list \<Rightarrow> ('s, 't) handler \<Rightarrow> ('s, 't) handler" where
  "requireMeta T tid sub [] next = next"
| "requireMeta T tid sub (op # ops) next = (\<lambda>w.
     case at_tenant tid (onSnd (Authorize T sub op)) w of
       (Inl _, w1) \<Rightarrow> (writeError 500, w1)
     | (Inr allowed, w1) \<Rightarrow>
         if \<not> allowed then (writeError 403, w1) else requireMeta T tid sub ops next w1)"

text \<open>The routing table: \<^verbatim>\<open>/healthz\<close> is outside the middlewares.\<close>

definition serve :: "('s, 't, 'raw) Server \<Rightarrow> route \<Rightarrow> body request \<Rightarrow> ('s, 't) handler" where
  "serve srv rt rq = (if rt = Healthz then answer (ok_json StatusOK)
     else withAuth srv rq (\<lambda>sub. withTenant srv rq (\<lambda>tid T.
          requireMeta T tid sub (required rt) (endpoint srv rt T tid sub rq))))"

end
