(* ===== verification/ApiCorrect.thy ===== *)
theory ApiCorrect
  imports Api
begin

text \<open>
  The server is correct on every pair of stores that keeps the contracts: it answers each
  request as the same server on the specification stores does and ends in the corresponding
  state (\<open>serve_same\<close>), and on the specification stores the outcome of the middlewares is a
  decision on the permissions of the caller (\<open>serve_decision\<close>).
\<close>

section \<open>The specification stores keep the contract\<close>

lemma refines_self:
  "(\<And>s. iv s \<Longrightarrow> iv (snd (m s))) \<Longrightarrow> (\<And>s x. iv s \<Longrightarrow> fst (m s) = Inr x \<Longrightarrow> R x x) \<Longrightarrow> refinesR iv id R m m"
proof (rule refinesRI)
  fix s assume iv: "\<And>s. iv s \<Longrightarrow> iv (snd (m s))" and R: "\<And>s x. iv s \<Longrightarrow> fst (m s) = Inr x \<Longrightarrow> R x x" and s: "iv s"
  show "refines_at iv id R m m s" using iv[OF s] R[OF s] by (cases "fst (m s)") (auto simp: refines_at_def)
qed

lemma finite_shared_spec:
  "finite_shared s \<Longrightarrow> finite_shared (snd (spec_EnsureUser sub s))"
  "finite_shared s \<Longrightarrow> finite_shared (snd (spec_ListUsers s))"
  "finite_shared s \<Longrightarrow> finite_shared (snd (spec_CreateResource name s))"
  "finite_shared s \<Longrightarrow> finite_shared (snd (spec_EnsureResource name s))"
  "finite_shared s \<Longrightarrow> finite_shared (snd (spec_DeleteResource name s))"
  "finite_shared s \<Longrightarrow> finite_shared (snd (spec_ListResources s))"
  "finite_shared s \<Longrightarrow> finite_shared (snd (spec_CreateOperation p r s))"
  "finite_shared s \<Longrightarrow> finite_shared (snd (spec_EnsureOperation p r s))"
  "finite_shared s \<Longrightarrow> finite_shared (snd (spec_DeleteOperation p s))"
  "finite_shared s \<Longrightarrow> finite_shared (snd (spec_ListOperations s))"
  "finite_shared s \<Longrightarrow> finite_shared (snd (spec_OperationExists p s))"
  by (auto simp: finite_shared_def spec_defs eff_simps intro!: finite_dom_delete)

lemma finite_tenant_spec:
  "finite_tenant t \<Longrightarrow> finite_tenant (snd (spec_CreateRole name t))"
  "finite_tenant t \<Longrightarrow> finite_tenant (snd (spec_EnsureRole name t))"
  "finite_tenant t \<Longrightarrow> finite_tenant (snd (spec_RoleExists name t))"
  "finite_tenant t \<Longrightarrow> finite_tenant (snd (spec_RenameRole name name' t))"
  "finite_tenant t \<Longrightarrow> finite_tenant (snd (spec_DeleteRole name t))"
  "finite_tenant t \<Longrightarrow> finite_tenant (snd (spec_ListRoles t))"
  "finite_tenant t \<Longrightarrow> finite_tenant (snd (spec_AssignRole sub name t))"
  "finite_tenant t \<Longrightarrow> finite_tenant (snd (spec_UnassignRole sub name t))"
  "finite_tenant t \<Longrightarrow> finite_tenant (snd (spec_UserRoles sub t))"
  "finite_tenant t \<Longrightarrow> finite_tenant (snd (spec_SetRolePermission name p sc t))"
  "finite_tenant t \<Longrightarrow> finite_tenant (snd (spec_RemoveRolePermission name p t))"
  "finite_tenant t \<Longrightarrow> finite_tenant (snd (spec_RolePermissions name t))"
  "finite_tenant t \<Longrightarrow> finite_tenant (snd (spec_HasRolePermission name p t))"
  "finite_tenant t \<Longrightarrow> finite_tenant (snd (spec_SetUserPermission sub p sc t))"
  "finite_tenant t \<Longrightarrow> finite_tenant (snd (spec_RemoveUserPermission sub p t))"
  "finite_tenant t \<Longrightarrow> finite_tenant (snd (spec_UserPermissions sub t))"
  "finite_tenant t \<Longrightarrow> finite_tenant (snd (spec_HasUserPermission sub p t))"
  "finite_tenant t \<Longrightarrow> finite_tenant (snd (spec_AddRoleRestrictedIDs name p ids t))"
  "finite_tenant t \<Longrightarrow> finite_tenant (snd (spec_RemoveRoleRestrictedIDs name p ids t))"
  "finite_tenant t \<Longrightarrow> finite_tenant (snd (spec_RoleRestrictedIDs names p t))"
  "finite_tenant t \<Longrightarrow> finite_tenant (snd (spec_AddUserRestrictedIDs sub p ids t))"
  "finite_tenant t \<Longrightarrow> finite_tenant (snd (spec_RemoveUserRestrictedIDs sub p ids t))"
  "finite_tenant t \<Longrightarrow> finite_tenant (snd (spec_UserRestrictedIDs sub p t))"
  "finite_tenant t \<Longrightarrow> finite_tenant (snd (spec_RoleGrants names t))"
  by (auto simp: finite_tenant_def spec_defs eff_simps rename_in_def)

interpretation reference: administration spec_shared finite_shared id spec_tenant finite_tenant id
proof unfold_locales
  fix roles :: "string list" and p :: string
  show "refinesR finite_tenant id same_elements (Tenant_RoleRestrictedIDs spec_tenant roles p) (spec_RoleRestrictedIDs roles p)"
    unfolding spec_tenant_simps
    by (rule refines_self) (auto simp: spec_defs eff_simps same_elements_def)
next
  fix sub p :: string
  show "refinesR finite_tenant id same_elements (Tenant_UserRestrictedIDs spec_tenant sub p) (spec_UserRestrictedIDs sub p)"
    unfolding spec_tenant_simps
    by (rule refines_self) (auto simp: spec_defs eff_simps same_elements_def)
next
  fix roles :: "string list"
  show "refinesR finite_tenant id same_slice (Tenant_UserRoles spec_tenant sub) (spec_UserRoles sub)" for sub
    unfolding spec_tenant_simps
    by (rule refines_self) (auto simp: spec_defs eff_simps)
next
  fix roles :: "string list"
  show "refinesR finite_tenant id permuted (Tenant_RoleGrants spec_tenant roles) (spec_RoleGrants roles)"
    unfolding spec_tenant_simps
    by (rule refines_self) (auto simp: spec_defs eff_simps permuted_def)
next
  fix t ids role p assume "finite_tenant t"
  then show "refines_at finite_tenant id (=) (Tenant_RemoveRoleRestrictedIDs spec_tenant role p ids)
      (spec_RemoveRoleRestrictedIDs role p ids) t"
    by (simp add: refines_at_def sum.rel_eq finite_tenant_spec)
next
  fix t ids role p assume "finite_tenant t"
  then show "finite_tenant (snd (Tenant_RemoveRoleRestrictedIDs spec_tenant role p ids t))
      \<and> id (snd (Tenant_RemoveRoleRestrictedIDs spec_tenant role p ids t)) = snd (spec_RemoveRoleRestrictedIDs role p ids (id t))
      \<and> fst (Tenant_RemoveRoleRestrictedIDs spec_tenant role p ids t) \<in> {Inr (), Inl ErrNotFound}"
    using spec_RemoveRoleRestrictedIDs_result by (simp add: finite_tenant_spec)
qed (simp_all, (rule refines_self; simp add: finite_shared_spec finite_tenant_spec)+)

text \<open>The queries on a specification tenant: their value, and that they do not change it.\<close>

lemma spec_queries:
  assumes "finite_tenant a" and "valid_scopes a"
  shows "Authorize spec_tenant sub p a = (Inr (effective a sub p = Some ScopeFull), a)"
    "EffectiveOperations it spec_tenant sub a = (Inr (list_permissions (effective a sub)), a)"
    "MetaOperations it spec_tenant sub a
       = (Inr (filter (\<lambda>os. IsMetaOperation (Operation os)) (list_permissions (effective a sub))), a)"
  using reference.Authorize_run[of a sub p] reference.EffectiveOperations_run[of a it sub]
    reference.MetaOperations_run[of a it sub] assms
  by (simp_all add: prod_eq_iff)

section \<open>Handlers on conforming stores\<close>

text \<open>
  One handler, \<open>handleUserRoles\<close>, writes a slice as the store returns it, so that no roles may be
  \<^verbatim>\<open>null\<close> with one store and \<^verbatim>\<open>[]\<close> with another. \<open>nil_as_empty\<close> reads the one as the other; the responses
  on other routes, and all errors, it leaves alone.
\<close>

definition nil_as_empty :: "route \<Rightarrow> response \<Rightarrow> response" where
  "nil_as_empty rt r = (case rt of
     GetUserRoles _ \<Rightarrow> (case payload r of NamesBody rs \<Rightarrow> r\<lparr>payload := NamesBody (Some (elems rs))\<rparr> | _ \<Rightarrow> r)
   | _ \<Rightarrow> r)"

lemma nil_as_empty_error [simp]:
  "nil_as_empty rt (writeError c) = writeError c" "nil_as_empty rt r = writeError c \<longleftrightarrow> r = writeError c"
  by (cases r; simp add: nil_as_empty_def writeError_def writeJSON_def split: route.split payload.split)+

lemma nil_as_empty_other: "(\<And>user. rt \<noteq> GetUserRoles user) \<Longrightarrow> nil_as_empty rt r = r"
  by (simp add: nil_as_empty_def split: route.split)

lemma nil_as_empty_status [simp]: "status (nil_as_empty rt r) = status r"
  by (simp add: nil_as_empty_def split: route.split payload.split)

text \<open>
  Two handlers answer alike from corresponding states, one's responses read by \<open>f\<close>, and end in
  corresponding states.
\<close>

definition answers_alike :: "('r \<Rightarrow> 'r) \<Rightarrow> ('w \<Rightarrow> bool) \<Rightarrow> ('w \<Rightarrow> 'v) \<Rightarrow> ('w \<Rightarrow> 'r \<times> 'w) \<Rightarrow> ('v \<Rightarrow> 'r \<times> 'v) \<Rightarrow> bool" where
  "answers_alike f iv \<alpha> h h' \<longleftrightarrow> (\<forall>w. iv w \<longrightarrow>
     f (fst (h w)) = fst (h' (\<alpha> w)) \<and> \<alpha> (snd (h w)) = snd (h' (\<alpha> w)) \<and> iv (snd (h w)))"

lemma answers_alikeD:
  assumes "answers_alike f iv \<alpha> h h'" and "iv w"
  shows "f (fst (h w)) = fst (h' (\<alpha> w))" "\<alpha> (snd (h w)) = snd (h' (\<alpha> w))" "iv (snd (h w))"
  using assms by (simp_all add: answers_alike_def del: split_paired_All)

lemma answers_alikeI:
  assumes "\<And>w. iv w \<Longrightarrow> f (fst (h w)) = fst (h' (\<alpha> w)) \<and> \<alpha> (snd (h w)) = snd (h' (\<alpha> w)) \<and> iv (snd (h w))"
  shows "answers_alike f iv \<alpha> h h'"
  using assms by (simp add: answers_alike_def del: split_paired_All)

lemma answer_alike: "f r = r' \<Longrightarrow> answers_alike f iv \<alpha> (answer r) (answer r')"
  by (rule answers_alikeI) (simp add: answer_def)

text \<open>A handler that runs an operation, then continues with a handler that depends on the result.\<close>

lemma run_then_alike:
  assumes m: "refinesR iv \<alpha> R m sp" and e: "\<And>e. f (err e) = err e"
    and h: "\<And>x y. R x y \<Longrightarrow> answers_alike f iv \<alpha> (h x) (g y)"
  shows "answers_alike f iv \<alpha> (\<lambda>w. case m w of (Inl e, w1) \<Rightarrow> (err e, w1) | (Inr x, w1) \<Rightarrow> h x w1)
     (\<lambda>w. case sp w of (Inl e, w1) \<Rightarrow> (err e, w1) | (Inr x, w1) \<Rightarrow> g x w1)"
proof (rule answers_alikeI)
  fix w assume w: "iv w"
  obtain r w1 where run: "m w = (r, w1)" by (cases "m w")
  obtain r' a where sp: "sp (\<alpha> w) = (r', a)" by (cases "sp (\<alpha> w)")
  note D = refinesRD[OF m w, unfolded run sp fst_conv snd_conv]
  show "f (fst (case m w of (Inl e, w1) \<Rightarrow> (err e, w1) | (Inr x, w1) \<Rightarrow> h x w1))
      = fst (case sp (\<alpha> w) of (Inl e, w1) \<Rightarrow> (err e, w1) | (Inr x, w1) \<Rightarrow> g x w1)
    \<and> \<alpha> (snd (case m w of (Inl e, w1) \<Rightarrow> (err e, w1) | (Inr x, w1) \<Rightarrow> h x w1))
      = snd (case sp (\<alpha> w) of (Inl e, w1) \<Rightarrow> (err e, w1) | (Inr x, w1) \<Rightarrow> g x w1)
    \<and> iv (snd (case m w of (Inl e, w1) \<Rightarrow> (err e, w1) | (Inr x, w1) \<Rightarrow> h x w1))"
  proof (cases r)
    case (Inl e)
    then show ?thesis using D by (cases r') (simp_all add: run sp assms(2))
  next
    case (Inr x)
    then obtain y where y: "r' = Inr y" "R x y" using D(1) by (cases r') auto
    then show ?thesis using answers_alikeD[OF h[OF y(2)] D(3)] D(2) Inr by (simp add: run sp)
  qed
qed

lemma respond_alike_R:
  assumes "refinesR iv \<alpha> R m sp" and "\<And>x y. R x y \<Longrightarrow> nil_as_empty rt (ok x) = ok y"
  shows "answers_alike (nil_as_empty rt) iv \<alpha> (respond ok m) (respond ok sp)"
proof -
  have "answers_alike (nil_as_empty rt) iv \<alpha> (\<lambda>w. (ok x, w)) (\<lambda>w. (ok y, w))" if "R x y" for x y
    using answer_alike[of "nil_as_empty rt" "ok x" "ok y" iv \<alpha>] assms(2)[OF that] by (simp add: answer_def)
  from run_then_alike[where f = "nil_as_empty rt" and err = "\<lambda>e. writeError (httpStatus e)", OF assms(1) _ this]
  show ?thesis by (simp add: respond_def)
qed

lemma respond_alike:
  "refines iv \<alpha> m sp \<Longrightarrow> (\<And>x. nil_as_empty rt (ok x) = ok x)
   \<Longrightarrow> answers_alike (nil_as_empty rt) iv \<alpha> (respond ok m) (respond ok sp)"
  by (rule respond_alike_R[where R = "(=)"]) auto

lemma with_body_alike:
  "(\<And>x. answers_alike (nil_as_empty rt) iv \<alpha> (h x) (h' x))
   \<Longrightarrow> answers_alike (nil_as_empty rt) iv \<alpha> (with_body dec rq h) (with_body dec rq h')"
  by (auto simp: with_body_def answer_alike split: sum.splits)

section \<open>The server on conforming stores\<close>

definition reference_server :: "('s, 't, 'raw) Server \<Rightarrow> (sharedA, tenantA, 'raw) Server" where
  "reference_server srv = \<lparr>sv_files = sv_files srv, sv_stores = reference_stores (sv_stores srv),
     sv_authn = sv_authn srv, sv_glob = sv_glob srv, sv_readFile = sv_readFile srv,
     sv_unmarshal = sv_unmarshal srv, sv_order = sv_order srv, sv_orders = sv_orders srv\<rparr>"

lemma reference_server_simps [simp]:
  "sv_files (reference_server srv) = sv_files srv"
  "sv_stores (reference_server srv) = reference_stores (sv_stores srv)"
  "sv_authn (reference_server srv) = sv_authn srv" "sv_glob (reference_server srv) = sv_glob srv"
  "sv_readFile (reference_server srv) = sv_readFile srv"
  "sv_unmarshal (reference_server srv) = sv_unmarshal srv"
  "sv_order (reference_server srv) = sv_order srv" "sv_orders (reference_server srv) = sv_orders srv"
  by (simp_all add: reference_server_def)

text \<open>The states a server is in: both stores in order, and the system invariant.\<close>

definition good_world :: "('s \<Rightarrow> bool) \<Rightarrow> ('t \<Rightarrow> bool) \<Rightarrow> ('s \<Rightarrow> sharedA) \<Rightarrow> ('t \<Rightarrow> tenantA)
    \<Rightarrow> ('s, 't) world \<Rightarrow> bool" where
  "good_world ivS ivT abS abT w \<longleftrightarrow> all_inv ivS ivT w \<and> world_consistent (all_abs abS abT w)"

context administration
begin

abbreviation good where "good \<equiv> good_world invS invT absS absT"

lemma good_refines:
  assumes "refinesR invW absW R m sp" and "world_step sp"
  shows "refinesR good absW R m sp"
proof (rule refinesRI)
  fix w assume w: "good w"
  note D = refinesRD[OF assms(1), of w]
  show "refines_at good absW R m sp w"
    using D w world_stepD[OF assms(2), of "absW w"] by (simp add: good_world_def refines_at_def)
qed

lemma good_shared:
  "refinesR invS absS R m sp \<Longrightarrow> shared_step sp \<Longrightarrow> refinesR good absW R (at_shared m) (at_shared sp)"
  by (intro good_refines refines_at_shared world_at_shared)

lemma good_both:
  "refinesR invP absP R m sp \<Longrightarrow> consistent_step sp \<Longrightarrow> refinesR good absW R (at_tenant tid m) (at_tenant tid sp)"
  by (intro good_refines refines_at_tenant world_at_tenant)

lemma good_tenant:
  "refinesR invT absT R m sp \<Longrightarrow> tenant_step sp \<Longrightarrow> refinesR good absW R (at_tenant tid (onSnd m)) (at_tenant tid (onSnd sp))"
  by (intro good_both refines_onSnd consistent_onSnd)

lemma good_tenantD:
  assumes "good w"
  shows "invT (snd w tid)" "tenant_ok (absT (snd w tid))" "invW w"
  using assms all_invD[of invS invT w] by (simp_all add: good_world_def world_consistent_def consistent_def)

text \<open>A query of one tenant that answers as the query of the specification does.\<close>

lemma good_query:
  assumes "\<And>t. invT t \<Longrightarrow> tenant_ok (absT t) \<Longrightarrow>
      fst (m t) = fst (sp (absT t)) \<and> snd (sp (absT t)) = absT t \<and> absT (snd (m t)) = absT t \<and> invT (snd (m t))"
  shows "refines good absW (at_tenant tid (onSnd m)) (at_tenant tid (onSnd sp))"
proof (rule refinesI)
  fix w assume w: "good w"
  obtain s ts where st: "w = (s, ts)" by (cases w)
  obtain r t1 where m: "m (ts tid) = (r, t1)" by (cases "m (ts tid)")
  obtain r' t2 where sp: "sp (absT (ts tid)) = (r', t2)" by (cases "sp (absT (ts tid))")
  have q: "r = r'" "t2 = absT (ts tid)" "absT t1 = absT (ts tid)" "invT t1"
    using assms[OF good_tenantD(1,2)[OF w, of tid]] by (simp_all add: st m sp)
  have same: "(\<lambda>x. absT ((ts(tid := t1)) x)) = (\<lambda>x. absT (ts x))" using q(3) by (simp add: fun_eq_iff)
  show "fst (at_tenant tid (onSnd m) w) = fst (at_tenant tid (onSnd sp) (absW w))"
    "absW (snd (at_tenant tid (onSnd m) w)) = snd (at_tenant tid (onSnd sp) (absW w))"
    using q same by (simp_all add: st at_tenant_def onSnd_apply m sp fun_eq_iff)
  show "good (snd (at_tenant tid (onSnd m) w))"
    using w q same by (simp add: good_world_def st at_tenant_def onSnd_apply m)
qed

lemma Authorize_good:
  "refines good absW (at_tenant tid (onSnd (Authorize T sub p))) (at_tenant tid (onSnd (Authorize spec_tenant sub p)))"
  by (rule good_query) (simp add: Authorize_run spec_queries tenant_okD(1,2))

lemma EffectiveOperations_good:
  "refines good absW (at_tenant tid (onSnd (EffectiveOperations it T sub)))
     (at_tenant tid (onSnd (EffectiveOperations it spec_tenant sub)))"
  by (rule good_query) (simp add: EffectiveOperations_run spec_queries tenant_okD(1,2))

lemma MetaOperations_good:
  "refines good absW (at_tenant tid (onSnd (MetaOperations it T sub)))
     (at_tenant tid (onSnd (MetaOperations it spec_tenant sub)))"
  by (rule good_query) (simp add: MetaOperations_run spec_queries tenant_okD(1,2))

lemma RecordIDs_good:
  "refines good absW (at_tenant tid (onSnd (RecordIDs T sub ps))) (at_tenant tid (onSnd (RecordIDs spec_tenant sub ps)))"
proof (rule good_query)
  fix t assume t: "invT t" "tenant_ok (absT t)"
  note fin = tenant_okD(1,2)[OF t(2)]
  obtain out t1 where m: "RecordIDs T sub ps t = (Inr out, t1)" "invT t1" "absT t1 = absT t"
    "\<And>p. fmlookup out p = (if p \<in> set ps \<and> effective (absT t) sub p = Some ScopeRestricted
       then Some (sorted_list_of_set (accessible (absT t) sub p)) else None)"
    using RecordIDs_run[OF t(1) fin(2)] by metis
  obtain out' a where sp: "RecordIDs spec_tenant sub ps (absT t) = (Inr out', a)" "a = absT t"
    "\<And>p. fmlookup out' p = (if p \<in> set ps \<and> effective (absT t) sub p = Some ScopeRestricted
       then Some (sorted_list_of_set (accessible (absT t) sub p)) else None)"
    using reference.RecordIDs_run[where t = "absT t" and ps = ps and sub = sub] fin by (metis id_apply)
  have "out = out'" by (rule fmap_ext) (simp add: m(4) sp(3))
  then show "fst (RecordIDs T sub ps t) = fst (RecordIDs spec_tenant sub ps (absT t))
     \<and> snd (RecordIDs spec_tenant sub ps (absT t)) = absT t
     \<and> absT (snd (RecordIDs T sub ps t)) = absT t \<and> invT (snd (RecordIDs T sub ps t))"
    using m sp by simp
qed

lemma endpoint_alike:
  assumes "serves S T tids (sv_stores srv)"
  shows "answers_alike (nil_as_empty rt) good absW
    (endpoint srv rt T tid sub rq) (endpoint (reference_server srv) rt spec_tenant tid sub rq)"
proof -
  note S = servesD(1)[OF assms]
  have sync: "answers_alike (nil_as_empty PostSync) good absW (handleSync srv) (handleSync (reference_server srv))"
    unfolding handleSync_def
    by (auto simp: answer_alike nil_as_empty_def split: sum.splits
        intro!: respond_alike good_refines Sync_refines[OF assms] Sync_step[OF reference_serves[OF assms]])
  have ids: "answers_alike (nil_as_empty MyRecordIDs) good absW
      (handleMyRecordIDs T tid sub rq) (handleMyRecordIDs spec_tenant tid sub rq)"
    by (auto simp: handleMyRecordIDs_def Let_def answer_alike nil_as_empty_def intro!: respond_alike RecordIDs_good)
  have roles: "answers_alike (nil_as_empty (GetUserRoles user)) good absW
      (handleUserRoles T tid user) (handleUserRoles spec_tenant tid user)" for user
    unfolding handleUserRoles_def
  proof (rule respond_alike_R)
    show "refinesR good absW same_slice (at_tenant tid (onSnd (UserRoles T user))) (at_tenant tid (onSnd (UserRoles spec_tenant user)))"
      by (intro good_tenant tenant_admin_refines tenant_steps)
  qed (auto simp: nil_as_empty_def writeJSON_def same_slice_def)
  show ?thesis
  proof (cases "\<exists>user. rt = GetUserRoles user")
    case True
    then show ?thesis using roles by auto
  next
    case False
    then show ?thesis
      by (cases rt)
        (auto simp: handler_defs S answer_alike sync ids nil_as_empty_def
          intro!: respond_alike with_body_alike good_shared good_both good_tenant EffectiveOperations_good
            MetaOperations_good shared_admin_refines tenant_admin_refines both_admin_refines
            shared_steps tenant_steps AssignRole_step SetRolePermission_step SetUserPermission_step)
  qed
qed

lemma requireMeta_alike:
  assumes "answers_alike (nil_as_empty rt) good absW h h'"
  shows "answers_alike (nil_as_empty rt) good absW (requireMeta T tid sub ops h) (requireMeta spec_tenant tid sub ops h')"
proof (induction ops)
  case Nil
  show ?case using assms by simp
next
  case (Cons p ops)
  have "answers_alike (nil_as_empty rt) good absW
      (\<lambda>w. if \<not> allowed then (writeError 403, w) else requireMeta T tid sub ops h w)
      (\<lambda>w. if \<not> allowed' then (writeError 403, w) else requireMeta spec_tenant tid sub ops h' w)"
    if "allowed = allowed'" for allowed allowed'
    using Cons.IH answer_alike[of "nil_as_empty rt" "writeError 403" "writeError 403" good absW] that
    by (cases allowed) (simp_all add: answer_def)
  from run_then_alike[where f = "nil_as_empty rt" and err = "\<lambda>_. writeError 500", OF Authorize_good _ this]
  show ?case by simp
qed

theorem serve_alike:
  assumes serves: "serves S T tids (sv_stores srv)"
  shows "answers_alike (nil_as_empty rt) good absW (serve srv rt rq) (serve (reference_server srv) rt rq)"
proof -
  have tenant: "answers_alike (nil_as_empty rt) good absW
      (withTenant srv rq (\<lambda>tid T. requireMeta T tid sub (required rt) (endpoint srv rt T tid sub rq)))
      (withTenant (reference_server srv) rq
        (\<lambda>tid T. requireMeta T tid sub (required rt) (endpoint (reference_server srv) rt T tid sub rq)))" for sub
    by (auto simp: withTenant_def Let_def answer_alike servesD(2)[OF serves]
        intro!: requireMeta_alike endpoint_alike[OF serves])
  have user: "refines good absW (at_shared (EnsureUser S sub)) (at_shared (EnsureUser spec_shared sub))" for sub
    by (intro good_shared shared_admin_refines shared_steps)
  have "answers_alike (nil_as_empty rt) good absW (withAuth srv rq h) (withAuth (reference_server srv) rq h')"
    if "\<And>sub. answers_alike (nil_as_empty rt) good absW (h sub) (h' sub)" for h h'
    using run_then_alike[where f = "nil_as_empty rt" and err = "\<lambda>_. writeError 500", OF user _ that]
    by (auto simp: withAuth_def answer_alike servesD(1)[OF serves] split: sum.splits)
  from this[OF tenant] show ?thesis by (auto simp: serve_def nil_as_empty_def intro: answer_alike)
qed

end

section \<open>The decision of the middlewares\<close>

fun provision :: "string \<Rightarrow> (sharedA, tenantA) world \<Rightarrow> (sharedA, tenantA) world" where
  "provision sub (s, ts) = (s\<lparr>aUsers := insert sub (aUsers s)\<rparr>, ts)"

definition permitted :: "tenantA \<Rightarrow> string \<Rightarrow> string list \<Rightarrow> bool" where
  "permitted a sub ops \<longleftrightarrow> (\<forall>p \<in> set ops. effective a sub p = Some ScopeFull)"

text \<open>
  What the server decides before a handler runs: \<open>Inl\<close> an error status and the state it leaves,
  or \<open>Inr\<close> the caller and the tenant the handler runs for. Whoever is authenticated is
  provisioned, also when the request is then rejected.
\<close>

definition decide :: "string set \<Rightarrow> body Authenticate \<Rightarrow> route \<Rightarrow> body request \<Rightarrow> (sharedA, tenantA) world
    \<Rightarrow> nat + string \<times> string" where
  "decide tids authn rt rq a =
     (case authn rq of
        Inl _ \<Rightarrow> Inl 401
      | Inr sub \<Rightarrow>
          (let tid = rq_header rq HeaderTenantID in
           if tid = '''' then Inl 400
           else if tid \<notin> tids then Inl 404
           else if \<not> permitted (snd a tid) sub (required rt) then Inl 403
           else Inr (sub, tid)))"

definition provisioned_by :: "body Authenticate \<Rightarrow> body request \<Rightarrow> (sharedA, tenantA) world \<Rightarrow> (sharedA, tenantA) world" where
  "provisioned_by authn rq a = (case authn rq of Inl _ \<Rightarrow> a | Inr sub \<Rightarrow> provision sub a)"

lemma provision_tenants [simp]: "snd (provision sub a) = snd a"
  by (cases a) simp

lemma provision_consistent:
  assumes "world_consistent a" and "sub \<noteq> ''''"
  shows "world_consistent (provision sub a)"
proof -
  have "aUsers (fst a) \<subseteq> aUsers (fst (provision sub a))" by (cases a) auto
  then show ?thesis using assms
    by (cases a) (auto simp: world_consistent_def consistent_def shared_ok_insert_user intro: provisioned_mono)
qed

lemma requireMeta_spec:
  assumes "world_consistent a"
  shows "requireMeta spec_tenant tid sub ops h a
     = (if permitted (snd a tid) sub ops then h a else (writeError 403, a))"
proof (induction ops)
  case Nil
  show ?case by (simp add: permitted_def)
next
  case (Cons p ops)
  have ok: "finite_tenant (snd a tid)" "valid_scopes (snd a tid)"
    using assms by (simp_all add: world_consistent_def consistent_def tenant_okD(1,2))
  have "at_tenant tid (onSnd (Authorize spec_tenant sub p)) a
      = (Inr (effective (snd a tid) sub p = Some ScopeFull), a)"
    using ok by (cases a) (simp add: at_tenant_def onSnd_apply spec_queries)
  then show ?case using Cons by (auto simp: permitted_def)
qed

theorem serve_spec:
  assumes stores: "spec_stores tids (sv_stores srv)" and a: "world_consistent a"
    and authn: "authenticator (sv_authn srv)" and rt: "rt \<noteq> Healthz"
  shows "serve srv rt rq a = (case decide tids (sv_authn srv) rt rq a of
      Inl code \<Rightarrow> (writeError code, provisioned_by (sv_authn srv) rq a)
    | Inr (sub, tid) \<Rightarrow> endpoint srv rt spec_tenant tid sub rq (provision sub a))"
proof (cases rule: authenticator.authn_cases[OF authn, of rq])
  case 1
  then show ?thesis using rt
    by (simp add: serve_def withAuth_def decide_def provisioned_by_def answer_def)
next
  case (2 sub)
  have user: "at_shared (EnsureUser spec_shared sub) a = (Inr (), provision sub a)"
    using 2(2) by (cases a) (simp add: at_shared_def onFst_apply EnsureUser_def spec_defs eff_simps)
  show ?thesis
    using rt 2 user provision_consistent[OF a 2(2)]
    by (simp add: serve_def withAuth_def withTenant_def servesD[OF stores] decide_def provisioned_by_def
        answer_def Let_def requireMeta_spec)
qed

section \<open>Which routes change what\<close>

text \<open>The routes with the method \<^verbatim>\<open>GET\<close>.\<close>

fun reads :: "route \<Rightarrow> bool" where
  "reads Healthz = True"
| "reads MyOperations = True"
| "reads MyRecordIDs = True"
| "reads MyMetaOperations = True"
| "reads GetResources = True"
| "reads GetOperations = True"
| "reads GetUsers = True"
| "reads (GetUserOperations _) = True"
| "reads (GetUserMetaOperations _) = True"
| "reads (GetUserRoles _) = True"
| "reads GetRoles = True"
| "reads (GetRole_r _) = True"
| "reads _ = False"

lemma at_tenant_query: "sp (ts tid) = (r, ts tid) \<Longrightarrow> at_tenant tid (onSnd sp) (s, ts) = (r, (s, ts))"
  by (simp add: at_tenant_def onSnd_apply)

lemma respond_state [simp]: "snd (respond ok m w) = snd (m w)"
  by (simp add: respond_def split: prod.splits sum.splits)

lemma answer_state [simp]: "snd (answer r w) = w"
  by (simp add: answer_def)

lemma RecordIDs_spec_state:
  assumes "finite_tenant a" and "valid_scopes a"
  shows "snd (RecordIDs spec_tenant sub ps a) = a"
  using reference.RecordIDs_run[where t = a and ps = ps and sub = sub] assms
  by (metis id_apply snd_conv)

lemma RecordIDs_spec_total:
  assumes "finite_tenant a" and "valid_scopes a"
  shows "\<exists>out. fst (RecordIDs spec_tenant sub ps a) = Inr out"
proof -
  obtain out a1 where "RecordIDs spec_tenant sub ps a = (Inr out, a1)"
    using reference.RecordIDs_run[where t = a and ps = ps and sub = sub] assms by (metis id_apply)
  then show ?thesis by simp
qed

lemma at_tenant_state:
  "snd (at_tenant tid (onSnd m) w) = (fst w, (snd w)(tid := snd (m (snd w tid))))"
  by (cases w) (simp add: at_tenant_def onSnd_apply)

lemma endpoint_reads:
  assumes "world_consistent a" and "reads rt" and stores: "spec_stores tids (sv_stores srv)"
  shows "snd (endpoint srv rt spec_tenant tid sub rq a) = a"
proof -
  have ok: "finite_tenant (snd a tid)" "valid_scopes (snd a tid)"
    using assms(1) by (simp_all add: world_consistent_def consistent_def tenant_okD(1,2))
  have shared: "snd (at_shared m a) = a" if "\<And>s. snd (m s) = s" for m :: "('b, sharedA) op"
    using that by (cases a) (simp add: at_shared_def onFst_apply)
  show ?thesis using assms(2)
    by (cases rt) (auto simp: handler_defs handleMyRecordIDs_def Let_def at_tenant_state ok spec_queries servesD(1)[OF stores] RecordIDs_spec_state admin_defs spec_defs eff_simps intro!: shared)
qed

section \<open>Isolation of tenants\<close>

text \<open>
  Whatever the stores do, a handler other than \<open>PostSync\<close> leaves the state of every tenant but
  the one of the request as it is.
\<close>

lemma at_tenant_isolated: "x \<noteq> tid \<Longrightarrow> snd (snd (at_tenant tid m w)) x = snd w x"
  by (cases w) (auto simp: at_tenant_def split: prod.splits)

lemma at_shared_isolated [simp]: "snd (snd (at_shared m w)) = snd w"
  by (simp add: at_shared_def onFst_apply)

lemma with_body_isolated:
  "(\<And>v. snd (snd (h v w)) x = snd w x) \<Longrightarrow> snd (snd (with_body dec rq h w)) x = snd w x"
  by (auto simp: with_body_def split: sum.splits)

lemma endpoint_isolated:
  assumes "rt \<noteq> PostSync" and "x \<noteq> tid"
  shows "snd (snd (endpoint srv rt T tid sub rq w)) x = snd w x"
  using assms
  by (cases rt) (auto simp: handler_defs handleMyRecordIDs_def Let_def at_tenant_isolated intro!: with_body_isolated)

lemma requireMeta_isolated:
  assumes "\<And>w. snd (snd (h w)) x = snd w x" and "x \<noteq> tid"
  shows "snd (snd (requireMeta T tid sub ops h w)) x = snd w x"
proof (induction ops arbitrary: w)
  case Nil
  show ?case using assms(1) by simp
next
  case (Cons p ops)
  obtain r w1 where run: "at_tenant tid (onSnd (Authorize T sub p)) w = (r, w1)"
    by (cases "at_tenant tid (onSnd (Authorize T sub p)) w")
  have "snd w1 x = snd w x"
    using at_tenant_isolated[OF assms(2), of "onSnd (Authorize T sub p)" w] by (simp add: run)
  then show ?case using Cons.IH[of w1] by (cases r) (simp_all add: run)
qed

theorem serve_isolated:
  assumes "rt \<noteq> PostSync" and "x \<noteq> rq_header rq HeaderTenantID"
  shows "snd (snd (serve srv rt rq w)) x = snd w x"
proof (cases "sv_authn srv rq")
  case (Inl e)
  then show ?thesis by (simp add: serve_def withAuth_def)
next
  case (Inr sub)
  let ?next = "withTenant srv rq (\<lambda>tid T. requireMeta T tid sub (required rt) (endpoint srv rt T tid sub rq))"
  obtain r w1 where run: "at_shared (EnsureUser (Stores_Shared (sv_stores srv)) sub) w = (r, w1)"
    by (cases "at_shared (EnsureUser (Stores_Shared (sv_stores srv)) sub) w")
  have w1: "snd w1 = snd w"
    using at_shared_isolated[of "EnsureUser (Stores_Shared (sv_stores srv)) sub" w] by (simp add: run)
  have "snd (snd (?next w1)) x = snd w1 x"
    using assms by (auto simp: withTenant_def Let_def intro!: requireMeta_isolated endpoint_isolated split: option.splits)
  then show ?thesis using w1 by (cases r) (auto simp: serve_def withAuth_def Inr run)
qed

section \<open>The server on any conforming stores\<close>

text \<open>
  The states a running server can be in: from the state after start-up, any sequence of requests.
  The file system, the YAML library's answers and the order of maps may differ from request to
  request, so each one is served by a server value of its own with the same stores and authenticator.
\<close>

inductive reachable :: "('s, 't, 'raw) Server \<Rightarrow> ('s, 't) world \<Rightarrow> ('s, 't) world \<Rightarrow> bool"
  for srv :: "('s, 't, 'raw) Server" and start where
  started: "reachable srv start start"
| served: "reachable srv start w \<Longrightarrow> sv_stores srv' = sv_stores srv \<Longrightarrow> sv_authn srv' = sv_authn srv
    \<Longrightarrow> reachable srv start (snd (serve (srv' :: ('s, 't, 'raw) Server) rt rq w))"

context administration
begin

lemma serve_good:
  assumes "serves S T tids (sv_stores srv)" and "good w"
  shows "good (snd (serve srv rt rq w))"
  by (rule answers_alikeD(3)[OF serve_alike[OF assms(1)] assms(2)])

lemma reachable_good:
  assumes "reachable srv start w" and "serves S T tids (sv_stores srv)" and "good start"
  shows "good w"
  using assms(1)
proof induction
  case started
  show ?case by (rule assms(3))
next
  case (served w srv' rt rq)
  then show ?case using serve_good[of tids srv'] assms(2) by simp
qed

text \<open>The outcome of a request, in terms of the decision and of the specification handler.\<close>

lemma serve_decision:
  assumes serves: "serves S T tids (sv_stores srv)" and w: "good w"
    and authn: "authenticator (sv_authn srv)" and rt: "rt \<noteq> Healthz"
  shows "decide tids (sv_authn srv) rt rq (absW w) = Inl code \<Longrightarrow>
      fst (serve srv rt rq w) = writeError code
      \<and> absW (snd (serve srv rt rq w)) = provisioned_by (sv_authn srv) rq (absW w)"
    and "decide tids (sv_authn srv) rt rq (absW w) = Inr (sub, tid) \<Longrightarrow>
      nil_as_empty rt (fst (serve srv rt rq w))
        = fst (endpoint (reference_server srv) rt spec_tenant tid sub rq (provision sub (absW w)))
      \<and> absW (snd (serve srv rt rq w))
        = snd (endpoint (reference_server srv) rt spec_tenant tid sub rq (provision sub (absW w)))"
proof -
  note same = answers_alikeD[OF serve_alike[OF serves] w, of rt rq]
  have "world_consistent (absW w)" using w by (simp add: good_world_def)
  note spec = serve_spec[OF _ this _ rt, of tids "reference_server srv" rq, simplified, OF reference_serves[OF serves] authn]
  show "decide tids (sv_authn srv) rt rq (absW w) = Inl code \<Longrightarrow>
      fst (serve srv rt rq w) = writeError code
      \<and> absW (snd (serve srv rt rq w)) = provisioned_by (sv_authn srv) rq (absW w)"
    using same spec by simp
  show "decide tids (sv_authn srv) rt rq (absW w) = Inr (sub, tid) \<Longrightarrow>
      nil_as_empty rt (fst (serve srv rt rq w))
        = fst (endpoint (reference_server srv) rt spec_tenant tid sub rq (provision sub (absW w)))
      \<and> absW (snd (serve srv rt rq w))
        = snd (endpoint (reference_server srv) rt spec_tenant tid sub rq (provision sub (absW w)))"
    using same spec by simp
qed

text \<open>Whoever changes more than the list of users was permitted to, on a route that writes.\<close>

lemma serve_change:
  assumes serves: "serves S T tids (sv_stores srv)" and w: "good w"
    and authn: "authenticator (sv_authn srv)"
    and change: "absW (snd (serve srv rt rq w)) \<noteq> provisioned_by (sv_authn srv) rq (absW w)"
      "absW (snd (serve srv rt rq w)) \<noteq> absW w"
  shows "\<exists>sub. sv_authn srv rq = Inr sub \<and> rq_header rq HeaderTenantID \<in> tids \<and> \<not> reads rt
     \<and> permitted (absT (snd w (rq_header rq HeaderTenantID))) sub (required rt)"
proof (cases "rt = Healthz")
  case True
  then show ?thesis using change(2) by (simp add: serve_def)
next
  case False
  note out = serve_decision[OF serves w authn False, of rq]
  show ?thesis
  proof (cases "decide tids (sv_authn srv) rt rq (absW w)")
    case (Inl code)
    then show ?thesis using out(1) change(1) by simp
  next
    case (Inr p)
    obtain sub tid where p: "p = (sub, tid)" by (cases p)
    have d: "sv_authn srv rq = Inr sub" "rq_header rq HeaderTenantID = tid" "tid \<in> tids"
        "permitted (snd (absW w) tid) sub (required rt)"
      using Inr p by (auto simp: decide_def Let_def split: sum.splits if_splits)
    have ne: "sub \<noteq> ''''" using authenticator.verified_subject[OF authn d(1)] .
    have "world_consistent (provision sub (absW w))"
      using w ne by (simp add: good_world_def provision_consistent)
    then have "\<not> reads rt"
      using change(1) out(2)[OF Inr[unfolded p]] d(1) endpoint_reads[OF _ _ , of "provision sub (absW w)" rt tids "reference_server srv"]
        reference_serves[OF serves]
      by (auto simp: provisioned_by_def)
    then show ?thesis using d by simp
  qed
qed

end

section \<open>No internal errors\<close>

text \<open>The errors a specification store returns are the three that the API has a status for.\<close>

definition client_errors :: "('b, 'w) op \<Rightarrow> bool" where
  "client_errors m \<longleftrightarrow> (\<forall>w. fst (m w) \<in> Inl ` {ErrNotFound, ErrConflict, ErrValidation} \<union> range Inr)"

lemma client_errors_shared: "client_errors m \<Longrightarrow> client_errors (at_shared m)"
  by (simp add: client_errors_def at_shared_def onFst_apply)

lemma client_errors_tenant: "client_errors m \<Longrightarrow> client_errors (at_tenant tid (onSnd m))"
  by (auto simp: client_errors_def at_tenant_def onSnd_apply)

lemma client_errors_both: "client_errors m \<Longrightarrow> client_errors (at_tenant tid m)"
proof -
  have "fst (at_tenant tid m (s, ts)) = fst (m (s, ts tid))" for s ts
    by (cases "m (s, ts tid)") (simp add: at_tenant_def)
  then show "client_errors m \<Longrightarrow> client_errors (at_tenant tid m)" by (simp add: client_errors_def)
qed

lemma client_errors_shared_ops:
  "client_errors (CreateResource spec_shared name)" "client_errors (DeleteResource spec_shared name)"
  "client_errors (ListResources spec_shared)" "client_errors (CreateOperation spec_shared name)"
  "client_errors (DeleteOperation spec_shared name)" "client_errors (ListOperations spec_shared)"
  "client_errors (ListUsers spec_shared)"
  by (auto simp: client_errors_def admin_defs spec_defs eff_simps Let_def)

lemma client_errors_tenant_ops:
  "client_errors (UserRoles spec_tenant sub)" "client_errors (RemoveUserPermission spec_tenant sub p)"
  "client_errors (ListRoles spec_tenant)" "client_errors (RolePermissions spec_tenant name)"
  "client_errors (CreateRole spec_tenant name)" "client_errors (RenameRole spec_tenant name name')"
  "client_errors (DeleteRole spec_tenant name)" "client_errors (UnassignRole spec_tenant sub name)"
  "client_errors (RemoveRolePermission spec_tenant name p)"
  "client_errors (UpdateRoleRestrictedIDs spec_tenant name p xs ys)"
  "client_errors (UpdateUserRestrictedIDs spec_tenant sub p xs ys)"
  by (auto simp: client_errors_def admin_defs spec_defs eff_simps)

lemma client_errors_both_ops:
  "client_errors (AssignRole spec_shared spec_tenant sub name)"
  "client_errors (SetRolePermission spec_shared spec_tenant name p sc)"
  "client_errors (SetUserPermission spec_shared spec_tenant sub p sc)"
  by (auto simp: client_errors_def AssignRole_spec SetRolePermission_spec SetUserPermission_spec)

definition ordinary :: "nat set" where "ordinary = {200, 201, 204, 400, 401, 403, 404, 409}"

lemma ordinary_codes [simp]:
  "200 \<in> ordinary" "201 \<in> ordinary" "204 \<in> ordinary" "400 \<in> ordinary" "401 \<in> ordinary"
  "403 \<in> ordinary" "404 \<in> ordinary" "409 \<in> ordinary"
  by (simp_all add: ordinary_def)

lemma status_simps [simp]: "status (writeJSON code v) = code" "status (writeError code) = code"
  by (simp_all add: writeJSON_def writeError_def)

lemma respond_ordinary:
  assumes "client_errors m" and "\<And>x. status (ok x) \<in> ordinary"
  shows "status (fst (respond ok m w)) \<in> ordinary"
proof -
  obtain r w1 where Pair: "m w = (r, w1)" by (cases "m w")
  have "r \<in> Inl ` {ErrNotFound, ErrConflict, ErrValidation} \<union> range Inr"
    using assms(1) Pair by (metis client_errors_def fst_conv)
  then show ?thesis using assms(2) Pair
    by (cases r) (auto simp: respond_def httpStatus_def)
qed

lemma answer_ordinary: "status r \<in> ordinary \<Longrightarrow> status (fst (answer r w)) \<in> ordinary"
  by (simp add: answer_def)

lemma with_body_ordinary:
  "(\<And>x. status (fst (h x w)) \<in> ordinary) \<Longrightarrow> status (fst (with_body dec rq h w)) \<in> ordinary"
  by (auto simp: with_body_def answer_def split: sum.splits)

lemma respond_success:
  "fst (m w) = Inr x \<Longrightarrow> status (ok x) \<in> ordinary \<Longrightarrow> status (fst (respond ok m w)) \<in> ordinary"
  by (cases "m w") (simp add: respond_def)

lemma endpoint_ordinary:
  assumes a: "world_consistent a" and stores: "spec_stores tids (sv_stores srv)" and rt: "rt \<noteq> PostSync"
  shows "status (fst (endpoint srv rt spec_tenant tid sub rq a)) \<in> ordinary"
proof -
  obtain s ts where st: "a = (s, ts)" by (cases a)
  have ok: "finite_tenant (ts tid)" "valid_scopes (ts tid)"
    using a by (simp_all add: st world_consistent_def consistent_def tenant_okD(1,2))
  have run: "fst (at_tenant tid (onSnd m) a) = fst (m (ts tid))" for m :: "('b, tenantA) op"
    by (simp add: st at_tenant_def onSnd_apply)
  have ids: "status (fst (handleMyRecordIDs spec_tenant tid sub rq a)) \<in> ordinary"
  proof (cases "rq_query rq ''operations'' = ''''")
    case True
    then show ?thesis by (simp add: handleMyRecordIDs_def Let_def answer_def)
  next
    case False
    obtain out where "fst (RecordIDs spec_tenant sub (Split (rq_query rq ''operations'') (CHR '','')) (ts tid)) = Inr out"
      using RecordIDs_spec_total[OF ok] by blast
    then have "fst (at_tenant tid (onSnd (RecordIDs spec_tenant sub (Split (rq_query rq ''operations'') (CHR '','')))) a) = Inr out"
      by (simp only: run)
    then have "status (fst (respond (\<lambda>ids. ok_json (RecordIDsBody ids)) (at_tenant tid
        (onSnd (RecordIDs spec_tenant sub (Split (rq_query rq ''operations'') (CHR '',''))))) a)) \<in> ordinary"
      by (rule respond_success) simp
    then show ?thesis using False by (simp add: handleMyRecordIDs_def Let_def)
  qed
  have queries: "status (fst (respond (\<lambda>ops. ok_json (OperationsBody ops)) (at_tenant tid (onSnd (EffectiveOperations it spec_tenant u))) a)) \<in> ordinary"
    "status (fst (respond (\<lambda>ops. ok_json (OperationsBody ops)) (at_tenant tid (onSnd (MetaOperations it spec_tenant u))) a)) \<in> ordinary" for it u
    by (rule respond_success, simp add: run spec_queries ok, simp)+
  show ?thesis using rt
    by (cases rt)
      (auto simp: handler_defs ids queries servesD(1)[OF stores]
        intro!: answer_ordinary respond_ordinary with_body_ordinary
          client_errors_shared client_errors_shared_ops client_errors_both client_errors_both_ops
          client_errors_tenant client_errors_tenant_ops)
qed

context administration
begin

lemma serve_ordinary:
  assumes serves: "serves S T tids (sv_stores srv)" and w: "good w"
    and authn: "authenticator (sv_authn srv)" and rt: "rt \<noteq> PostSync"
  shows "status (fst (serve srv rt rq w)) \<in> ordinary"
proof (cases "rt = Healthz")
  case True
  then show ?thesis by (simp add: serve_def answer_def)
next
  case False
  note out = serve_decision[OF serves w authn False, of rq]
  show ?thesis
  proof (cases "decide tids (sv_authn srv) rt rq (absW w)")
    case (Inl code)
    then have "code \<in> ordinary" by (auto simp: decide_def Let_def split: sum.splits if_splits)
    then show ?thesis using out(1)[OF Inl] by simp
  next
    case (Inr p)
    obtain sub tid where p: "p = (sub, tid)" by (cases p)
    have "sub \<noteq> ''''" using Inr p authenticator.verified_subject[OF authn]
      by (auto simp: decide_def Let_def split: sum.splits if_splits)
    then have "world_consistent (provision sub (absW w))"
      using w by (simp add: good_world_def provision_consistent)
    from endpoint_ordinary[OF this _ rt, of tids "reference_server srv" tid sub rq]
    have "status (nil_as_empty rt (fst (serve srv rt rq w))) \<in> ordinary"
      using out(2)[OF Inr[unfolded p]] reference_serves[OF serves] by simp
    then show ?thesis by simp
  qed
qed

end

end
