(* ===== verification/JsonShared.thy ===== *)
theory JsonShared
  imports JsonFile
begin

text \<open>
  The \<open>jsonShared\<close> store of \<^verbatim>\<open>internal/store/json.go\<close>: its methods, its file, and the proof
  that it keeps the contract of the \<open>Shared\<close> interface. Every method runs under the store's
  mutex from its first statement to its return, so one method call is one step.
\<close>

section \<open>State\<close>

record jsonSharedData =
  sh_Users :: "string list"
  sh_Resources :: "string list"
  sh_Operations :: "string gomap"

type_synonym jsonShared = "jsonSharedData jstore"

definition marshal_shared :: "jsonSharedData \<Rightarrow> json" where
  "marshal_shared d = JObject
     [(''users'', enc_strings (sh_Users d)),
      (''resources'', enc_strings (sh_Resources d)),
      (''operations'', enc_map enc_string (sh_Operations d))]"

fun unmarshal_shared :: "json \<Rightarrow> jsonSharedData \<Rightarrow> err + jsonSharedData" where
  "unmarshal_shared (JObject kvs) d =
     (case dec_field ''users'' (sh_Users d) dec_strings kvs of
        Inl e \<Rightarrow> Inl e
      | Inr us \<Rightarrow> (case dec_field ''resources'' (sh_Resources d) dec_strings kvs of
          Inl e \<Rightarrow> Inl e
        | Inr rs \<Rightarrow> (case dec_field ''operations'' (sh_Operations d) (dec_map dec_string) kvs of
            Inl e \<Rightarrow> Inl e
          | Inr os \<Rightarrow> Inr \<lparr>sh_Users = us, sh_Resources = rs, sh_Operations = os\<rparr>)))"
| "unmarshal_shared JNull d = Inr d"
| "unmarshal_shared _ d = Inl (ErrIO ParseFile)"

definition load_shared :: "disk_file \<Rightarrow> err + jsonSharedData" where
  "load_shared file =
     (case loadJSON unmarshal_shared file \<lparr>sh_Users = [], sh_Resources = [], sh_Operations = make_map\<rparr> of
        Inl e \<Rightarrow> Inl e
      | Inr d \<Rightarrow> Inr (d\<lparr>sh_Operations := notNil (sh_Operations d)\<rparr>))"

definition openJSONShared :: "string \<Rightarrow> disk_file \<Rightarrow> io_step option list \<Rightarrow> err + jsonShared" where
  "openJSONShared dir file faults =
     map_sum id (\<lambda>d. \<lparr>js_dir = dir, js_data = d, js_disk = file, js_temps = 0, js_faults = faults\<rparr>)
       (load_shared file)"

definition jsonShared_persist :: "(unit, jsonShared) op" where
  "jsonShared_persist = (\<lambda>s. saveJSON (marshal_shared (js_data s)) s)"

section \<open>Methods\<close>

definition set_Users :: "string list \<Rightarrow> (unit, jsonShared) op" where
  "set_Users us = modify (\<lambda>s. s\<lparr>js_data := (js_data s)\<lparr>sh_Users := us\<rparr>\<rparr>)"

definition set_Resources :: "string list \<Rightarrow> (unit, jsonShared) op" where
  "set_Resources rs = modify (\<lambda>s. s\<lparr>js_data := (js_data s)\<lparr>sh_Resources := rs\<rparr>\<rparr>)"

definition set_Operations :: "string gomap \<Rightarrow> (unit, jsonShared) op" where
  "set_Operations os = modify (\<lambda>s. s\<lparr>js_data := (js_data s)\<lparr>sh_Operations := os\<rparr>\<rparr>)"

definition jsonShared_EnsureUser :: "string \<Rightarrow> (unit, jsonShared) op" where
  "jsonShared_EnsureUser sub =
     andThen (gets (\<lambda>s. sh_Users (js_data s))) (\<lambda>users.
     if Contains users sub then ret ()
     else andThen (set_Users (insertSorted users sub)) (\<lambda>_.
          jsonShared_persist))"

definition jsonShared_ListUsers :: "(User list, jsonShared) op" where
  "jsonShared_ListUsers =
     andThen (gets (\<lambda>s. sh_Users (js_data s))) (\<lambda>users.
     ret (map (\<lambda>sub. \<lparr>Sub = sub\<rparr>) users))"

definition jsonShared_CreateResource :: "string \<Rightarrow> (unit, jsonShared) op" where
  "jsonShared_CreateResource name =
     andThen (gets (\<lambda>s. sh_Resources (js_data s))) (\<lambda>resources.
     if Contains resources name then throw ErrConflict
     else andThen (set_Resources (insertSorted resources name)) (\<lambda>_.
          jsonShared_persist))"

definition jsonShared_EnsureResource :: "string \<Rightarrow> (unit, jsonShared) op" where
  "jsonShared_EnsureResource name =
     andThen (gets (\<lambda>s. sh_Resources (js_data s))) (\<lambda>resources.
     if Contains resources name then ret ()
     else andThen (set_Resources (insertSorted resources name)) (\<lambda>_.
          jsonShared_persist))"

definition jsonShared_DeleteResource :: "map_order \<Rightarrow> string \<Rightarrow> (unit, jsonShared) op" where
  "jsonShared_DeleteResource it name =
     andThen (gets (\<lambda>s. sh_Resources (js_data s))) (\<lambda>resources.
     case removeString resources name of (rest, ok) \<Rightarrow>
     if \<not> ok then throw ErrNotFound
     else andThen (set_Resources rest) (\<lambda>_.
          andThen (gets (\<lambda>s. sh_Operations (js_data s))) (\<lambda>operations.
          andThen (set_Operations (range_delete it (\<lambda>res. res = name) operations)) (\<lambda>_.
          jsonShared_persist))))"

definition jsonShared_ListResources :: "(Resource list, jsonShared) op" where
  "jsonShared_ListResources =
     andThen (gets (\<lambda>s. sh_Resources (js_data s))) (\<lambda>resources.
     ret (map (\<lambda>name. \<lparr>Resource_Name = name\<rparr>) resources))"

text \<open>The common tail of \<open>CreateOperation\<close> and \<open>EnsureOperation\<close>: add the parent resource when
  it is missing, store the operation, save.\<close>

definition jsonShared_addOperation :: "string \<Rightarrow> string \<Rightarrow> (unit, jsonShared) op" where
  "jsonShared_addOperation name resource =
     andThen (gets (\<lambda>s. sh_Resources (js_data s))) (\<lambda>resources.
     andThen (if \<not> Contains resources resource
              then set_Resources (insertSorted resources resource) else ret ()) (\<lambda>_.
     andThen (gets (\<lambda>s. sh_Operations (js_data s))) (\<lambda>operations.
     andThen (liftR (map_put GoPanic name resource operations)) (\<lambda>operations'.
     andThen (set_Operations operations') (\<lambda>_.
     jsonShared_persist)))))"

definition jsonShared_CreateOperation :: "string \<Rightarrow> string \<Rightarrow> (unit, jsonShared) op" where
  "jsonShared_CreateOperation name resource =
     andThen (gets (\<lambda>s. sh_Operations (js_data s))) (\<lambda>operations.
     if map_get operations name \<noteq> None then throw ErrConflict
     else jsonShared_addOperation name resource)"

definition jsonShared_EnsureOperation :: "string \<Rightarrow> string \<Rightarrow> (unit, jsonShared) op" where
  "jsonShared_EnsureOperation name resource =
     andThen (gets (\<lambda>s. sh_Operations (js_data s))) (\<lambda>operations.
     if map_get operations name \<noteq> None then ret ()
     else jsonShared_addOperation name resource)"

definition jsonShared_DeleteOperation :: "string \<Rightarrow> (unit, jsonShared) op" where
  "jsonShared_DeleteOperation name =
     andThen (gets (\<lambda>s. sh_Operations (js_data s))) (\<lambda>operations.
     if map_get operations name = None then throw ErrNotFound
     else andThen (set_Operations (map_delete name operations)) (\<lambda>_.
          jsonShared_persist))"

definition jsonShared_ListOperations :: "map_order \<Rightarrow> (Operation_row list, jsonShared) op" where
  "jsonShared_ListOperations it =
     andThen (gets (\<lambda>s. sh_Operations (js_data s))) (\<lambda>operations.
     ret (sort_Slice Operation_Name
       (map (\<lambda>(name, resource). \<lparr>Operation_Name = name, Operation_Resource = resource\<rparr>)
         (range_map it operations))))"

definition jsonShared_OperationExists :: "string \<Rightarrow> (bool, jsonShared) op" where
  "jsonShared_OperationExists name =
     andThen (gets (\<lambda>s. sh_Operations (js_data s))) (\<lambda>operations.
     ret (map_get operations name \<noteq> None))"

definition json_shared :: "map_order \<Rightarrow> jsonShared Shared" where
  "json_shared it = \<lparr>
     Shared_EnsureUser = jsonShared_EnsureUser, Shared_ListUsers = jsonShared_ListUsers,
     Shared_CreateResource = jsonShared_CreateResource,
     Shared_EnsureResource = jsonShared_EnsureResource,
     Shared_DeleteResource = jsonShared_DeleteResource it,
     Shared_ListResources = jsonShared_ListResources,
     Shared_CreateOperation = jsonShared_CreateOperation,
     Shared_EnsureOperation = jsonShared_EnsureOperation,
     Shared_DeleteOperation = jsonShared_DeleteOperation,
     Shared_ListOperations = jsonShared_ListOperations it,
     Shared_OperationExists = jsonShared_OperationExists\<rparr>"

lemmas jsonShared_defs =
  jsonShared_EnsureUser_def jsonShared_ListUsers_def jsonShared_CreateResource_def
  jsonShared_EnsureResource_def jsonShared_DeleteResource_def jsonShared_ListResources_def
  jsonShared_addOperation_def jsonShared_CreateOperation_def jsonShared_EnsureOperation_def
  jsonShared_DeleteOperation_def jsonShared_ListOperations_def jsonShared_OperationExists_def
  set_Users_def set_Resources_def set_Operations_def

section \<open>Invariant and abstraction\<close>

definition wf_shared :: "jsonSharedData \<Rightarrow> bool" where
  "wf_shared d \<longleftrightarrow> ssorted (sh_Users d) \<and> ssorted (sh_Resources d) \<and> sh_Operations d \<noteq> None"

definition view_shared :: "jsonSharedData \<Rightarrow> sharedA" where
  "view_shared d = \<lparr>aUsers = set (sh_Users d), aResources = set (sh_Resources d),
     aOps = map_get (sh_Operations d)\<rparr>"

definition abs_shared :: "jsonShared \<Rightarrow> sharedA" where
  "abs_shared s = view_shared (js_data s)"

text \<open>
  The file holds what memory holds: if all strings are UTF-8, opening it again gives the same store.
  A store is in order when its data are, its saves succeed and its file holds them.
\<close>

definition utf8_shared :: "jsonSharedData \<Rightarrow> bool" where
  "utf8_shared d \<longleftrightarrow> list_all valid_utf8 (sh_Users d) \<and> list_all valid_utf8 (sh_Resources d)
     \<and> utf8_map valid_utf8 (sh_Operations d)"

definition durable_shared :: "jsonShared \<Rightarrow> bool" where
  "durable_shared s \<longleftrightarrow> (utf8_shared (js_data s) \<longrightarrow>
     (\<exists>d. load_shared (js_disk s) = Inr d \<and> wf_shared d \<and> utf8_shared d
        \<and> view_shared d = view_shared (js_data s)))"

definition inv_shared :: "jsonShared \<Rightarrow> bool" where
  "inv_shared s \<longleftrightarrow> wf_shared (js_data s) \<and> saves_succeed s \<and> durable_shared s"

lemma map_coerce_valid: "list_all valid_utf8 xs \<Longrightarrow> map coerce_utf8 xs = xs"
  by (induction xs) simp_all

lemma load_marshal_shared:
  assumes "wf_shared d" and "utf8_shared d"
  shows "load_shared (Doc (marshal_shared d)) = Inr d"
proof -
  have "dec_map dec_string (enc_map enc_string (sh_Operations d)) = Inr (map_option (fmmap id) (sh_Operations d))"
    by (rule dec_enc_utf8_map[where P = valid_utf8]) (use assms(2) in \<open>simp_all add: utf8_shared_def\<close>)
  then show ?thesis using assms
    by (simp add: load_shared_def loadJSON_def marshal_shared_def dec_field_def wf_shared_def utf8_shared_def
        dec_enc_strings map_coerce_valid fmap.map_id0 option.map_id0)
qed

lemma inv_shared_saved:
  "saves_succeed s \<Longrightarrow>
   inv_shared (s\<lparr>js_data := d, js_disk := Doc (marshal_shared d)\<rparr>) \<longleftrightarrow> wf_shared d"
  by (auto simp: inv_shared_def durable_shared_def load_marshal_shared)

lemma persist_shared:
  "saves_succeed s \<Longrightarrow>
   jsonShared_persist s = (Inr (), s\<lparr>js_disk := Doc (marshal_shared (js_data s))\<rparr>)"
  by (simp add: jsonShared_persist_def saveJSON_no_fault)

lemma inv_sharedD:
  assumes "inv_shared s"
  shows "ssorted (sh_Users (js_data s))" "ssorted (sh_Resources (js_data s))"
    "sh_Operations (js_data s) \<noteq> None" "saves_succeed s"
  using assms by (simp_all add: inv_shared_def wf_shared_def)

section \<open>Every method keeps the contract\<close>

lemmas shared_run = jsonShared_defs eff_simps spec_defs persist_shared inv_shared_saved inv_sharedD
  abs_shared_def view_shared_def

lemma js_EnsureUser: "refines inv_shared abs_shared (jsonShared_EnsureUser sub) (spec_EnsureUser sub)"
  by (rule refinesI)
    (auto simp: shared_run wf_shared_def insert_absorb)

lemma js_ListUsers: "refines inv_shared abs_shared jsonShared_ListUsers spec_ListUsers"
  by (rule refinesI) (auto simp: shared_run ssorted_list_of_set)

lemma js_CreateResource:
  "refines inv_shared abs_shared (jsonShared_CreateResource name) (spec_CreateResource name)"
  by (rule refinesI) (auto simp: shared_run wf_shared_def)

lemma js_EnsureResource:
  "refines inv_shared abs_shared (jsonShared_EnsureResource name) (spec_EnsureResource name)"
  by (rule refinesI)
    (auto simp: shared_run wf_shared_def insert_absorb)

lemma js_DeleteResource:
  "refines inv_shared abs_shared (jsonShared_DeleteResource it name) (spec_DeleteResource name)"
  by (rule refinesI)
    (auto simp: shared_run wf_shared_def removeString_eq  split: option.splits)

lemma js_ListResources: "refines inv_shared abs_shared jsonShared_ListResources spec_ListResources"
  by (rule refinesI) (auto simp: shared_run ssorted_list_of_set)


lemma js_addOperation:
  assumes "inv_shared s" and "map_get (sh_Operations (js_data s)) name = None"
  shows "fst (jsonShared_addOperation name res s) = Inr ()"
    "abs_shared (snd (jsonShared_addOperation name res s)) = register name res (abs_shared s)"
    "inv_shared (snd (jsonShared_addOperation name res s))"
  using assms
  by (auto simp: shared_run wf_shared_def insert_absorb map_put_notNil fun_eq_iff)

lemma js_CreateOperation:
  "refines inv_shared abs_shared (jsonShared_CreateOperation name res) (spec_CreateOperation name res)"
proof (rule refinesI)
  fix s assume s: "inv_shared s"
  show "fst (jsonShared_CreateOperation name res s) = fst (spec_CreateOperation name res (abs_shared s))"
    "abs_shared (snd (jsonShared_CreateOperation name res s))
      = snd (spec_CreateOperation name res (abs_shared s))"
    "inv_shared (snd (jsonShared_CreateOperation name res s))"
    using js_addOperation[OF s, of name res] s
    by (auto simp: jsonShared_CreateOperation_def spec_CreateOperation_def eff_simps
        abs_shared_def view_shared_def)
qed

lemma js_EnsureOperation:
  "refines inv_shared abs_shared (jsonShared_EnsureOperation name res) (spec_EnsureOperation name res)"
proof (rule refinesI)
  fix s assume s: "inv_shared s"
  show "fst (jsonShared_EnsureOperation name res s) = fst (spec_EnsureOperation name res (abs_shared s))"
    "abs_shared (snd (jsonShared_EnsureOperation name res s))
      = snd (spec_EnsureOperation name res (abs_shared s))"
    "inv_shared (snd (jsonShared_EnsureOperation name res s))"
    using js_addOperation[OF s, of name res] s
    by (auto simp: jsonShared_EnsureOperation_def spec_EnsureOperation_def eff_simps
        abs_shared_def view_shared_def)
qed

lemma js_DeleteOperation:
  "refines inv_shared abs_shared (jsonShared_DeleteOperation name) (spec_DeleteOperation name)"
  by (rule refinesI) (auto simp: shared_run wf_shared_def fun_eq_iff)

lemma js_ListOperations:
  "refines inv_shared abs_shared (jsonShared_ListOperations it) spec_ListOperations"
proof -
  have list: "sort_Slice Operation_Name
        (map (\<lambda>(name, resource). \<lparr>Operation_Name = name, Operation_Resource = resource\<rparr>)
          (range_map it m))
      = map (\<lambda>n. \<lparr>Operation_Name = n, Operation_Resource = the (map_get m n)\<rparr>)
          (sorted_list_of_set (dom (map_get m)))" for m
    using sort_Slice_by_keys[of "visit it (map_keys m)" Operation_Name
        "\<lambda>n. \<lparr>Operation_Name = n, Operation_Resource = the (map_get m n)\<rparr>"]
    by (simp add: range_map_conv comp_def dom_def)
  show ?thesis
    by (rule refinesI) (simp_all add: shared_run list)
qed

lemma js_OperationExists:
  "refines inv_shared abs_shared (jsonShared_OperationExists name) (spec_OperationExists name)"
  by (rule refinesI) (simp_all add: shared_run)

lemma finite_abs_shared: "inv_shared s \<Longrightarrow> finite_shared (abs_shared s)"
  by (simp add: finite_shared_def abs_shared_def view_shared_def)

interpretation js: shared_store "json_shared it" inv_shared abs_shared for it
  by unfold_locales
    (simp_all add: json_shared_def finite_abs_shared js_EnsureUser js_ListUsers js_CreateResource
      js_EnsureResource js_DeleteResource js_ListResources js_CreateOperation js_EnsureOperation
      js_DeleteOperation js_ListOperations js_OperationExists)

lemma openJSONShared_empty:
  "openJSONShared dir NoFile [] = Inr s \<Longrightarrow>
   inv_shared s \<and> abs_shared s = \<lparr>aUsers = {}, aResources = {}, aOps = Map.empty\<rparr>"
  by (auto simp: openJSONShared_def load_shared_def loadJSON_def inv_shared_def durable_shared_def
      wf_shared_def abs_shared_def view_shared_def saves_succeed_def)

end
