(* ===== verification/JsonTenant.thy ===== *)
theory JsonTenant
  imports JsonFile
begin

text \<open>
  The \<open>jsonTenant\<close> store of \<^verbatim>\<open>internal/store/json.go\<close>: roles and users with their permissions
  and restricted record IDs, the methods that change them, the file they are written to, and
  the proof that the store keeps the contract of the \<open>Tenant\<close> interface. As in \<open>JsonShared\<close>
  one method call is one step.
\<close>

section \<open>State\<close>

record jsonRoleData =
  rd_Permissions :: "string gomap"
  rd_RestrictedIDs :: "string list gomap"

record jsonUserData =
  ud_Roles :: "string slice"
  ud_Permissions :: "string gomap"
  ud_RestrictedIDs :: "string list gomap"

record jsonTenantData =
  tn_Roles :: "jsonRoleData gomap"
  tn_Users :: "jsonUserData gomap"

type_synonym jsonTenant = "jsonTenantData jstore"

section \<open>The file\<close>

definition enc_role :: "jsonRoleData \<Rightarrow> json" where
  "enc_role r = JObject
     (omitempty (map_keys (rd_Permissions r) = []) ''permissions'' (enc_map enc_string (rd_Permissions r))
      @ omitempty (map_keys (rd_RestrictedIDs r) = []) ''restricted-ids''
          (enc_map enc_strings (rd_RestrictedIDs r)))"

definition enc_user :: "jsonUserData \<Rightarrow> json" where
  "enc_user u = JObject
     (omitempty (elems (ud_Roles u) = []) ''roles'' (enc_strings (elems (ud_Roles u)))
      @ omitempty (map_keys (ud_Permissions u) = []) ''permissions'' (enc_map enc_string (ud_Permissions u))
      @ omitempty (map_keys (ud_RestrictedIDs u) = []) ''restricted-ids''
          (enc_map enc_strings (ud_RestrictedIDs u)))"

definition marshal_tenant :: "jsonTenantData \<Rightarrow> json" where
  "marshal_tenant d = JObject
     [(''roles'', enc_map enc_role (tn_Roles d)), (''users'', enc_map enc_user (tn_Users d))]"

fun dec_role :: "json \<Rightarrow> err + jsonRoleData" where
  "dec_role (JObject kvs) =
     (case dec_field ''permissions'' None (dec_map dec_string) kvs of
        Inl e \<Rightarrow> Inl e
      | Inr ps \<Rightarrow> (case dec_field ''restricted-ids'' None (dec_map dec_strings) kvs of
          Inl e \<Rightarrow> Inl e
        | Inr rids \<Rightarrow> Inr \<lparr>rd_Permissions = ps, rd_RestrictedIDs = rids\<rparr>))"
| "dec_role _ = Inl (ErrIO ParseFile)"

fun dec_user :: "json \<Rightarrow> err + jsonUserData" where
  "dec_user (JObject kvs) =
     (case dec_field ''roles'' None dec_slice kvs of
        Inl e \<Rightarrow> Inl e
      | Inr rs \<Rightarrow> (case dec_field ''permissions'' None (dec_map dec_string) kvs of
          Inl e \<Rightarrow> Inl e
        | Inr ps \<Rightarrow> (case dec_field ''restricted-ids'' None (dec_map dec_strings) kvs of
            Inl e \<Rightarrow> Inl e
          | Inr rids \<Rightarrow> Inr \<lparr>ud_Roles = rs, ud_Permissions = ps, ud_RestrictedIDs = rids\<rparr>)))"
| "dec_user _ = Inl (ErrIO ParseFile)"

fun unmarshal_tenant :: "json \<Rightarrow> jsonTenantData \<Rightarrow> err + jsonTenantData" where
  "unmarshal_tenant (JObject kvs) d =
     (case dec_field ''roles'' (tn_Roles d) (dec_map dec_role) kvs of
        Inl e \<Rightarrow> Inl e
      | Inr rs \<Rightarrow> (case dec_field ''users'' (tn_Users d) (dec_map dec_user) kvs of
          Inl e \<Rightarrow> Inl e
        | Inr us \<Rightarrow> Inr \<lparr>tn_Roles = rs, tn_Users = us\<rparr>))"
| "unmarshal_tenant JNull d = Inr d"
| "unmarshal_tenant _ d = Inl (ErrIO ParseFile)"

definition load_tenant :: "disk_file \<Rightarrow> err + jsonTenantData" where
  "load_tenant file =
     (case loadJSON unmarshal_tenant file \<lparr>tn_Roles = make_map, tn_Users = make_map\<rparr> of
        Inl e \<Rightarrow> Inl e
      | Inr d \<Rightarrow> Inr (d\<lparr>tn_Roles := notNil (tn_Roles d), tn_Users := notNil (tn_Users d)\<rparr>))"

definition openJSONTenant :: "string \<Rightarrow> disk_file \<Rightarrow> io_step option list \<Rightarrow> err + jsonTenant" where
  "openJSONTenant dir file faults =
     map_sum id (\<lambda>d. \<lparr>js_dir = dir, js_data = d, js_disk = file, js_temps = 0, js_faults = faults\<rparr>)
       (load_tenant file)"

definition jsonTenant_persist :: "(unit, jsonTenant) op" where
  "jsonTenant_persist = (\<lambda>s. saveJSON (marshal_tenant (js_data s)) s)"

section \<open>Finding roles and users\<close>

definition newJSONRole :: jsonRoleData where
  "newJSONRole = \<lparr>rd_Permissions = make_map, rd_RestrictedIDs = make_map\<rparr>"

definition newJSONUser :: jsonUserData where
  "newJSONUser = \<lparr>ud_Roles = None, ud_Permissions = make_map, ud_RestrictedIDs = make_map\<rparr>"

text \<open>The maps hold pointers: changing a role or a user changes the pointee, not the map.\<close>

definition put_role :: "string \<Rightarrow> jsonRoleData \<Rightarrow> (unit, jsonTenant) op" where
  "put_role name r = modify (\<lambda>s. s\<lparr>js_data := (js_data s)
     \<lparr>tn_Roles := map_option (fmupd name r) (tn_Roles (js_data s))\<rparr>\<rparr>)"

definition put_user :: "string \<Rightarrow> jsonUserData \<Rightarrow> (unit, jsonTenant) op" where
  "put_user sub u = modify (\<lambda>s. s\<lparr>js_data := (js_data s)
     \<lparr>tn_Users := map_option (fmupd sub u) (tn_Users (js_data s))\<rparr>\<rparr>)"

definition set_tnRoles :: "jsonRoleData gomap \<Rightarrow> (unit, jsonTenant) op" where
  "set_tnRoles m = modify (\<lambda>s. s\<lparr>js_data := (js_data s)\<lparr>tn_Roles := m\<rparr>\<rparr>)"

definition set_tnUsers :: "jsonUserData gomap \<Rightarrow> (unit, jsonTenant) op" where
  "set_tnUsers m = modify (\<lambda>s. s\<lparr>js_data := (js_data s)\<lparr>tn_Users := m\<rparr>\<rparr>)"

definition jsonTenant_role :: "string \<Rightarrow> (jsonRoleData, jsonTenant) op" where
  "jsonTenant_role name =
     andThen (gets (\<lambda>s. map_get (tn_Roles (js_data s)) name)) (\<lambda>found.
     case found of
       None \<Rightarrow> throw ErrNotFound
     | Some r \<Rightarrow>
         let r' = r\<lparr>rd_Permissions := notNil (rd_Permissions r),
                    rd_RestrictedIDs := notNil (rd_RestrictedIDs r)\<rparr>
         in andThen (put_role name r') (\<lambda>_. ret r'))"

definition jsonTenant_user :: "string \<Rightarrow> (jsonUserData, jsonTenant) op" where
  "jsonTenant_user sub =
     andThen (gets (\<lambda>s. tn_Users (js_data s))) (\<lambda>users.
     case map_get users sub of
       None \<Rightarrow>
         andThen (liftR (map_put GoPanic sub newJSONUser users)) (\<lambda>users'.
         andThen (set_tnUsers users') (\<lambda>_. ret newJSONUser))
     | Some u \<Rightarrow>
         let u' = u\<lparr>ud_Permissions := notNil (ud_Permissions u),
                    ud_RestrictedIDs := notNil (ud_RestrictedIDs u)\<rparr>
         in andThen (put_user sub u') (\<lambda>_. ret u'))"

section \<open>Roles\<close>

definition jsonTenant_CreateRole :: "string \<Rightarrow> (unit, jsonTenant) op" where
  "jsonTenant_CreateRole name =
     andThen (gets (\<lambda>s. tn_Roles (js_data s))) (\<lambda>roles.
     if map_get roles name \<noteq> None then throw ErrConflict
     else andThen (liftR (map_put GoPanic name newJSONRole roles)) (\<lambda>roles'.
          andThen (set_tnRoles roles') (\<lambda>_.
          jsonTenant_persist)))"

definition jsonTenant_EnsureRole :: "string \<Rightarrow> (unit, jsonTenant) op" where
  "jsonTenant_EnsureRole name =
     andThen (gets (\<lambda>s. tn_Roles (js_data s))) (\<lambda>roles.
     if map_get roles name \<noteq> None then ret ()
     else andThen (liftR (map_put GoPanic name newJSONRole roles)) (\<lambda>roles'.
          andThen (set_tnRoles roles') (\<lambda>_.
          jsonTenant_persist)))"

definition jsonTenant_RoleExists :: "string \<Rightarrow> (bool, jsonTenant) op" where
  "jsonTenant_RoleExists name =
     gets (\<lambda>s. map_get (tn_Roles (js_data s)) name \<noteq> None)"

definition rename_assignment :: "string \<Rightarrow> string \<Rightarrow> jsonUserData \<Rightarrow> jsonUserData" where
  "rename_assignment name newName u =
     (case removeString (elems (ud_Roles u)) name of (rest, ok) \<Rightarrow>
        if ok then u\<lparr>ud_Roles := Some (insertSorted rest newName)\<rparr> else u)"

definition jsonTenant_RenameRole :: "map_order \<Rightarrow> string \<Rightarrow> string \<Rightarrow> (unit, jsonTenant) op" where
  "jsonTenant_RenameRole it name newName =
     andThen (jsonTenant_role name) (\<lambda>r.
     andThen (gets (\<lambda>s. tn_Roles (js_data s))) (\<lambda>roles.
     if map_get roles newName \<noteq> None then throw ErrConflict
     else andThen (liftR (map_put GoPanic newName r (map_delete name roles))) (\<lambda>roles'.
          andThen (set_tnRoles roles') (\<lambda>_.
          andThen (gets (\<lambda>s. tn_Users (js_data s))) (\<lambda>users.
          andThen (set_tnUsers (range_update it (rename_assignment name newName) users)) (\<lambda>_.
          jsonTenant_persist))))))"

definition jsonTenant_DeleteRole :: "map_order \<Rightarrow> string \<Rightarrow> (unit, jsonTenant) op" where
  "jsonTenant_DeleteRole it name =
     andThen (gets (\<lambda>s. tn_Roles (js_data s))) (\<lambda>roles.
     if map_get roles name = None then throw ErrNotFound
     else andThen (set_tnRoles (map_delete name roles)) (\<lambda>_.
          andThen (gets (\<lambda>s. tn_Users (js_data s))) (\<lambda>users.
          andThen (set_tnUsers
              (range_update it (\<lambda>u. u\<lparr>ud_Roles := map_option (\<lambda>rs. fst (removeString rs name)) (ud_Roles u)\<rparr>) users)) (\<lambda>_.
          jsonTenant_persist))))"

definition jsonTenant_ListRoles :: "map_order \<Rightarrow> (Role list, jsonTenant) op" where
  "jsonTenant_ListRoles it =
     andThen (gets (\<lambda>s. tn_Roles (js_data s))) (\<lambda>roles.
     ret (map (\<lambda>name. \<lparr>Role_Name = name\<rparr>) (sort_Strings (map fst (range_map it roles)))))"

section \<open>Assignments\<close>

definition jsonTenant_AssignRole :: "string \<Rightarrow> string \<Rightarrow> (unit, jsonTenant) op" where
  "jsonTenant_AssignRole sub role =
     andThen (jsonTenant_role role) (\<lambda>_.
     andThen (jsonTenant_user sub) (\<lambda>u.
     if Contains (elems (ud_Roles u)) role then ret ()
     else andThen (put_user sub (u\<lparr>ud_Roles := Some (insertSorted (elems (ud_Roles u)) role)\<rparr>)) (\<lambda>_.
          jsonTenant_persist)))"

definition jsonTenant_UnassignRole :: "string \<Rightarrow> string \<Rightarrow> (unit, jsonTenant) op" where
  "jsonTenant_UnassignRole sub role =
     andThen (jsonTenant_role role) (\<lambda>_.
     andThen (jsonTenant_user sub) (\<lambda>u.
     case removeString (elems (ud_Roles u)) role of (rest, ok) \<Rightarrow>
     if \<not> ok then throw ErrNotFound
     else andThen (put_user sub (u\<lparr>ud_Roles := Some rest\<rparr>)) (\<lambda>_.
          jsonTenant_persist)))"

text \<open>\<^verbatim>\<open>slices.Clone\<close> of a nil slice is nil, whereas a user that is not there has an empty one.\<close>

definition jsonTenant_UserRoles :: "string \<Rightarrow> (string slice, jsonTenant) op" where
  "jsonTenant_UserRoles sub =
     gets (\<lambda>s. case map_get (tn_Users (js_data s)) sub of None \<Rightarrow> Some [] | Some u \<Rightarrow> ud_Roles u)"

section \<open>Permissions\<close>

text \<open>A scope map as a list sorted by operation.\<close>

definition permission_list :: "map_order \<Rightarrow> string gomap \<Rightarrow> OperationScope list" where
  "permission_list it m =
     sort_Slice Operation (map (\<lambda>(p, scope). operation_scope p scope) (range_map it m))"

definition jsonTenant_SetRolePermission :: "string \<Rightarrow> string \<Rightarrow> Scope \<Rightarrow> (unit, jsonTenant) op" where
  "jsonTenant_SetRolePermission role operation scope =
     andThen (jsonTenant_role role) (\<lambda>r.
     andThen (liftR (map_put GoPanic operation scope (rd_Permissions r))) (\<lambda>ps.
     andThen (put_role role (r\<lparr>rd_Permissions := ps\<rparr>)) (\<lambda>_.
     jsonTenant_persist)))"

definition jsonTenant_RemoveRolePermission :: "string \<Rightarrow> string \<Rightarrow> (unit, jsonTenant) op" where
  "jsonTenant_RemoveRolePermission role operation =
     andThen (jsonTenant_role role) (\<lambda>r.
     if map_get (rd_Permissions r) operation = None then throw ErrNotFound
     else andThen (put_role role (r\<lparr>rd_Permissions := map_delete operation (rd_Permissions r),
                                  rd_RestrictedIDs := map_delete operation (rd_RestrictedIDs r)\<rparr>)) (\<lambda>_.
          jsonTenant_persist))"

definition jsonTenant_RolePermissions :: "map_order \<Rightarrow> string \<Rightarrow> (OperationScope list, jsonTenant) op" where
  "jsonTenant_RolePermissions it role =
     andThen (jsonTenant_role role) (\<lambda>r. ret (permission_list it (rd_Permissions r)))"

definition jsonTenant_HasRolePermission :: "string \<Rightarrow> string \<Rightarrow> (bool, jsonTenant) op" where
  "jsonTenant_HasRolePermission role operation =
     andThen (jsonTenant_role role) (\<lambda>r. ret (map_get (rd_Permissions r) operation \<noteq> None))"

definition jsonTenant_SetUserPermission :: "string \<Rightarrow> string \<Rightarrow> Scope \<Rightarrow> (unit, jsonTenant) op" where
  "jsonTenant_SetUserPermission sub operation scope =
     andThen (jsonTenant_user sub) (\<lambda>u.
     andThen (liftR (map_put GoPanic operation scope (ud_Permissions u))) (\<lambda>ps.
     andThen (put_user sub (u\<lparr>ud_Permissions := ps\<rparr>)) (\<lambda>_.
     jsonTenant_persist)))"

definition jsonTenant_RemoveUserPermission :: "string \<Rightarrow> string \<Rightarrow> (unit, jsonTenant) op" where
  "jsonTenant_RemoveUserPermission sub operation =
     andThen (jsonTenant_user sub) (\<lambda>u.
     if map_get (ud_Permissions u) operation = None then throw ErrNotFound
     else andThen (put_user sub (u\<lparr>ud_Permissions := map_delete operation (ud_Permissions u),
                                 ud_RestrictedIDs := map_delete operation (ud_RestrictedIDs u)\<rparr>)) (\<lambda>_.
          jsonTenant_persist))"

definition jsonTenant_UserPermissions :: "map_order \<Rightarrow> string \<Rightarrow> (OperationScope list, jsonTenant) op" where
  "jsonTenant_UserPermissions it sub =
     gets (\<lambda>s. case map_get (tn_Users (js_data s)) sub of
         None \<Rightarrow> []
       | Some u \<Rightarrow> permission_list it (ud_Permissions u))"

definition jsonTenant_HasUserPermission :: "string \<Rightarrow> string \<Rightarrow> (bool, jsonTenant) op" where
  "jsonTenant_HasUserPermission sub operation =
     gets (\<lambda>s. case map_get (tn_Users (js_data s)) sub of
         None \<Rightarrow> False
       | Some u \<Rightarrow> map_get (ud_Permissions u) operation \<noteq> None)"

section \<open>Restricted record IDs\<close>

definition ids_of :: "string list gomap \<Rightarrow> string \<Rightarrow> string list" where
  "ids_of m operation = (case map_get m operation of None \<Rightarrow> [] | Some ids \<Rightarrow> ids)"

text \<open>The loops over the IDs to add or to remove, with the map write of every pass.\<close>

fun add_ids :: "string \<Rightarrow> string list \<Rightarrow> string list gomap \<Rightarrow> err + string list gomap" where
  "add_ids operation [] m = Inr m"
| "add_ids operation (i # ids) m =
     (case map_put GoPanic operation (insertSorted (ids_of m operation) i) m of
        Inl e \<Rightarrow> Inl e
      | Inr m' \<Rightarrow> add_ids operation ids m')"

fun remove_ids :: "string \<Rightarrow> string list \<Rightarrow> string list gomap \<Rightarrow> err + string list gomap" where
  "remove_ids operation [] m = Inr m"
| "remove_ids operation (i # ids) m =
     (case map_put GoPanic operation (fst (removeString (ids_of m operation) i)) m of
        Inl e \<Rightarrow> Inl e
      | Inr m' \<Rightarrow> remove_ids operation ids m')"

definition jsonTenant_AddRoleRestrictedIDs :: "string \<Rightarrow> string \<Rightarrow> string list \<Rightarrow> (unit, jsonTenant) op" where
  "jsonTenant_AddRoleRestrictedIDs role operation ids =
     andThen (jsonTenant_role role) (\<lambda>r.
     andThen (liftR (add_ids operation ids (rd_RestrictedIDs r))) (\<lambda>m.
     andThen (put_role role (r\<lparr>rd_RestrictedIDs := m\<rparr>)) (\<lambda>_.
     jsonTenant_persist)))"

definition jsonTenant_RemoveRoleRestrictedIDs :: "string \<Rightarrow> string \<Rightarrow> string list \<Rightarrow> (unit, jsonTenant) op" where
  "jsonTenant_RemoveRoleRestrictedIDs role operation ids =
     andThen (jsonTenant_role role) (\<lambda>r.
     andThen (liftR (remove_ids operation ids (rd_RestrictedIDs r))) (\<lambda>m.
     andThen (put_role role (r\<lparr>rd_RestrictedIDs := m\<rparr>)) (\<lambda>_.
     jsonTenant_persist)))"

text \<open>The IDs of the roles in turn, each taken when it is not yet in \<open>seen\<close>.\<close>

fun role_ids :: "jsonRoleData gomap \<Rightarrow> string \<Rightarrow> string list \<Rightarrow> string list \<Rightarrow> string list \<Rightarrow> string list" where
  "role_ids rolesData operation [] seen out = out"
| "role_ids rolesData operation (name # names) seen out =
     (case map_get rolesData name of
        None \<Rightarrow> role_ids rolesData operation names seen out
      | Some r \<Rightarrow>
          (if rd_RestrictedIDs r = None then role_ids rolesData operation names seen out
           else (case collect_ids (ids_of (rd_RestrictedIDs r) operation) seen out of
                  (seen', out') \<Rightarrow> role_ids rolesData operation names seen' out')))"

definition jsonTenant_RoleRestrictedIDs :: "string list \<Rightarrow> string \<Rightarrow> (string list, jsonTenant) op" where
  "jsonTenant_RoleRestrictedIDs roles operation =
     gets (\<lambda>s. role_ids (tn_Roles (js_data s)) operation roles [] [])"

definition jsonTenant_AddUserRestrictedIDs :: "string \<Rightarrow> string \<Rightarrow> string list \<Rightarrow> (unit, jsonTenant) op" where
  "jsonTenant_AddUserRestrictedIDs sub operation ids =
     andThen (jsonTenant_user sub) (\<lambda>u.
     andThen (liftR (add_ids operation ids (ud_RestrictedIDs u))) (\<lambda>m.
     andThen (put_user sub (u\<lparr>ud_RestrictedIDs := m\<rparr>)) (\<lambda>_.
     jsonTenant_persist)))"

definition jsonTenant_RemoveUserRestrictedIDs :: "string \<Rightarrow> string \<Rightarrow> string list \<Rightarrow> (unit, jsonTenant) op" where
  "jsonTenant_RemoveUserRestrictedIDs sub operation ids =
     andThen (jsonTenant_user sub) (\<lambda>u.
     andThen (liftR (remove_ids operation ids (ud_RestrictedIDs u))) (\<lambda>m.
     andThen (put_user sub (u\<lparr>ud_RestrictedIDs := m\<rparr>)) (\<lambda>_.
     jsonTenant_persist)))"

text \<open>
  \<^verbatim>\<open>slices.Clone\<close> may return nil here. The only caller, \<open>RecordIDs\<close>, makes it empty before anyone can
  see it, so both are \<open>[]\<close>, and that branch of \<open>RecordIDs\<close> is not needed.
\<close>

definition jsonTenant_UserRestrictedIDs :: "string \<Rightarrow> string \<Rightarrow> (string list, jsonTenant) op" where
  "jsonTenant_UserRestrictedIDs sub operation =
     gets (\<lambda>s. case map_get (tn_Users (js_data s)) sub of
         None \<Rightarrow> []
       | Some u \<Rightarrow> ids_of (ud_RestrictedIDs u) operation)"

definition jsonTenant_RoleGrants :: "map_order \<Rightarrow> string list \<Rightarrow> (RoleGrant list, jsonTenant) op" where
  "jsonTenant_RoleGrants it roles =
     gets (\<lambda>s. concat (map (\<lambda>name. case map_get (tn_Roles (js_data s)) name of
           None \<Rightarrow> []
         | Some r \<Rightarrow> map (\<lambda>(p, scope). role_grant name p scope) (range_map it (rd_Permissions r)))
       roles))"

definition json_tenant :: "map_order \<Rightarrow> jsonTenant Tenant" where
  "json_tenant it = \<lparr>
     Tenant_CreateRole = jsonTenant_CreateRole, Tenant_EnsureRole = jsonTenant_EnsureRole,
     Tenant_RoleExists = jsonTenant_RoleExists, Tenant_RenameRole = jsonTenant_RenameRole it,
     Tenant_DeleteRole = jsonTenant_DeleteRole it, Tenant_ListRoles = jsonTenant_ListRoles it,
     Tenant_AssignRole = jsonTenant_AssignRole, Tenant_UnassignRole = jsonTenant_UnassignRole,
     Tenant_UserRoles = jsonTenant_UserRoles,
     Tenant_SetRolePermission = jsonTenant_SetRolePermission,
     Tenant_RemoveRolePermission = jsonTenant_RemoveRolePermission,
     Tenant_RolePermissions = jsonTenant_RolePermissions it,
     Tenant_HasRolePermission = jsonTenant_HasRolePermission,
     Tenant_SetUserPermission = jsonTenant_SetUserPermission,
     Tenant_RemoveUserPermission = jsonTenant_RemoveUserPermission,
     Tenant_UserPermissions = jsonTenant_UserPermissions it,
     Tenant_HasUserPermission = jsonTenant_HasUserPermission,
     Tenant_AddRoleRestrictedIDs = jsonTenant_AddRoleRestrictedIDs,
     Tenant_RemoveRoleRestrictedIDs = jsonTenant_RemoveRoleRestrictedIDs,
     Tenant_RoleRestrictedIDs = jsonTenant_RoleRestrictedIDs,
     Tenant_AddUserRestrictedIDs = jsonTenant_AddUserRestrictedIDs,
     Tenant_RemoveUserRestrictedIDs = jsonTenant_RemoveUserRestrictedIDs,
     Tenant_UserRestrictedIDs = jsonTenant_UserRestrictedIDs,
     Tenant_RoleGrants = jsonTenant_RoleGrants it\<rparr>"

section \<open>Invariant and abstraction\<close>

text \<open>A role or user that is not in the map looks like one with nothing in it.\<close>

definition the_role :: "jsonTenantData \<Rightarrow> string \<Rightarrow> jsonRoleData" where
  "the_role d name = (case map_get (tn_Roles d) name of
     None \<Rightarrow> \<lparr>rd_Permissions = None, rd_RestrictedIDs = None\<rparr> | Some r \<Rightarrow> r)"

definition the_user :: "jsonTenantData \<Rightarrow> string \<Rightarrow> jsonUserData" where
  "the_user d sub = (case map_get (tn_Users d) sub of
     None \<Rightarrow> \<lparr>ud_Roles = None, ud_Permissions = None, ud_RestrictedIDs = None\<rparr> | Some u \<Rightarrow> u)"

definition view_tenant :: "jsonTenantData \<Rightarrow> tenantA" where
  "view_tenant d = \<lparr>
     aRoles = {name. map_get (tn_Roles d) name \<noteq> None},
     aAssign = (\<lambda>sub. set (elems (ud_Roles (the_user d sub)))),
     aRolePerm = (\<lambda>r. map_get (rd_Permissions (the_role d r))),
     aRoleIDs = (\<lambda>r p. set (ids_of (rd_RestrictedIDs (the_role d r)) p)),
     aUserPerm = (\<lambda>sub. map_get (ud_Permissions (the_user d sub))),
     aUserIDs = (\<lambda>sub p. set (ids_of (ud_RestrictedIDs (the_user d sub)) p))\<rparr>"

definition abs_tenant :: "jsonTenant \<Rightarrow> tenantA" where
  "abs_tenant s = view_tenant (js_data s)"

definition sorted_ids :: "string list gomap \<Rightarrow> bool" where
  "sorted_ids m \<longleftrightarrow> (\<forall>p. ssorted (ids_of m p))"

definition wf_tenant :: "jsonTenantData \<Rightarrow> bool" where
  "wf_tenant d \<longleftrightarrow> tn_Roles d \<noteq> None \<and> tn_Users d \<noteq> None
     \<and> (\<forall>r. sorted_ids (rd_RestrictedIDs (the_role d r)))
     \<and> (\<forall>u. ssorted (elems (ud_Roles (the_user d u))) \<and> sorted_ids (ud_RestrictedIDs (the_user d u)))"

text \<open>All strings of a tenant are UTF-8. Then its file holds what memory holds, as in \<open>JsonShared\<close>.\<close>

definition utf8_role :: "jsonRoleData \<Rightarrow> bool" where
  "utf8_role r \<longleftrightarrow> utf8_map valid_utf8 (rd_Permissions r) \<and> utf8_map (list_all valid_utf8) (rd_RestrictedIDs r)"

definition utf8_user :: "jsonUserData \<Rightarrow> bool" where
  "utf8_user u \<longleftrightarrow> list_all valid_utf8 (elems (ud_Roles u)) \<and> utf8_map valid_utf8 (ud_Permissions u)
     \<and> utf8_map (list_all valid_utf8) (ud_RestrictedIDs u)"

definition utf8_tenant :: "jsonTenantData \<Rightarrow> bool" where
  "utf8_tenant d \<longleftrightarrow> utf8_map utf8_role (tn_Roles d) \<and> utf8_map utf8_user (tn_Users d)"

definition durable_tenant :: "jsonTenant \<Rightarrow> bool" where
  "durable_tenant s \<longleftrightarrow> (utf8_tenant (js_data s) \<longrightarrow>
     (\<exists>d. load_tenant (js_disk s) = Inr d \<and> wf_tenant d \<and> utf8_tenant d
        \<and> view_tenant d = view_tenant (js_data s)))"

definition inv_tenant :: "jsonTenant \<Rightarrow> bool" where
  "inv_tenant s \<longleftrightarrow> wf_tenant (js_data s) \<and> saves_succeed s \<and> durable_tenant s"

lemma inv_tenantD:
  assumes "inv_tenant s"
  shows "tn_Roles (js_data s) \<noteq> None" "tn_Users (js_data s) \<noteq> None"
    "sorted_ids (rd_RestrictedIDs (the_role (js_data s) r))"
    "ssorted (elems (ud_Roles (the_user (js_data s) u)))"
    "sorted_ids (ud_RestrictedIDs (the_user (js_data s) u))"
    "saves_succeed s"
  using assms by (simp_all add: inv_tenant_def wf_tenant_def)

lemma ids_of_notNil [simp]: "ids_of (notNil m) p = ids_of m p"
  by (simp add: ids_of_def)

lemma ids_of_make_map [simp]: "ids_of make_map p = []" "ids_of None p = []"
  by (simp_all add: ids_of_def)

lemma ids_of_delete [simp]: "ids_of (map_delete q m) p = (if p = q then [] else ids_of m p)"
  by (simp add: ids_of_def)

lemma sorted_ids_simps [simp]:
  "sorted_ids None" "sorted_ids make_map" "sorted_ids (notNil m) = sorted_ids m"
  "sorted_ids m \<Longrightarrow> sorted_ids (map_delete p m)"
  by (simp_all add: sorted_ids_def)

section \<open>The file holds the data\<close>

text \<open>Empty permission and ID maps are left out of the file and come back as nil maps.\<close>

definition tidy :: "'v gomap \<Rightarrow> 'v gomap" where
  "tidy m = (if map_keys m = [] then None else m)"

lemma map_get_tidy [simp]: "map_get (tidy m) k = map_get m k"
proof (cases "map_keys m = []")
  case True
  then have "{k. map_get m k \<noteq> None} = {}" using set_map_keys[of m] by simp
  then show ?thesis using True by (auto simp: tidy_def)
qed (simp add: tidy_def)

lemma ids_of_tidy [simp]: "ids_of (tidy m) p = ids_of m p"
  by (simp add: ids_of_def)

definition tidy_role :: "jsonRoleData \<Rightarrow> jsonRoleData" where
  "tidy_role r = \<lparr>rd_Permissions = tidy (rd_Permissions r), rd_RestrictedIDs = tidy (rd_RestrictedIDs r)\<rparr>"

definition tidy_user :: "jsonUserData \<Rightarrow> jsonUserData" where
  "tidy_user u = \<lparr>ud_Roles = (if elems (ud_Roles u) = [] then None else ud_Roles u),
     ud_Permissions = tidy (ud_Permissions u), ud_RestrictedIDs = tidy (ud_RestrictedIDs u)\<rparr>"

lemma dec_enc_valid: "utf8_map P m \<Longrightarrow> (\<And>v. P v \<Longrightarrow> dec (enc v) = Inr v) \<Longrightarrow> dec_map dec (enc_map enc m) = Inr m"
  using dec_enc_utf8_map[of P m dec enc id] by (simp add: fmap.map_id0 option.map_id0)

lemma map_coerce_same: "list_all valid_utf8 xs \<Longrightarrow> map coerce_utf8 xs = xs"
  by (induction xs) simp_all

lemma dec_enc_fields:
  "utf8_map valid_utf8 m \<Longrightarrow> dec_map dec_string (enc_map enc_string m) = Inr m"
  "utf8_map (list_all valid_utf8) ids \<Longrightarrow> dec_map dec_strings (enc_map enc_strings ids) = Inr ids"
  by (erule dec_enc_valid, simp add: dec_enc_strings map_coerce_same)+

lemma dec_enc_role: "utf8_role r \<Longrightarrow> dec_role (enc_role r) = Inr (tidy_role r)"
  by (simp add: enc_role_def omitempty_def dec_field_def tidy_role_def tidy_def dec_enc_fields utf8_role_def)

lemma dec_enc_user: "utf8_user u \<Longrightarrow> dec_user (enc_user u) = Inr (tidy_user u)"
  by (cases "ud_Roles u")
    (simp_all add: enc_user_def omitempty_def dec_field_def tidy_user_def tidy_def dec_enc_fields dec_enc_slice
      map_coerce_same utf8_user_def)

definition tidy_tenant :: "jsonTenantData \<Rightarrow> jsonTenantData" where
  "tidy_tenant d = \<lparr>tn_Roles = map_option (fmmap tidy_role) (tn_Roles d),
     tn_Users = map_option (fmmap tidy_user) (tn_Users d)\<rparr>"

lemma map_get_fmmap [simp]: "map_get (map_option (fmmap g) m) k = map_option g (map_get m k)"
  by (cases m) simp_all

lemma the_role_tidy: "the_role (tidy_tenant d) r = tidy_role (the_role d r)"
  by (simp add: the_role_def tidy_tenant_def tidy_role_def tidy_def map_keys_def split: option.splits)

lemma the_user_tidy: "the_user (tidy_tenant d) u = tidy_user (the_user d u)"
  by (simp add: the_user_def tidy_tenant_def tidy_user_def tidy_def map_keys_def split: option.splits)

lemma sorted_ids_tidy [simp]: "sorted_ids (tidy m) = sorted_ids m"
  by (simp add: sorted_ids_def)

lemma tidy_tenant_same:
  "view_tenant (tidy_tenant d) = view_tenant d" "wf_tenant (tidy_tenant d) = wf_tenant d"
  unfolding view_tenant_def wf_tenant_def the_role_tidy the_user_tidy
  by (auto simp: tidy_role_def tidy_user_def tidy_tenant_def fun_eq_iff)

lemma utf8_tidy [simp]: "utf8_map P (tidy m) = utf8_map P m"
  by (simp add: utf8_map_iff)

lemma utf8_tidy_tenant: "utf8_tenant d \<Longrightarrow> utf8_tenant (tidy_tenant d)"
  by (auto simp: utf8_tenant_def tidy_tenant_def utf8_map_iff[of utf8_role] utf8_map_iff[of utf8_user]
      utf8_role_def utf8_user_def tidy_role_def tidy_user_def)

lemma load_marshal_tenant:
  assumes "wf_tenant d" and "utf8_tenant d"
  shows "load_tenant (Doc (marshal_tenant d)) = Inr (tidy_tenant d)"
proof -
  have "dec_map dec_role (enc_map enc_role (tn_Roles d)) = Inr (map_option (fmmap tidy_role) (tn_Roles d))"
    "dec_map dec_user (enc_map enc_user (tn_Users d)) = Inr (map_option (fmmap tidy_user) (tn_Users d))"
    using assms(2) unfolding utf8_tenant_def by (auto intro: dec_enc_utf8_map dec_enc_role dec_enc_user)
  then show ?thesis using assms
    by (auto simp: load_tenant_def loadJSON_def marshal_tenant_def dec_field_def wf_tenant_def
        tidy_tenant_def)
qed

lemma inv_tenant_saved:
  "saves_succeed s \<Longrightarrow>
   inv_tenant (s\<lparr>js_data := d, js_disk := Doc (marshal_tenant d)\<rparr>) \<longleftrightarrow> wf_tenant d"
  by (auto simp: inv_tenant_def durable_tenant_def load_marshal_tenant tidy_tenant_same utf8_tidy_tenant)

text \<open>A change in memory that nothing can see may stay out of the file.\<close>

lemma inv_tenant_invisible:
  "inv_tenant s \<Longrightarrow> wf_tenant d \<Longrightarrow> view_tenant d = view_tenant (js_data s)
   \<Longrightarrow> (utf8_tenant d \<Longrightarrow> utf8_tenant (js_data s)) \<Longrightarrow> inv_tenant (s\<lparr>js_data := d\<rparr>)"
  by (simp add: inv_tenant_def durable_tenant_def)

lemma persist_tenant:
  "saves_succeed s \<Longrightarrow>
   jsonTenant_persist s = (Inr (), s\<lparr>js_disk := Doc (marshal_tenant (js_data s))\<rparr>)"
  by (simp add: jsonTenant_persist_def saveJSON_no_fault)

section \<open>Working on one role or one user\<close>

lemma utf8_map_upd:
  assumes "utf8_map P (map_option (fmupd k v) m)"
    and "map_get m k = None \<or> (\<exists>v'. map_get m k = Some v' \<and> (P v \<longrightarrow> P v'))"
  shows "utf8_map P m"
proof (cases m)
  case (Some f)
  have "valid_utf8 x \<and> P y" if "fmlookup f x = Some y" for x y
    using assms that unfolding utf8_map_iff Some by (cases "x = k") (auto dest: spec[of _ x] spec[of _ k])
  then show ?thesis by (simp add: utf8_map_iff Some)
qed simp

lemma utf8_notNil [simp]: "utf8_map P (notNil m) = utf8_map P m"
  by (simp add: utf8_map_iff)

lemma refines_at_cong:
  "refines_at iv \<alpha> R m sp s \<Longrightarrow> sp (\<alpha> s) = sp' (\<alpha> s) \<Longrightarrow> refines_at iv \<alpha> R m sp' s"
  by (simp add: refines_at_def)

lemma the_role_upd [simp]:
  "map_get (tn_Roles d) name \<noteq> None \<Longrightarrow>
   the_role (d\<lparr>tn_Roles := map_option (fmupd name r) (tn_Roles d)\<rparr>) x
     = (if x = name then r else the_role d x)"
  by (cases "tn_Roles d") (auto simp: the_role_def)

lemma the_user_upd [simp]:
  "tn_Users d \<noteq> None \<Longrightarrow>
   the_user (d\<lparr>tn_Users := map_option (fmupd sub u) (tn_Users d)\<rparr>) x
     = (if x = sub then u else the_user d x)"
  by (auto simp: the_user_def)

lemma the_role_other [simp]: "the_role (d\<lparr>tn_Users := us\<rparr>) r = the_role d r"
  by (simp add: the_role_def)

lemma the_user_other [simp]: "the_user (d\<lparr>tn_Roles := rs\<rparr>) u = the_user d u"
  by (simp add: the_user_def)

text \<open>A role that was looked up: present, with both maps ready to be written.\<close>

definition role_at :: "jsonTenant \<Rightarrow> string \<Rightarrow> jsonRoleData \<Rightarrow> bool" where
  "role_at s name r \<longleftrightarrow> map_get (tn_Roles (js_data s)) name = Some r
     \<and> rd_Permissions r \<noteq> None \<and> rd_RestrictedIDs r \<noteq> None \<and> sorted_ids (rd_RestrictedIDs r)"

definition user_at :: "jsonTenant \<Rightarrow> string \<Rightarrow> jsonUserData \<Rightarrow> bool" where
  "user_at s sub u \<longleftrightarrow> map_get (tn_Users (js_data s)) sub = Some u
     \<and> ud_Permissions u \<noteq> None \<and> ud_RestrictedIDs u \<noteq> None
     \<and> ssorted (elems (ud_Roles u)) \<and> sorted_ids (ud_RestrictedIDs u)"

lemma role_run:
  assumes s: "inv_tenant s" and some: "map_get (tn_Roles (js_data s)) name = Some r0"
  obtains r s1 where "jsonTenant_role name s = (Inr r, s1)" "inv_tenant s1"
    "abs_tenant s1 = abs_tenant s" "role_at s1 name r" "tn_Users (js_data s1) = tn_Users (js_data s)"
proof -
  let ?r = "r0\<lparr>rd_Permissions := notNil (rd_Permissions r0),
               rd_RestrictedIDs := notNil (rd_RestrictedIDs r0)\<rparr>"
  let ?d = "(js_data s)\<lparr>tn_Roles := map_option (fmupd name ?r) (tn_Roles (js_data s))\<rparr>"
  have role0: "the_role (js_data s) name = r0" using some by (simp add: the_role_def)
  have sorted0: "sorted_ids (rd_RestrictedIDs r0)" using inv_tenantD(3)[OF s, of name] role0 by simp
  have wf: "wf_tenant ?d"
    using inv_tenantD[OF s] some sorted0 by (auto simp: wf_tenant_def)
  have view: "view_tenant ?d = view_tenant (js_data s)"
    using some role0 inv_tenantD(1)[OF s] by (auto simp: view_tenant_def fun_eq_iff)
  show thesis
  proof (rule that)
    show "jsonTenant_role name s = (Inr ?r, s\<lparr>js_data := ?d\<rparr>)"
      using some by (simp add: jsonTenant_role_def eff_simps put_role_def Let_def)
    show "inv_tenant (s\<lparr>js_data := ?d\<rparr>)"
      using s wf view
    proof (rule inv_tenant_invisible)
      show "utf8_tenant ?d \<Longrightarrow> utf8_tenant (js_data s)"
        using some by (auto simp: utf8_tenant_def utf8_role_def elim: utf8_map_upd)
    qed
    show "abs_tenant (s\<lparr>js_data := ?d\<rparr>) = abs_tenant s" using view by (simp add: abs_tenant_def)
    show "role_at (s\<lparr>js_data := ?d\<rparr>) name ?r"
      using sorted0 inv_tenantD(1)[OF s] by (simp add: role_at_def)
  qed simp
qed

lemma aRoles_abs: "r \<in> aRoles (abs_tenant s) \<longleftrightarrow> map_get (tn_Roles (js_data s)) r \<noteq> None"
  by (simp add: abs_tenant_def view_tenant_def)

lemma with_role:
  assumes s: "inv_tenant s"
    and f: "\<And>r s1. inv_tenant s1 \<Longrightarrow> abs_tenant s1 = abs_tenant s \<Longrightarrow> role_at s1 name r
      \<Longrightarrow> refines_at inv_tenant abs_tenant R (f r) sp s1"
  shows "refines_at inv_tenant abs_tenant R (andThen (jsonTenant_role name) f) (requireRole name sp) s"
proof (cases "map_get (tn_Roles (js_data s)) name")
  case None
  then have "jsonTenant_role name s = (Inl ErrNotFound, s)"
    by (simp add: jsonTenant_role_def eff_simps)
  then show ?thesis using s None
    by (simp add: refines_at_def requireRole_def eff_simps aRoles_abs)
next
  case (Some r0)
  obtain r s1 where run: "jsonTenant_role name s = (Inr r, s1)" "inv_tenant s1"
      "abs_tenant s1 = abs_tenant s" "role_at s1 name r"
    using role_run[OF s Some] by metis
  have "name \<in> aRoles (abs_tenant s)" using Some by (simp add: aRoles_abs)
  then show ?thesis
    using f[OF run(2-4)] run
    by (simp add: refines_at_def requireRole_def eff_simps)
qed

lemma user_run:
  assumes s: "inv_tenant s"
  obtains u s1 where "jsonTenant_user sub s = (Inr u, s1)" "inv_tenant s1"
    "abs_tenant s1 = abs_tenant s" "user_at s1 sub u"
proof -
  define u where "u = (case map_get (tn_Users (js_data s)) sub of None \<Rightarrow> newJSONUser
    | Some u \<Rightarrow> u\<lparr>ud_Permissions := notNil (ud_Permissions u),
                  ud_RestrictedIDs := notNil (ud_RestrictedIDs u)\<rparr>)"
  let ?d = "(js_data s)\<lparr>tn_Users := map_option (fmupd sub u) (tn_Users (js_data s))\<rparr>"
  have same: "ud_Roles u = ud_Roles (the_user (js_data s) sub)"
    "map_get (ud_Permissions u) p = map_get (ud_Permissions (the_user (js_data s) sub)) p"
    "ids_of (ud_RestrictedIDs u) p = ids_of (ud_RestrictedIDs (the_user (js_data s) sub)) p" for p
    by (simp_all add: u_def the_user_def newJSONUser_def split: option.splits)
  have ready: "ud_Permissions u \<noteq> None" "ud_RestrictedIDs u \<noteq> None"
    by (simp_all add: u_def newJSONUser_def split: option.splits)
  have sorted: "ssorted (elems (ud_Roles u))" "sorted_ids (ud_RestrictedIDs u)"
    using inv_tenantD(4,5)[OF s, of sub] by (simp_all add: same sorted_ids_def)
  have wf: "wf_tenant ?d"
    using inv_tenantD[OF s] sorted by (auto simp: wf_tenant_def)
  have view: "view_tenant ?d = view_tenant (js_data s)"
    using inv_tenantD(2)[OF s] by (auto simp: view_tenant_def fun_eq_iff same)
  show thesis
  proof (rule that)
    show "jsonTenant_user sub s = (Inr u, s\<lparr>js_data := ?d\<rparr>)"
      using inv_tenantD(2)[OF s]
      by (simp add: jsonTenant_user_def eff_simps put_user_def set_tnUsers_def Let_def u_def
          map_put_notNil split: option.splits)
    show "inv_tenant (s\<lparr>js_data := ?d\<rparr>)"
      using s wf view
    proof (rule inv_tenant_invisible)
      have "map_get (tn_Users (js_data s)) sub = None
          \<or> (\<exists>u'. map_get (tn_Users (js_data s)) sub = Some u' \<and> (utf8_user u \<longrightarrow> utf8_user u'))"
        by (auto simp: u_def utf8_user_def split: option.splits)
      then show "utf8_tenant ?d \<Longrightarrow> utf8_tenant (js_data s)"
        by (auto simp: utf8_tenant_def elim: utf8_map_upd)
    qed
    show "abs_tenant (s\<lparr>js_data := ?d\<rparr>) = abs_tenant s" using view by (simp add: abs_tenant_def)
    show "user_at (s\<lparr>js_data := ?d\<rparr>) sub u"
      using ready sorted inv_tenantD(2)[OF s] by (simp add: user_at_def)
  qed
qed

lemma with_user:
  assumes s: "inv_tenant s"
    and f: "\<And>u s1. inv_tenant s1 \<Longrightarrow> abs_tenant s1 = abs_tenant s \<Longrightarrow> user_at s1 sub u
      \<Longrightarrow> refines_at inv_tenant abs_tenant R (f u) sp s1"
  shows "refines_at inv_tenant abs_tenant R (andThen (jsonTenant_user sub) f) sp s"
proof -
  obtain u s1 where run: "jsonTenant_user sub s = (Inr u, s1)" "inv_tenant s1"
      "abs_tenant s1 = abs_tenant s" "user_at s1 sub u"
    using user_run[OF s] by metis
  then show ?thesis using f[OF run(2-4)] by (simp add: refines_at_def eff_simps)
qed

text \<open>What a role or user that was looked up says of the abstract store.\<close>

lemma role_atD:
  assumes "role_at s name r"
  shows "name \<in> aRoles (abs_tenant s)" "aRolePerm (abs_tenant s) name = map_get (rd_Permissions r)"
    "aRoleIDs (abs_tenant s) name p = set (ids_of (rd_RestrictedIDs r) p)"
    "rd_Permissions r \<noteq> None" "rd_RestrictedIDs r \<noteq> None" "sorted_ids (rd_RestrictedIDs r)"
  using assms by (simp_all add: role_at_def abs_tenant_def view_tenant_def the_role_def)

lemma user_atD:
  assumes "user_at s sub u"
  shows "aAssign (abs_tenant s) sub = set (elems (ud_Roles u))"
    "aUserPerm (abs_tenant s) sub = map_get (ud_Permissions u)"
    "aUserIDs (abs_tenant s) sub p = set (ids_of (ud_RestrictedIDs u) p)"
    "ud_Permissions u \<noteq> None" "ud_RestrictedIDs u \<noteq> None" "ssorted (elems (ud_Roles u))"
    "sorted_ids (ud_RestrictedIDs u)"
  using assms by (simp_all add: user_at_def abs_tenant_def view_tenant_def the_user_def)

text \<open>Storing a changed role or user and saving.\<close>

lemma save_role:
  assumes s: "inv_tenant s" and at: "role_at s name r" and new: "sorted_ids (rd_RestrictedIDs r')"
    and sp: "sp (abs_tenant s) = (Inr (), (abs_tenant s)\<lparr>
        aRolePerm := (aRolePerm (abs_tenant s))(name := map_get (rd_Permissions r')),
        aRoleIDs := (aRoleIDs (abs_tenant s))(name := (\<lambda>p. set (ids_of (rd_RestrictedIDs r') p)))\<rparr>)"
  shows "refines_at inv_tenant abs_tenant (=)
      (andThen (put_role name r') (\<lambda>_. jsonTenant_persist)) sp s"
proof -
  let ?d = "(js_data s)\<lparr>tn_Roles := map_option (fmupd name r') (tn_Roles (js_data s))\<rparr>"
  have there: "map_get (tn_Roles (js_data s)) name \<noteq> None" using at by (simp add: role_at_def)
  have run: "andThen (put_role name r') (\<lambda>_. jsonTenant_persist) s
      = (Inr (), s\<lparr>js_data := ?d, js_disk := Doc (marshal_tenant ?d)\<rparr>)"
    using inv_tenantD(6)[OF s] by (simp add: eff_simps put_role_def persist_tenant)
  have "wf_tenant ?d" using inv_tenantD[OF s] there new by (auto simp: wf_tenant_def)
  moreover have "view_tenant ?d = (abs_tenant s)\<lparr>
        aRolePerm := (aRolePerm (abs_tenant s))(name := map_get (rd_Permissions r')),
        aRoleIDs := (aRoleIDs (abs_tenant s))(name := (\<lambda>p. set (ids_of (rd_RestrictedIDs r') p)))\<rparr>"
    using there inv_tenantD(1)[OF s] by (auto simp: view_tenant_def abs_tenant_def fun_eq_iff)
  ultimately show ?thesis
    using inv_tenantD(6)[OF s] sp
    by (simp add: refines_at_def run inv_tenant_saved) (simp add: abs_tenant_def)
qed

lemma save_user:
  assumes s: "inv_tenant s" and at: "user_at s sub u"
    and new: "ssorted (elems (ud_Roles u'))" "sorted_ids (ud_RestrictedIDs u')"
    and sp: "sp (abs_tenant s) = (Inr (), (abs_tenant s)\<lparr>
        aAssign := (aAssign (abs_tenant s))(sub := set (elems (ud_Roles u'))),
        aUserPerm := (aUserPerm (abs_tenant s))(sub := map_get (ud_Permissions u')),
        aUserIDs := (aUserIDs (abs_tenant s))(sub := (\<lambda>p. set (ids_of (ud_RestrictedIDs u') p)))\<rparr>)"
  shows "refines_at inv_tenant abs_tenant (=)
      (andThen (put_user sub u') (\<lambda>_. jsonTenant_persist)) sp s"
proof -
  let ?d = "(js_data s)\<lparr>tn_Users := map_option (fmupd sub u') (tn_Users (js_data s))\<rparr>"
  have run: "andThen (put_user sub u') (\<lambda>_. jsonTenant_persist) s
      = (Inr (), s\<lparr>js_data := ?d, js_disk := Doc (marshal_tenant ?d)\<rparr>)"
    using inv_tenantD(6)[OF s] by (simp add: eff_simps put_user_def persist_tenant)
  have "wf_tenant ?d" using inv_tenantD[OF s] new by (auto simp: wf_tenant_def)
  moreover have "view_tenant ?d = (abs_tenant s)\<lparr>
        aAssign := (aAssign (abs_tenant s))(sub := set (elems (ud_Roles u'))),
        aUserPerm := (aUserPerm (abs_tenant s))(sub := map_get (ud_Permissions u')),
        aUserIDs := (aUserIDs (abs_tenant s))(sub := (\<lambda>p. set (ids_of (ud_RestrictedIDs u') p)))\<rparr>"
    using inv_tenantD(2)[OF s] by (auto simp: view_tenant_def abs_tenant_def fun_eq_iff)
  ultimately show ?thesis
    using inv_tenantD(6)[OF s] sp
    by (simp add: refines_at_def run inv_tenant_saved) (simp add: abs_tenant_def)
qed

section \<open>Every method keeps the contract\<close>

subsection \<open>Permissions and restricted IDs\<close>

lemma refines_at_ret: "iv s \<Longrightarrow> sp (\<alpha> s) = (Inr y, \<alpha> s) \<Longrightarrow> R x y \<Longrightarrow> refines_at iv \<alpha> R (ret x) sp s"
  by (simp add: refines_at_def ret_def)

lemma refines_at_throw: "iv s \<Longrightarrow> sp (\<alpha> s) = (Inl e, \<alpha> s) \<Longrightarrow> refines_at iv \<alpha> R (throw e) sp s"
  by (simp add: refines_at_def throw_def)

lemma refines_at_liftR:
  "r = Inr x \<Longrightarrow> refines_at iv \<alpha> R (f x) sp s \<Longrightarrow> refines_at iv \<alpha> R (andThen (liftR r) f) sp s"
  by (simp add: refines_at_def eff_simps)

lemma permission_list_eq: "permission_list it m = list_permissions (map_get m)"
  using sort_Slice_by_keys[of "visit it (map_keys m)" Operation "\<lambda>p. operation_scope p (the (map_get m p))"]
  by (simp add: permission_list_def list_permissions_def range_map_conv comp_def dom_def)

lemma add_ids_run:
  assumes "m \<noteq> None" and "sorted_ids m"
  obtains m' where "add_ids p ids m = Inr m'" "sorted_ids m'" "m' \<noteq> None"
    "\<And>q. set (ids_of m' q) = (if q = p then set (ids_of m p) \<union> set ids else set (ids_of m q))"
  using assms
proof (induction ids arbitrary: m thesis)
  case Nil
  then show ?case by (auto split: if_splits)
next
  case (Cons i ids)
  let ?m1 = "map_option (fmupd p (insertSorted (ids_of m p) i)) m"
  have ids1: "ids_of ?m1 q = (if q = p then insertSorted (ids_of m p) i else ids_of m q)" for q
    using Cons.prems(2) by (simp add: ids_of_def)
  have "sorted_ids ?m1" using Cons.prems(3) by (simp add: sorted_ids_def ids1)
  moreover have "?m1 \<noteq> None" using Cons.prems(2) by simp
  ultimately obtain m' where m': "add_ids p ids ?m1 = Inr m'" "sorted_ids m'" "m' \<noteq> None"
    "\<And>q. set (ids_of m' q) = (if q = p then set (ids_of ?m1 p) \<union> set ids else set (ids_of ?m1 q))"
    using Cons.IH by blast
  show ?case
  proof (rule Cons.prems(1))
    show "add_ids p (i # ids) m = Inr m'"
      using m'(1) Cons.prems(2) by (simp add: map_put_notNil)
    show "set (ids_of m' q)
        = (if q = p then set (ids_of m p) \<union> set (i # ids) else set (ids_of m q))" for q
      using m'(4)[of q] Cons.prems(3) by (auto simp: ids1 sorted_ids_def)
  qed (use m' in simp_all)
qed

lemma remove_ids_run:
  assumes "m \<noteq> None" and "sorted_ids m"
  obtains m' where "remove_ids p ids m = Inr m'" "sorted_ids m'" "m' \<noteq> None"
    "\<And>q. set (ids_of m' q) = (if q = p then set (ids_of m p) - set ids else set (ids_of m q))"
  using assms
proof (induction ids arbitrary: m thesis)
  case Nil
  then show ?case by (auto split: if_splits)
next
  case (Cons i ids)
  let ?m1 = "map_option (fmupd p (fst (removeString (ids_of m p) i))) m"
  have ids1: "ids_of ?m1 q = (if q = p then fst (removeString (ids_of m p) i) else ids_of m q)" for q
    using Cons.prems(2) by (simp add: ids_of_def)
  have "sorted_ids ?m1" using Cons.prems(3) by (simp add: sorted_ids_def ids1)
  moreover have "?m1 \<noteq> None" using Cons.prems(2) by simp
  ultimately obtain m' where m': "remove_ids p ids ?m1 = Inr m'" "sorted_ids m'" "m' \<noteq> None"
    "\<And>q. set (ids_of m' q) = (if q = p then set (ids_of ?m1 p) - set ids else set (ids_of ?m1 q))"
    using Cons.IH by blast
  show ?case
  proof (rule Cons.prems(1))
    show "remove_ids p (i # ids) m = Inr m'"
      using m'(1) Cons.prems(2) by (simp add: map_put_notNil)
    show "set (ids_of m' q)
        = (if q = p then set (ids_of m p) - set (i # ids) else set (ids_of m q))" for q
      using m'(4)[of q] Cons.prems(3) by (auto simp: ids1 sorted_ids_def)
  qed (use m' in simp_all)
qed

lemma jt_SetRolePermission:
  "refines inv_tenant abs_tenant (jsonTenant_SetRolePermission role p sc) (spec_SetRolePermission role p sc)"
  unfolding jsonTenant_SetRolePermission_def spec_SetRolePermission_def
proof (rule refinesRI, rule with_role)
  fix s r s1 assume s1: "inv_tenant s1" and at: "role_at s1 role r"
  note r = role_atD[OF at]
  show "refines_at inv_tenant abs_tenant (=)
      (andThen (liftR (map_put GoPanic p sc (rd_Permissions r)))
        (\<lambda>ps. andThen (put_role role (r\<lparr>rd_Permissions := ps\<rparr>)) (\<lambda>_. jsonTenant_persist)))
      (modify (\<lambda>a. a\<lparr>aRolePerm := (aRolePerm a)(role := (aRolePerm a role)(p \<mapsto> sc))\<rparr>)) s1"
    by (rule refines_at_liftR[OF map_put_notNil[OF r(4)]], rule save_role[OF s1 at])
      (use r in \<open>auto simp: eff_simps fun_eq_iff\<close>)
qed

lemma jt_RemoveRolePermission:
  "refines inv_tenant abs_tenant (jsonTenant_RemoveRolePermission role p) (spec_RemoveRolePermission role p)"
  unfolding jsonTenant_RemoveRolePermission_def spec_RemoveRolePermission_def
proof (rule refinesRI, rule with_role)
  fix s r s1 assume s1: "inv_tenant s1" and at: "role_at s1 role r"
  note r = role_atD[OF at]
  let ?r' = "r\<lparr>rd_Permissions := map_delete p (rd_Permissions r),
               rd_RestrictedIDs := map_delete p (rd_RestrictedIDs r)\<rparr>"
  let ?sp = "\<lambda>a. if aRolePerm a role p = None then (Inl ErrNotFound, a)
     else (Inr (), a\<lparr>aRolePerm := (aRolePerm a)(role := (aRolePerm a role)(p := None)),
                    aRoleIDs := (aRoleIDs a)(role := (aRoleIDs a role)(p := {}))\<rparr>)"
  show "refines_at inv_tenant abs_tenant (=)
      (if map_get (rd_Permissions r) p = None then throw ErrNotFound
       else andThen (put_role role ?r') (\<lambda>_. jsonTenant_persist)) ?sp s1"
  proof (cases "map_get (rd_Permissions r) p = None")
    case True
    then show ?thesis using s1 r(2) by (simp add: refines_at_throw)
  next
    case False
    have "refines_at inv_tenant abs_tenant (=) (andThen (put_role role ?r') (\<lambda>_. jsonTenant_persist)) ?sp s1"
      by (rule save_role[OF s1 at]) (use r False in \<open>auto simp: fun_eq_iff\<close>)
    then show ?thesis by (subst if_not_P[OF False])
  qed
qed

lemma jt_RolePermissions:
  "refines inv_tenant abs_tenant (jsonTenant_RolePermissions it role) (spec_RolePermissions role)"
  unfolding jsonTenant_RolePermissions_def spec_RolePermissions_def
  by (rule refinesRI, rule with_role)
    (auto intro!: refines_at_ret simp: eff_simps permission_list_eq dest: role_atD(2))

lemma jt_HasRolePermission:
  "refines inv_tenant abs_tenant (jsonTenant_HasRolePermission role p) (spec_HasRolePermission role p)"
  unfolding jsonTenant_HasRolePermission_def spec_HasRolePermission_def
  by (rule refinesRI, rule with_role)
    (auto intro!: refines_at_ret simp: eff_simps dest: role_atD(2))

lemma jt_AddRoleRestrictedIDs:
  "refines inv_tenant abs_tenant (jsonTenant_AddRoleRestrictedIDs role p ids)
     (spec_AddRoleRestrictedIDs role p ids)"
  unfolding jsonTenant_AddRoleRestrictedIDs_def spec_AddRoleRestrictedIDs_def
proof (rule refinesRI, rule with_role)
  fix s r s1 assume s1: "inv_tenant s1" and at: "role_at s1 role r"
  note r = role_atD[OF at]
  obtain m' where m': "add_ids p ids (rd_RestrictedIDs r) = Inr m'" "sorted_ids m'"
    "\<And>q. set (ids_of m' q) = (if q = p then set (ids_of (rd_RestrictedIDs r) p) \<union> set ids
        else set (ids_of (rd_RestrictedIDs r) q))"
    using add_ids_run[OF r(5,6)] by metis
  show "refines_at inv_tenant abs_tenant (=)
      (andThen (liftR (add_ids p ids (rd_RestrictedIDs r)))
        (\<lambda>m. andThen (put_role role (r\<lparr>rd_RestrictedIDs := m\<rparr>)) (\<lambda>_. jsonTenant_persist)))
      (modify (\<lambda>a. a\<lparr>aRoleIDs := (aRoleIDs a)(role := (aRoleIDs a role)(p := aRoleIDs a role p \<union> set ids))\<rparr>)) s1"
    by (rule refines_at_liftR[OF m'(1)], rule save_role[OF s1 at])
      (use r m' in \<open>auto simp: eff_simps fun_eq_iff\<close>)
qed

lemma jt_RemoveRoleRestrictedIDs:
  "refines inv_tenant abs_tenant (jsonTenant_RemoveRoleRestrictedIDs role p ids)
     (spec_RemoveRoleRestrictedIDs role p ids)"
  unfolding jsonTenant_RemoveRoleRestrictedIDs_def spec_RemoveRoleRestrictedIDs_def
proof (rule refinesRI, rule with_role)
  fix s r s1 assume s1: "inv_tenant s1" and at: "role_at s1 role r"
  note r = role_atD[OF at]
  obtain m' where m': "remove_ids p ids (rd_RestrictedIDs r) = Inr m'" "sorted_ids m'"
    "\<And>q. set (ids_of m' q) = (if q = p then set (ids_of (rd_RestrictedIDs r) p) - set ids
        else set (ids_of (rd_RestrictedIDs r) q))"
    using remove_ids_run[OF r(5,6)] by metis
  show "refines_at inv_tenant abs_tenant (=)
      (andThen (liftR (remove_ids p ids (rd_RestrictedIDs r)))
        (\<lambda>m. andThen (put_role role (r\<lparr>rd_RestrictedIDs := m\<rparr>)) (\<lambda>_. jsonTenant_persist)))
      (modify (\<lambda>a. a\<lparr>aRoleIDs := (aRoleIDs a)(role := (aRoleIDs a role)(p := aRoleIDs a role p - set ids))\<rparr>)) s1"
    by (rule refines_at_liftR[OF m'(1)], rule save_role[OF s1 at])
      (use r m' in \<open>auto simp: eff_simps fun_eq_iff\<close>)
qed

lemma jt_SetUserPermission:
  "refines inv_tenant abs_tenant (jsonTenant_SetUserPermission sub p sc) (spec_SetUserPermission sub p sc)"
  unfolding jsonTenant_SetUserPermission_def spec_SetUserPermission_def
proof (rule refinesRI, rule with_user)
  fix s u s1 assume s1: "inv_tenant s1" and at: "user_at s1 sub u"
  note u = user_atD[OF at]
  show "refines_at inv_tenant abs_tenant (=)
      (andThen (liftR (map_put GoPanic p sc (ud_Permissions u)))
        (\<lambda>ps. andThen (put_user sub (u\<lparr>ud_Permissions := ps\<rparr>)) (\<lambda>_. jsonTenant_persist)))
      (modify (\<lambda>a. a\<lparr>aUserPerm := (aUserPerm a)(sub := (aUserPerm a sub)(p \<mapsto> sc))\<rparr>)) s1"
    by (rule refines_at_liftR[OF map_put_notNil[OF u(4)]], rule save_user[OF s1 at])
      (use u in \<open>auto simp: eff_simps fun_eq_iff\<close>)
qed

lemma jt_RemoveUserPermission:
  "refines inv_tenant abs_tenant (jsonTenant_RemoveUserPermission sub p) (spec_RemoveUserPermission sub p)"
  unfolding jsonTenant_RemoveUserPermission_def spec_RemoveUserPermission_def
proof (rule refinesRI, rule with_user)
  fix s u s1 assume s1: "inv_tenant s1" and at: "user_at s1 sub u"
  note u = user_atD[OF at]
  let ?u' = "u\<lparr>ud_Permissions := map_delete p (ud_Permissions u),
               ud_RestrictedIDs := map_delete p (ud_RestrictedIDs u)\<rparr>"
  let ?sp = "\<lambda>a. if aUserPerm a sub p = None then (Inl ErrNotFound, a)
     else (Inr (), a\<lparr>aUserPerm := (aUserPerm a)(sub := (aUserPerm a sub)(p := None)),
                    aUserIDs := (aUserIDs a)(sub := (aUserIDs a sub)(p := {}))\<rparr>)"
  show "refines_at inv_tenant abs_tenant (=)
      (if map_get (ud_Permissions u) p = None then throw ErrNotFound
       else andThen (put_user sub ?u') (\<lambda>_. jsonTenant_persist)) ?sp s1"
  proof (cases "map_get (ud_Permissions u) p = None")
    case True
    then show ?thesis using s1 u(2) by (simp add: refines_at_throw)
  next
    case False
    have "refines_at inv_tenant abs_tenant (=) (andThen (put_user sub ?u') (\<lambda>_. jsonTenant_persist)) ?sp s1"
      by (rule save_user[OF s1 at]) (use u False in \<open>auto simp: fun_eq_iff\<close>)
    then show ?thesis by (subst if_not_P[OF False])
  qed
qed

lemma jt_AddUserRestrictedIDs:
  "refines inv_tenant abs_tenant (jsonTenant_AddUserRestrictedIDs sub p ids)
     (spec_AddUserRestrictedIDs sub p ids)"
  unfolding jsonTenant_AddUserRestrictedIDs_def spec_AddUserRestrictedIDs_def
proof (rule refinesRI, rule with_user)
  fix s u s1 assume s1: "inv_tenant s1" and at: "user_at s1 sub u"
  note u = user_atD[OF at]
  obtain m' where m': "add_ids p ids (ud_RestrictedIDs u) = Inr m'" "sorted_ids m'"
    "\<And>q. set (ids_of m' q) = (if q = p then set (ids_of (ud_RestrictedIDs u) p) \<union> set ids
        else set (ids_of (ud_RestrictedIDs u) q))"
    using add_ids_run[OF u(5,7)] by metis
  show "refines_at inv_tenant abs_tenant (=)
      (andThen (liftR (add_ids p ids (ud_RestrictedIDs u)))
        (\<lambda>m. andThen (put_user sub (u\<lparr>ud_RestrictedIDs := m\<rparr>)) (\<lambda>_. jsonTenant_persist)))
      (modify (\<lambda>a. a\<lparr>aUserIDs := (aUserIDs a)(sub := (aUserIDs a sub)(p := aUserIDs a sub p \<union> set ids))\<rparr>)) s1"
    by (rule refines_at_liftR[OF m'(1)], rule save_user[OF s1 at])
      (use u m' in \<open>auto simp: eff_simps fun_eq_iff\<close>)
qed

lemma jt_RemoveUserRestrictedIDs:
  "refines inv_tenant abs_tenant (jsonTenant_RemoveUserRestrictedIDs sub p ids)
     (spec_RemoveUserRestrictedIDs sub p ids)"
  unfolding jsonTenant_RemoveUserRestrictedIDs_def spec_RemoveUserRestrictedIDs_def
proof (rule refinesRI, rule with_user)
  fix s u s1 assume s1: "inv_tenant s1" and at: "user_at s1 sub u"
  note u = user_atD[OF at]
  obtain m' where m': "remove_ids p ids (ud_RestrictedIDs u) = Inr m'" "sorted_ids m'"
    "\<And>q. set (ids_of m' q) = (if q = p then set (ids_of (ud_RestrictedIDs u) p) - set ids
        else set (ids_of (ud_RestrictedIDs u) q))"
    using remove_ids_run[OF u(5,7)] by metis
  show "refines_at inv_tenant abs_tenant (=)
      (andThen (liftR (remove_ids p ids (ud_RestrictedIDs u)))
        (\<lambda>m. andThen (put_user sub (u\<lparr>ud_RestrictedIDs := m\<rparr>)) (\<lambda>_. jsonTenant_persist)))
      (modify (\<lambda>a. a\<lparr>aUserIDs := (aUserIDs a)(sub := (aUserIDs a sub)(p := aUserIDs a sub p - set ids))\<rparr>)) s1"
    by (rule refines_at_liftR[OF m'(1)], rule save_user[OF s1 at])
      (use u m' in \<open>auto simp: eff_simps fun_eq_iff\<close>)
qed

lemma abs_user:
  "aAssign (abs_tenant s) sub = set (elems (ud_Roles (the_user (js_data s) sub)))"
  "aUserPerm (abs_tenant s) sub = map_get (ud_Permissions (the_user (js_data s) sub))"
  "aUserIDs (abs_tenant s) sub p = set (ids_of (ud_RestrictedIDs (the_user (js_data s) sub)) p)"
  by (simp_all add: abs_tenant_def view_tenant_def)

lemma refines_gets:
  "(\<And>s. iv s \<Longrightarrow> R (f s) (g (\<alpha> s))) \<Longrightarrow> refinesR iv \<alpha> R (gets f) (gets g)"
  by (simp add: refinesR_def refines_at_def gets_def)

lemma jt_UserPermissions:
  "refines inv_tenant abs_tenant (jsonTenant_UserPermissions it sub) (spec_UserPermissions sub)"
  unfolding jsonTenant_UserPermissions_def spec_UserPermissions_def
  by (rule refines_gets)
    (auto simp: abs_user the_user_def permission_list_eq list_permissions_def split: option.splits)

lemma jt_HasUserPermission:
  "refines inv_tenant abs_tenant (jsonTenant_HasUserPermission sub p) (spec_HasUserPermission sub p)"
  unfolding jsonTenant_HasUserPermission_def spec_HasUserPermission_def
  by (rule refines_gets) (auto simp: abs_user the_user_def split: option.splits)

lemma jt_UserRestrictedIDs:
  "refinesR inv_tenant abs_tenant same_elements (jsonTenant_UserRestrictedIDs sub p)
     (spec_UserRestrictedIDs sub p)"
  unfolding jsonTenant_UserRestrictedIDs_def spec_UserRestrictedIDs_def
proof (rule refines_gets)
  fix s assume s: "inv_tenant s"
  have "(case map_get (tn_Users (js_data s)) sub of None \<Rightarrow> [] | Some u \<Rightarrow> ids_of (ud_RestrictedIDs u) p)
      = ids_of (ud_RestrictedIDs (the_user (js_data s) sub)) p"
    by (simp add: the_user_def split: option.splits)
  then show "same_elements
      (case map_get (tn_Users (js_data s)) sub of None \<Rightarrow> [] | Some u \<Rightarrow> ids_of (ud_RestrictedIDs u) p)
      (sorted_list_of_set (aUserIDs (abs_tenant s) sub p))"
    using inv_tenantD(5)[OF s, of sub] by (simp add: same_elements_def abs_user sorted_ids_def ssorted_def)
qed

lemma role_ids_run:
  "set seen = set out \<Longrightarrow> distinct out \<Longrightarrow>
   distinct (role_ids (tn_Roles d) p names seen out)
   \<and> set (role_ids (tn_Roles d) p names seen out)
       = set out \<union> (\<Union>r \<in> set names. set (ids_of (rd_RestrictedIDs (the_role d r)) p))"
proof (induction names arbitrary: seen out)
  case Nil
  then show ?case by simp
next
  case (Cons name names)
  show ?case
  proof (cases "map_get (tn_Roles d) name")
    case None
    then show ?thesis using Cons by (simp add: the_role_def)
  next
    case (Some r)
    show ?thesis
    proof (cases "rd_RestrictedIDs r = None")
      case True
      then show ?thesis using Some Cons by (simp add: the_role_def)
    next
      case False
      obtain seen' out' where c: "collect_ids (ids_of (rd_RestrictedIDs r) p) seen out = (seen', out')"
        by force
      note c' = collect_ids_run[OF c Cons.prems]
      have "set seen' = set out'" "distinct out'" using c' by auto
      from Cons.IH[OF this] show ?thesis
        using Some False c c' by (auto simp: the_role_def)
    qed
  qed
qed

lemma jt_RoleRestrictedIDs:
  "refinesR inv_tenant abs_tenant same_elements (jsonTenant_RoleRestrictedIDs roles p)
     (spec_RoleRestrictedIDs roles p)"
  unfolding jsonTenant_RoleRestrictedIDs_def spec_RoleRestrictedIDs_def
proof (rule refines_gets)
  fix s
  show "same_elements (role_ids (tn_Roles (js_data s)) p roles [] [])
      (sorted_list_of_set (\<Union>r\<in>set roles. aRoleIDs (abs_tenant s) r p))"
    using role_ids_run[of "[]" "[]" "js_data s" p roles]
    by (simp add: same_elements_def abs_tenant_def view_tenant_def)
qed

lemma jt_RoleGrants:
  "refinesR inv_tenant abs_tenant permuted (jsonTenant_RoleGrants it roles) (spec_RoleGrants roles)"
  unfolding jsonTenant_RoleGrants_def spec_RoleGrants_def
proof (rule refines_gets)
  fix s :: jsonTenant
  let ?d = "js_data s"
  let ?gs = "\<lambda>name. case map_get (tn_Roles ?d) name of None \<Rightarrow> []
      | Some r \<Rightarrow> map (\<lambda>(p, scope). role_grant name p scope) (range_map it (rd_Permissions r))"
  let ?hs = "\<lambda>name. map (\<lambda>p. role_grant name p (the (aRolePerm (abs_tenant s) name p)))
      (sorted_list_of_set (dom (aRolePerm (abs_tenant s) name)))"
  have eq: "mset (?gs name) = mset (?hs name)" for name
  proof (cases "map_get (tn_Roles ?d) name")
    case None
    then show ?thesis by (simp add: abs_tenant_def view_tenant_def the_role_def)
  next
    case (Some r)
    let ?m = "rd_Permissions r"
    have perm: "aRolePerm (abs_tenant s) name = map_get ?m"
      using Some by (simp add: abs_tenant_def view_tenant_def the_role_def)
    have "mset (visit it (map_keys ?m)) = mset (sorted_list_of_set (dom (map_get ?m)))"
      by (simp flip: set_eq_iff_mset_eq_distinct add: dom_def)
    then have "mset (map (\<lambda>p. role_grant name p (the (map_get ?m p))) (visit it (map_keys ?m)))
      = mset (map (\<lambda>p. role_grant name p (the (map_get ?m p))) (sorted_list_of_set (dom (map_get ?m))))"
      unfolding mset_map by (rule arg_cong)
    then show ?thesis using Some by (simp add: perm range_map_conv comp_def)
  qed
  have "mset (concat (map ?gs roles)) = mset (concat (map ?hs roles))"
    by (induction roles) (simp_all only: list.map concat.simps mset_append eq)
  then show "permuted (concat (map ?gs roles)) (grants_of (abs_tenant s) roles)"
    by (simp add: permuted_def grants_of_def)
qed

subsection \<open>Roles and assignments\<close>

lemmas tenant_run = eff_simps persist_tenant inv_tenant_saved inv_tenantD set_tnRoles_def
  set_tnUsers_def map_put_notNil

lemma the_role_new [simp]:
  "map_get (tn_Roles d) name = None \<Longrightarrow> tn_Roles d \<noteq> None \<Longrightarrow>
   the_role (d\<lparr>tn_Roles := map_option (fmupd name r) (tn_Roles d)\<rparr>) x
     = (if x = name then r else the_role d x)"
  by (auto simp: the_role_def)

lemma view_new_role:
  assumes "map_get (tn_Roles d) name = None" and "tn_Roles d \<noteq> None"
  shows "view_tenant (d\<lparr>tn_Roles := map_option (fmupd name newJSONRole) (tn_Roles d)\<rparr>)
      = (view_tenant d)\<lparr>aRoles := insert name (aRoles (view_tenant d))\<rparr>"
proof -
  have "the_role d name = \<lparr>rd_Permissions = None, rd_RestrictedIDs = None\<rparr>"
    using assms(1) by (simp add: the_role_def)
  then show ?thesis using assms by (auto simp: view_tenant_def newJSONRole_def fun_eq_iff)
qed

lemma wf_new_role:
  "wf_tenant d \<Longrightarrow> map_get (tn_Roles d) name = None
   \<Longrightarrow> wf_tenant (d\<lparr>tn_Roles := map_option (fmupd name newJSONRole) (tn_Roles d)\<rparr>)"
  by (auto simp: wf_tenant_def newJSONRole_def)

lemma inv_tenant_wf: "inv_tenant s \<Longrightarrow> wf_tenant (js_data s)"
  by (simp add: inv_tenant_def)

lemma jt_CreateRole: "refines inv_tenant abs_tenant (jsonTenant_CreateRole name) (spec_CreateRole name)"
  by (rule refinesI)
    (auto simp: jsonTenant_CreateRole_def spec_CreateRole_def tenant_run aRoles_abs abs_tenant_def
      view_new_role wf_new_role inv_tenant_wf, auto simp: view_tenant_def)

lemma jt_EnsureRole: "refines inv_tenant abs_tenant (jsonTenant_EnsureRole name) (spec_EnsureRole name)"
proof (rule refinesI)
  fix s assume s: "inv_tenant s"
  have "insert name (aRoles (abs_tenant s)) = aRoles (abs_tenant s)"
    if "map_get (tn_Roles (js_data s)) name \<noteq> None"
    using that by (simp add: insert_absorb aRoles_abs)
  then show "fst (jsonTenant_EnsureRole name s) = fst (spec_EnsureRole name (abs_tenant s))"
    "abs_tenant (snd (jsonTenant_EnsureRole name s)) = snd (spec_EnsureRole name (abs_tenant s))"
    "inv_tenant (snd (jsonTenant_EnsureRole name s))"
    using s
    by (auto simp: jsonTenant_EnsureRole_def spec_EnsureRole_def tenant_run abs_tenant_def
      view_new_role wf_new_role inv_tenant_wf)
qed

lemma jt_RoleExists: "refines inv_tenant abs_tenant (jsonTenant_RoleExists name) (spec_RoleExists name)"
  unfolding jsonTenant_RoleExists_def spec_RoleExists_def
  by (rule refines_gets) (simp add: aRoles_abs)

lemma jt_ListRoles: "refines inv_tenant abs_tenant (jsonTenant_ListRoles it) spec_ListRoles"
  by (rule refinesI)
    (auto simp: jsonTenant_ListRoles_def spec_ListRoles_def eff_simps map_fst_range_map
      sort_Strings_set abs_tenant_def view_tenant_def)

lemma jt_UserRoles: "refinesR inv_tenant abs_tenant same_slice (jsonTenant_UserRoles sub) (spec_UserRoles sub)"
  unfolding jsonTenant_UserRoles_def spec_UserRoles_def
proof (rule refines_gets)
  fix s assume "inv_tenant s"
  then have "ssorted (elems (ud_Roles (the_user (js_data s) sub)))" by (rule inv_tenantD)
  then show "same_slice (case map_get (tn_Users (js_data s)) sub of None \<Rightarrow> Some [] | Some u \<Rightarrow> ud_Roles u)
      (Some (sorted_list_of_set (aAssign (abs_tenant s) sub)))"
    by (auto simp: same_slice_def abs_user ssorted_list_of_set the_user_def split: option.splits)
qed

lemma same_assignment: "aAssign a sub = X \<Longrightarrow> a\<lparr>aAssign := (aAssign a)(sub := X)\<rparr> = a"
  by (cases a) auto

lemma jt_AssignRole:
  "refines inv_tenant abs_tenant (jsonTenant_AssignRole sub role) (spec_AssignRole sub role)"
  unfolding jsonTenant_AssignRole_def spec_AssignRole_def
proof (rule refinesRI, rule with_role, assumption, rule with_user, assumption)
  fix s r s1 u s2 assume s2: "inv_tenant s2" and at: "user_at s2 sub u"
  note u = user_atD[OF at]
  let ?sp = "modify (\<lambda>a. a\<lparr>aAssign := (aAssign a)(sub := insert role (aAssign a sub))\<rparr>)"
  let ?save = "andThen (put_user sub (u\<lparr>ud_Roles := Some (insertSorted (elems (ud_Roles u)) role)\<rparr>)) (\<lambda>_. jsonTenant_persist)"
  have save: "refines_at inv_tenant abs_tenant (=) ?save ?sp s2"
    by (rule save_user[OF s2 at]) (use u in \<open>auto simp: eff_simps fun_eq_iff\<close>)
  have skip: "refines_at inv_tenant abs_tenant (=) (ret ()) ?sp s2" if "role \<in> set (elems (ud_Roles u))"
    using s2 that u(1) by (auto intro!: refines_at_ret simp: eff_simps insert_absorb same_assignment)
  show "refines_at inv_tenant abs_tenant (=)
      (if Contains (elems (ud_Roles u)) role then ret () else ?save) ?sp s2"
    by (simp only: Contains_iff split: if_split) (use save skip in blast)
qed

lemma jt_UnassignRole:
  "refines inv_tenant abs_tenant (jsonTenant_UnassignRole sub role) (spec_UnassignRole sub role)"
  unfolding jsonTenant_UnassignRole_def spec_UnassignRole_def
proof (rule refinesRI, rule with_role, assumption, rule with_user, assumption)
  fix s r s1 u s2 assume s2: "inv_tenant s2" and at: "user_at s2 sub u"
  note u = user_atD[OF at]
  let ?sp = "\<lambda>a. if role \<notin> aAssign a sub then (Inl ErrNotFound, a)
     else (Inr (), a\<lparr>aAssign := (aAssign a)(sub := aAssign a sub - {role})\<rparr>)"
  let ?save = "andThen (put_user sub (u\<lparr>ud_Roles := Some (remove1 role (elems (ud_Roles u)))\<rparr>)) (\<lambda>_. jsonTenant_persist)"
  have save: "refines_at inv_tenant abs_tenant (=) ?save ?sp s2" if "role \<in> set (elems (ud_Roles u))"
    by (rule save_user[OF s2 at]) (use u that in \<open>auto simp: fun_eq_iff\<close>)
  have "refines_at inv_tenant abs_tenant (=) (throw ErrNotFound) ?sp s2" if "role \<notin> set (elems (ud_Roles u))"
    using s2 that u(1) by (simp add: refines_at_throw)
  then show "refines_at inv_tenant abs_tenant (=)
      (case removeString (elems (ud_Roles u)) role of (rest, ok) \<Rightarrow>
       if \<not> ok then throw ErrNotFound
       else andThen (put_user sub (u\<lparr>ud_Roles := Some rest\<rparr>)) (\<lambda>_. jsonTenant_persist)) ?sp s2"
    using save by (simp add: removeString_eq)
qed

lemma the_user_range_update:
  assumes "f \<lparr>ud_Roles = None, ud_Permissions = None, ud_RestrictedIDs = None\<rparr>
      = \<lparr>ud_Roles = None, ud_Permissions = None, ud_RestrictedIDs = None\<rparr>"
  shows "the_user (d\<lparr>tn_Users := range_update it f (tn_Users d)\<rparr>) u = f (the_user d u)"
  using assms by (simp add: the_user_def split: option.splits)

lemma the_role_deleted:
  "the_role (d\<lparr>tn_Roles := map_delete name (tn_Roles d)\<rparr>) x
     = (if x = name then \<lparr>rd_Permissions = None, rd_RestrictedIDs = None\<rparr> else the_role d x)"
  by (simp add: the_role_def)

lemma rename_assignment_simps [simp]:
  "ud_Permissions (rename_assignment n n' u) = ud_Permissions u"
  "ud_RestrictedIDs (rename_assignment n n' u) = ud_RestrictedIDs u"
  "ssorted (elems (ud_Roles u)) \<Longrightarrow> ssorted (elems (ud_Roles (rename_assignment n n' u)))"
  "ssorted (elems (ud_Roles u)) \<Longrightarrow> set (elems (ud_Roles (rename_assignment n n' u))) = rename_in n n' (set (elems (ud_Roles u)))"
  by (simp_all add: rename_assignment_def removeString_eq rename_in_def)

lemma renamed_data:
  assumes wf: "wf_tenant d" and there: "map_get (tn_Roles d) name = Some r"
    and free: "map_get (tn_Roles d) newName = None"
    and d'_def: "d' = d\<lparr>tn_Roles := map_option (fmupd newName r) (map_delete name (tn_Roles d)),
                  tn_Users := range_update it (rename_assignment name newName) (tn_Users d)\<rparr>"
  shows "wf_tenant d'" and "view_tenant d' = (view_tenant d)\<lparr>
       aRoles := insert newName (aRoles (view_tenant d) - {name}),
       aAssign := (\<lambda>sub. rename_in name newName (aAssign (view_tenant d) sub)),
       aRolePerm := (aRolePerm (view_tenant d))(newName := aRolePerm (view_tenant d) name, name := Map.empty),
       aRoleIDs := (aRoleIDs (view_tenant d))(newName := aRoleIDs (view_tenant d) name, name := (\<lambda>_. {}))\<rparr>"
proof -
  have ne: "name \<noteq> newName" using there free by auto
  have roles: "tn_Roles d \<noteq> None" using there by (cases "tn_Roles d") auto
  have role: "the_role d' x = (if x = newName then r
      else if x = name then \<lparr>rd_Permissions = None, rd_RestrictedIDs = None\<rparr> else the_role d x)" for x
    using roles ne by (simp add: d'_def the_role_def)
  have user: "the_user d' u = rename_assignment name newName (the_user d u)" for u
    unfolding d'_def
    by (simp add: the_user_def rename_assignment_def removeString_eq split: option.splits)
  have r: "the_role d name = r" using there by (simp add: the_role_def)
  show "wf_tenant d'"
    using wf roles r by (auto simp: wf_tenant_def role user) (simp_all add: d'_def)
  have "{x. map_get (tn_Roles d') x \<noteq> None} = insert newName ({x. map_get (tn_Roles d) x \<noteq> None} - {name})"
    using roles ne by (auto simp: d'_def)
  moreover have "ssorted (elems (ud_Roles (the_user d u)))" for u using wf by (simp add: wf_tenant_def)
  ultimately show "view_tenant d' = (view_tenant d)\<lparr>
       aRoles := insert newName (aRoles (view_tenant d) - {name}),
       aAssign := (\<lambda>sub. rename_in name newName (aAssign (view_tenant d) sub)),
       aRolePerm := (aRolePerm (view_tenant d))(newName := aRolePerm (view_tenant d) name, name := Map.empty),
       aRoleIDs := (aRoleIDs (view_tenant d))(newName := aRoleIDs (view_tenant d) name, name := (\<lambda>_. {}))\<rparr>"
    using r ne by (simp add: view_tenant_def role user fun_eq_iff)
qed

lemma jt_RenameRole:
  "refines inv_tenant abs_tenant (jsonTenant_RenameRole it name newName) (spec_RenameRole name newName)"
  unfolding jsonTenant_RenameRole_def spec_RenameRole_def
proof (rule refinesRI, rule with_role, assumption)
  fix s r s1 assume s1: "inv_tenant s1" and at: "role_at s1 name r"
  let ?d = "js_data s1"
  have there: "map_get (tn_Roles ?d) name = Some r" using at by (simp add: role_at_def)
  show "refines_at inv_tenant abs_tenant (=)
     (andThen (gets (\<lambda>s. tn_Roles (js_data s))) (\<lambda>roles.
      if map_get roles newName \<noteq> None then throw ErrConflict
      else andThen (liftR (map_put GoPanic newName r (map_delete name roles))) (\<lambda>roles'.
          andThen (set_tnRoles roles') (\<lambda>_.
          andThen (gets (\<lambda>s. tn_Users (js_data s))) (\<lambda>users.
          andThen (set_tnUsers (range_update it (rename_assignment name newName) users)) (\<lambda>_.
          jsonTenant_persist))))))
     (\<lambda>a. if newName \<in> aRoles a then (Inl ErrConflict, a)
      else (Inr (), a\<lparr>
       aRoles := insert newName (aRoles a - {name}),
       aAssign := (\<lambda>sub. rename_in name newName (aAssign a sub)),
       aRolePerm := (aRolePerm a)(newName := aRolePerm a name, name := Map.empty),
       aRoleIDs := (aRoleIDs a)(newName := aRoleIDs a name, name := (\<lambda>_. {}))\<rparr>)) s1"
  proof (cases "map_get (tn_Roles ?d) newName")
    case None
    note new = renamed_data[OF inv_tenant_wf[OF s1] there None refl, of it]
    show ?thesis
      using None s1 new(1)
      by (simp add: refines_at_def tenant_run aRoles_abs)
        (simp add: abs_tenant_def new(2))
  next
    case (Some r')
    then show ?thesis using s1 by (simp add: refines_at_def tenant_run aRoles_abs)
  qed
qed

lemma elems_removed [simp]:
  "elems (map_option (\<lambda>rs. fst (removeString rs name)) sl) = fst (removeString (elems sl) name)"
  by (cases sl) (simp_all add: removeString_eq)

lemma deleted_data:
  assumes wf: "wf_tenant d"
    and d'_def: "d' = d\<lparr>tn_Roles := map_delete name (tn_Roles d),
      tn_Users := range_update it (\<lambda>u. u\<lparr>ud_Roles := map_option (\<lambda>rs. fst (removeString rs name)) (ud_Roles u)\<rparr>) (tn_Users d)\<rparr>"
  shows "wf_tenant d'" and "view_tenant d' = (view_tenant d)\<lparr>
     aRoles := aRoles (view_tenant d) - {name},
     aAssign := (\<lambda>sub. aAssign (view_tenant d) sub - {name}),
     aRolePerm := (aRolePerm (view_tenant d))(name := Map.empty),
     aRoleIDs := (aRoleIDs (view_tenant d))(name := (\<lambda>_. {}))\<rparr>"
proof -
  have role: "the_role d' x = (if x = name then \<lparr>rd_Permissions = None, rd_RestrictedIDs = None\<rparr>
      else the_role d x)" for x
    by (simp add: d'_def the_role_deleted)
  have user: "the_user d' u
      = (the_user d u)\<lparr>ud_Roles := map_option (\<lambda>rs. fst (removeString rs name)) (ud_Roles (the_user d u))\<rparr>" for u
    unfolding d'_def by (simp add: the_user_def removeString_eq split: option.splits)
  have srt: "ssorted (elems (ud_Roles (the_user d u)))" for u using wf by (simp add: wf_tenant_def)
  show "wf_tenant d'"
    using wf by (auto simp: wf_tenant_def role user) (simp_all add: d'_def)
  have "{x. map_get (tn_Roles d') x \<noteq> None} = {x. map_get (tn_Roles d) x \<noteq> None} - {name}"
    by (auto simp: d'_def)
  then show "view_tenant d' = (view_tenant d)\<lparr>
     aRoles := aRoles (view_tenant d) - {name},
     aAssign := (\<lambda>sub. aAssign (view_tenant d) sub - {name}),
     aRolePerm := (aRolePerm (view_tenant d))(name := Map.empty),
     aRoleIDs := (aRoleIDs (view_tenant d))(name := (\<lambda>_. {}))\<rparr>"
    using srt by (simp add: view_tenant_def role user fun_eq_iff)
qed

lemma jt_DeleteRole: "refines inv_tenant abs_tenant (jsonTenant_DeleteRole it name) (spec_DeleteRole name)"
proof (rule refinesRI)
  fix s assume s: "inv_tenant s"
  note new = deleted_data[OF inv_tenant_wf[OF s] refl, of it name]
  show "refines_at inv_tenant abs_tenant (=) (jsonTenant_DeleteRole it name) (spec_DeleteRole name) s"
    using s new(1)
    by (auto simp: refines_at_def jsonTenant_DeleteRole_def spec_DeleteRole_def requireRole_def
        tenant_run aRoles_abs) (simp add: abs_tenant_def new(2))
qed

lemma finite_abs_tenant: "inv_tenant s \<Longrightarrow> finite_tenant (abs_tenant s)"
  by (simp add: finite_tenant_def abs_tenant_def view_tenant_def)

section \<open>The contract of the tenant store\<close>

interpretation jt: tenant_store "json_tenant it" inv_tenant abs_tenant for it
  by unfold_locales
    (use spec_RemoveRoleRestrictedIDs_result in \<open>simp_all add: json_tenant_def finite_abs_tenant refinesR_at
      refinesD[OF jt_RemoveRoleRestrictedIDs] jt_CreateRole jt_EnsureRole
      jt_RoleExists jt_RenameRole jt_DeleteRole jt_ListRoles jt_AssignRole jt_UnassignRole
      jt_UserRoles jt_SetRolePermission jt_RemoveRolePermission jt_RolePermissions
      jt_HasRolePermission jt_SetUserPermission jt_RemoveUserPermission jt_UserPermissions
      jt_HasUserPermission jt_AddRoleRestrictedIDs jt_RemoveRoleRestrictedIDs jt_RoleRestrictedIDs
      jt_AddUserRestrictedIDs jt_RemoveUserRestrictedIDs jt_UserRestrictedIDs jt_RoleGrants\<close>)

definition empty_tenant :: tenantA where
  "empty_tenant = \<lparr>aRoles = {}, aAssign = (\<lambda>_. {}), aRolePerm = (\<lambda>_. Map.empty),
     aRoleIDs = (\<lambda>_ _. {}), aUserPerm = (\<lambda>_. Map.empty), aUserIDs = (\<lambda>_ _. {})\<rparr>"

lemma openJSONTenant_empty:
  "openJSONTenant dir NoFile [] = Inr s \<Longrightarrow> inv_tenant s \<and> abs_tenant s = empty_tenant"
  by (auto simp: openJSONTenant_def load_tenant_def loadJSON_def inv_tenant_def durable_tenant_def
      wf_tenant_def abs_tenant_def view_tenant_def the_role_def the_user_def empty_tenant_def saves_succeed_def fun_eq_iff)

section \<open>Names that are not UTF-8\<close>

text \<open>
  What is written can always be read: every document of \<open>marshal_tenant\<close> loads. But the names of the
  users that are loaded are UTF-8, whatever the names were that were written.
\<close>

lemma dec_enc_any: "(\<And>v. \<exists>v'. dec (enc v) = Inr v') \<Longrightarrow> \<exists>m'. dec_map dec (enc_map enc m) = Inr m'"
  using dec_enc_map[of m dec enc "\<lambda>v. projr (dec (enc v))"] by (metis sum.sel(2))

lemma dec_enc_fields_any:
  "\<exists>m'. dec_map dec_string (enc_map enc_string m) = Inr m'" "\<exists>ids'. dec_map dec_strings (enc_map enc_strings ids) = Inr ids'"
  by (rule dec_enc_any, simp add: dec_enc_strings)+

lemma dec_enc_role_any: "\<exists>r'. dec_role (enc_role r) = Inr r'"
  using dec_enc_fields_any(1)[of "rd_Permissions r"] dec_enc_fields_any(2)[of "rd_RestrictedIDs r"]
  by (auto simp: enc_role_def omitempty_def dec_field_def)

lemma dec_enc_user_any: "\<exists>u'. dec_user (enc_user u) = Inr u'"
  using dec_enc_fields_any(1)[of "ud_Permissions u"] dec_enc_fields_any(2)[of "ud_RestrictedIDs u"]
  by (auto simp: enc_user_def omitempty_def dec_field_def dec_enc_slice)

lemma load_marshal_any:
  obtains d' where "load_tenant (Doc (marshal_tenant d)) = Inr d'"
    "\<And>sub. \<not> valid_utf8 sub \<Longrightarrow> map_get (tn_Users d') sub = None"
proof -
  obtain rs where rs: "dec_map dec_role (enc_map enc_role (tn_Roles d)) = Inr rs"
    using dec_enc_any[of dec_role enc_role] dec_enc_role_any by blast
  obtain us where us: "dec_map dec_user (enc_map enc_user (tn_Users d)) = Inr us"
    using dec_enc_any[of dec_user enc_user] dec_enc_user_any by blast
  show thesis
  proof (rule that)
    show "load_tenant (Doc (marshal_tenant d)) = Inr \<lparr>tn_Roles = notNil rs, tn_Users = notNil us\<rparr>"
      using rs us by (simp add: load_tenant_def loadJSON_def marshal_tenant_def dec_field_def)
    show "map_get (tn_Users \<lparr>tn_Roles = notNil rs, tn_Users = notNil us\<rparr>) sub = None" if "\<not> valid_utf8 sub" for sub
      using dec_map_keys[OF us, of sub] that by (cases "map_get us sub") auto
  qed
qed

lemma AssignRole_writes:
  assumes "inv_tenant s" and "role \<in> aRoles (abs_tenant s)" and "role \<notin> aAssign (abs_tenant s) sub"
  shows "js_disk (snd (jsonTenant_AssignRole sub role s)) = Doc (marshal_tenant (js_data (snd (jsonTenant_AssignRole sub role s))))"
proof -
  obtain r0 where "map_get (tn_Roles (js_data s)) role = Some r0" using assms(2) by (auto simp: aRoles_abs)
  from role_run[OF assms(1) this] obtain r s1 where role: "jsonTenant_role role s = (Inr r, s1)" "inv_tenant s1" "abs_tenant s1 = abs_tenant s"
    by metis
  from user_run[OF role(2)] obtain u s2 where user: "jsonTenant_user sub s1 = (Inr u, s2)" "inv_tenant s2" "abs_tenant s2 = abs_tenant s1"
    "user_at s2 sub u" by metis
  have "\<not> Contains (elems (ud_Roles u)) role" using user_atD(1)[OF user(4)] user(3) role(3) assms(3) by (simp add: Contains_iff)
  then show ?thesis
    using role(1) user(1) user(2)
    by (simp add: jsonTenant_AssignRole_def eff_simps put_user_def jsonTenant_persist_def saveJSON_no_fault inv_tenant_def)
qed

lemma AssignRole_forgotten:
  assumes "inv_tenant s" and "role \<in> aRoles (abs_tenant s)" and "role \<notin> aAssign (abs_tenant s) sub" and "\<not> valid_utf8 sub"
  obtains d where "load_tenant (js_disk (snd (jsonTenant_AssignRole sub role s))) = Inr d"
    "aAssign (view_tenant d) sub = {}" "aUserPerm (view_tenant d) sub = Map.empty"
proof -
  obtain d where d: "load_tenant (Doc (marshal_tenant (js_data (snd (jsonTenant_AssignRole sub role s))))) = Inr d"
    "map_get (tn_Users d) sub = None"
    using load_marshal_any assms(4) by blast
  from d(1) show thesis unfolding AssignRole_writes[OF assms(1-3), symmetric]
    by (rule that) (simp_all add: view_tenant_def the_user_def d(2))
qed

end
