(* ===== verification/JsonStores.thy ===== *)
theory JsonStores
  imports ApiCorrect JsonShared JsonTenant
begin

text \<open>
  The services on the JSON file stores: the interpretation of the client locale
  \<open>administration\<close> on the two interpretations of the store contracts, so that every lemma
  proved against the contracts is a fact about the JSON driver. The theory ends with a small
  configuration, used by the worked examples.
\<close>

interpretation json: administration
  "json_shared its" inv_shared abs_shared "json_tenant itt" inv_tenant abs_tenant for its itt
  by unfold_locales

section \<open>The state of a JSON configuration\<close>

type_synonym json_world = "(jsonShared, jsonTenant) world"

abbreviation json_inv :: "json_world \<Rightarrow> bool" where
  "json_inv \<equiv> all_inv inv_shared inv_tenant"

abbreviation json_abs :: "json_world \<Rightarrow> (sharedA, tenantA) world" where
  "json_abs \<equiv> all_abs abs_shared abs_tenant"

abbreviation json_good :: "json_world \<Rightarrow> bool" where
  "json_good \<equiv> good_world inv_shared inv_tenant abs_shared abs_tenant"

text \<open>All tenants of a configuration on the JSON driver.\<close>

abbreviation json_serves :: "map_order \<Rightarrow> map_order \<Rightarrow> string set \<Rightarrow> (jsonShared, jsonTenant) Stores \<Rightarrow> bool" where
  "json_serves its itt \<equiv> serves (json_shared its) (json_tenant itt)"

section \<open>An example configuration\<close>

text \<open>Two tenants on fresh files, after the start-up bootstrap with the administrator \<^verbatim>\<open>root\<close>.\<close>

definition fresh_shared :: jsonShared where
  "fresh_shared = \<lparr>js_dir = ''.'', js_data = \<lparr>sh_Users = [], sh_Resources = [], sh_Operations = make_map\<rparr>,
     js_disk = NoFile, js_temps = 0, js_faults = []\<rparr>"

definition fresh_tenant :: jsonTenant where
  "fresh_tenant = \<lparr>js_dir = ''.'', js_data = \<lparr>tn_Roles = make_map, tn_Users = make_map\<rparr>,
     js_disk = NoFile, js_temps = 0, js_faults = []\<rparr>"

definition demo_stores :: "(jsonShared, jsonTenant) Stores" where
  "demo_stores = \<lparr>Stores_Shared = json_shared ascending,
     Stores_tenants = Some (fmap_of_list [(''t1'', json_tenant ascending), (''t2'', json_tenant ascending)])\<rparr>"

definition demo_world :: json_world where
  "demo_world = snd (BootstrapMeta (\<lambda>_. ascending) demo_stores ''root'' (fresh_shared, \<lambda>_. fresh_tenant))"

lemma fresh_shared_ok: "inv_shared fresh_shared" "abs_shared fresh_shared = no_shared"
  using openJSONShared_empty[of "''.''" fresh_shared]
  by (simp_all add: fresh_shared_def openJSONShared_def load_shared_def loadJSON_def no_shared_def)

lemma fresh_tenant_ok: "inv_tenant fresh_tenant" "abs_tenant fresh_tenant = no_tenant"
  using openJSONTenant_empty[of "''.''" fresh_tenant]
  by (simp_all add: fresh_tenant_def openJSONTenant_def load_tenant_def loadJSON_def empty_tenant_def no_tenant_def)

lemma demo_serves: "serves (json_shared ascending) (json_tenant ascending) {''t1'', ''t2''} demo_stores"
  by (auto simp: serves_def demo_stores_def Stores_Tenant_def fmlookup_of_list)

lemma consistent_nothing: "world_consistent (no_shared, \<lambda>_. no_tenant)"
  by (simp add: world_consistent_def consistent_def shared_ok_def finite_shared_def tenant_ok_def
      finite_tenant_def valid_scopes_def provisioned_def no_shared_def no_tenant_def)

lemma demo_world_ok:
  "json_inv demo_world"
  "json_abs demo_world = meta_world {''t1'', ''t2''} ''root''"
  "world_consistent (json_abs demo_world)"
proof -
  let ?w = "(fresh_shared, \<lambda>_::string. fresh_tenant)"
  have w: "json_inv ?w" "json_abs ?w = (no_shared, \<lambda>_. no_tenant)"
    by (simp_all add: fresh_shared_ok fresh_tenant_ok)
  have "shared_ok (abs_shared (fst ?w))"
    using consistent_nothing by (simp add: fresh_shared_ok world_consistent_def consistent_def)
  note run = json.BootstrapMeta_run[OF demo_serves w(1) this, where ord = "\<lambda>_. ascending" and sub = "''root''"]
  show "json_inv demo_world" using run(3) by (simp add: demo_world_def)
  show "json_abs demo_world = meta_world {''t1'', ''t2''} ''root''"
    using run(2) w(2)
    by (simp add: demo_world_def meta_world_def merge_shared_laws merge_tenant_laws fun_eq_iff)
  show "world_consistent (json_abs demo_world)"
    using json.BootstrapMeta_consistent[OF demo_serves w(1), where ord = "\<lambda>_. ascending" and sub = "''root''"] consistent_nothing w(2)
    by (simp add: demo_world_def)
qed

lemma demo_parts:
  "inv_shared (fst demo_world)" "inv_tenant (snd demo_world tid)"
  "consistent (abs_shared (fst demo_world), abs_tenant (snd demo_world tid))"
  "abs_tenant (snd demo_world ''t1'') = meta_tenant ''root''"
proof -
  note w = all_invD[OF demo_world_ok(1)]
  show "inv_shared (fst demo_world)" "inv_tenant (snd demo_world tid)" by (rule w)+
  show "consistent (abs_shared (fst demo_world), abs_tenant (snd demo_world tid))"
    using demo_world_ok(3) by (simp only: world_consistent_def all_abs_parts)
  have "snd (json_abs demo_world) ''t1'' = meta_tenant ''root''"
    unfolding demo_world_ok(2) by (simp add: meta_world_def)
  then show "abs_tenant (snd demo_world ''t1'') = meta_tenant ''root''"
    by (simp only: all_abs_parts)
qed

lemma demo_good: "json_good demo_world"
  using demo_world_ok(1,3) by (simp only: good_world_def)

text \<open>A run on the example tenant is the run of the specification on what it stands for.\<close>

lemma demo_run:
  assumes "refines inv_tenant abs_tenant m sp"
  shows "fst (m (snd demo_world ''t1'')) = fst (sp (meta_tenant ''root''))"
    "abs_tenant (snd (m (snd demo_world ''t1''))) = snd (sp (meta_tenant ''root''))"
    "inv_tenant (snd (m (snd demo_world ''t1'')))"
  using refinesD[OF assms demo_parts(2), of "''t1''"] by (simp_all add: demo_parts(4))

lemma demo_tenant:
  "inv_tenant (snd demo_world ''t1'')" "tenant_ok (abs_tenant (snd demo_world ''t1''))"
  using demo_parts(2)[of "''t1''"] demo_parts(3)[of "''t1''"] by (simp_all only: consistent_def fst_conv snd_conv)

lemma meta_tenant_simps [simp]:
  "aRoles (meta_tenant u) = {AdminRole}" "aAssign (meta_tenant u) x = (if x = u then {AdminRole} else {})"
  "aRolePerm (meta_tenant u) r = (if r = AdminRole then meta_permissions else Map.empty)"
  "aRoleIDs (meta_tenant u) r = (\<lambda>_. {})" "aUserPerm (meta_tenant u) x = Map.empty"
  "aUserIDs (meta_tenant u) x = (\<lambda>_. {})"
  by (simp_all add: meta_tenant_def no_tenant_def)

lemma meta_tenant_effective: "effective (meta_tenant u) u p = meta_permissions p"
  by (auto simp: effective_def role_scopes_def widest_def meta_permissions_def)

lemma effective_admin:
  assumes "IsMetaOperation p" and "aUserPerm a u p = None"
  shows "effective (merge_tenant a (meta_tenant u)) u p = Some ScopeFull"
proof -
  have "ScopeFull \<in> role_scopes (merge_tenant a (meta_tenant u)) u p"
    using assms(1) by (auto simp: role_scopes_def merge_tenant_def meta_permissions_def)
  then show ?thesis using assms(2) by (auto simp: effective_def widest_def merge_tenant_def)
qed

text \<open>A server on the example configuration, without OIDC, and a request to its first tenant.\<close>

definition demo_server :: "(jsonShared, jsonTenant, unit) Server" where
  "demo_server = \<lparr>sv_files = [], sv_stores = demo_stores, sv_authn = Static_Authenticate ''root'',
     sv_glob = (\<lambda>_. Inr []), sv_readFile = (\<lambda>_. Inr ()), sv_unmarshal = (\<lambda>_. Inl (ErrIO ParseFile)),
     sv_order = ascending, sv_orders = (\<lambda>_. ascending)\<rparr>"

definition demo_request :: "(string \<times> json) list \<Rightarrow> body request" where
  "demo_request kvs = \<lparr>rq_header = (\<lambda>h. if h = HeaderTenantID then ''t1'' else ''''), rq_query = (\<lambda>_. ''''),
     rq_body = JsonBody (JObject kvs)\<rparr>"

definition demo_post :: "body request" where
  "demo_post = demo_request [(''name'', JString ''ops'')]"

lemma demo_server_simps [simp]:
  "sv_stores demo_server = demo_stores" "sv_authn demo_server = Static_Authenticate ''root''"
  by (simp_all add: demo_server_def)

lemma demo_request_simps [simp]:
  "rq_header (demo_request kvs) HeaderTenantID = ''t1''"
  "Static_Authenticate ''root'' (demo_request kvs) = Inr ''root''"
  "rq_body (demo_request kvs) = JsonBody (JObject kvs)"
  "rq_header demo_post HeaderTenantID = ''t1''" "Static_Authenticate ''root'' demo_post = Inr ''root''"
  "rq_body demo_post = JsonBody (JObject [(''name'', JString ''ops'')])"
  by (simp_all add: demo_post_def demo_request_def Static_result HeaderUserSub_def HeaderTenantID_def)

lemma demo_server_serves:
  "json_serves ascending ascending {''t1'', ''t2''} (sv_stores demo_server)"
  by (simp add: demo_serves)

lemma demo_authn: "authenticator (Static_Authenticate ''root'')"
  by unfold_locales

lemma demo_server_authn: "authenticator (sv_authn demo_server)"
  by (simp add: demo_authn)

lemmas demo_setting = demo_server_serves demo_good demo_server_authn

text \<open>The administrator of the example posts the role \<^verbatim>\<open>ops\<close>.\<close>

lemma demo_decides:
  "decide {''t1'', ''t2''} (sv_authn demo_server) PostRole demo_post (json_abs demo_world) = Inr (''root'', ''t1'')"
proof -
  have "snd (json_abs demo_world) ''t1'' = meta_tenant ''root''"
    using demo_parts(4) by (simp only: all_abs_parts)
  then show ?thesis
    unfolding decide_def Let_def demo_server_simps demo_request_simps
    by (simp add: permitted_def meta_tenant_effective meta_permissions_def IsMetaOperation_iff del: all_abs_parts)
qed

lemma demo_posted:
  "abs_tenant (snd (snd (serve demo_server PostRole demo_post demo_world)) ''t1'')
     = (meta_tenant ''root'')\<lparr>aRoles := {''ops'', AdminRole}\<rparr>"
proof -
  have ops: "coerce_utf8 ''ops'' = ''ops''" by (rule coerce_valid[OF ascii_valid]) (simp add: byte_def)
  have "json_abs (snd (serve demo_server PostRole demo_post demo_world))
      = snd (endpoint (reference_server demo_server) PostRole spec_tenant ''t1'' ''root'' demo_post
          (provision ''root'' (json_abs demo_world)))"
    using json.serve_decision(2)[OF demo_setting _ demo_decides] by simp
  from arg_cong[OF this, of "\<lambda>a. snd a ''t1''"] show ?thesis
    by (simp add: handleCreateRole_def with_body_def decode_def dec_name_def dec_field_def at_tenant_state CreateRole_def
        spec_CreateRole_def demo_parts(4) AdminRole_def ops)
qed

section \<open>An example bootstrap file\<close>

definition demo_file :: BootstrapFile where
  "demo_file = \<lparr>bf_Resources = [''doc''], bf_Operations = [''doc:write''],
     bf_Tenants = Some (fmap_of_list [(''t1'',
       \<lparr>tb_Roles = Some (fmap_of_list [(''reader'', Some (fmap_of_list
            [(''doc:read'', \<lparr>ps_Scope = ScopeRestricted, ps_IDs = [''1'', ''2'']\<rparr>)]))]),
        tb_Users = Some (fmap_of_list [(''john'',
            \<lparr>ub_Roles = [''reader''], ub_Permissions = None\<rparr>)])\<rparr>)])\<rparr>"

lemma demo_file_acceptable: "acceptable_all {''t1'', ''t2''} R [demo_file]"
  by (simp add: acceptable_def demo_file_def fmlookup_of_list tenant_acceptable_def role_ok_def spec_ok_def
      user_ok_def OperationResource_def dom_def)

lemma good_shared_ok: "json_good w \<Longrightarrow> json_inv w" "json_good w \<Longrightarrow> shared_ok (abs_shared (fst w))"
  by (simp_all add: good_world_def world_consistent_def consistent_def)

lemma demo_synced: "fst (Sync ord demo_stores [demo_file] demo_world) = Inr ()"
  using json.Sync_run(1)[OF demo_serves good_shared_ok[OF demo_good]] demo_file_acceptable by blast

end
