(* ===== verification/Gorm.thy ===== *)
theory Gorm
  imports StoreSpec
begin

text \<open>
  \<^verbatim>\<open>internal/store/gorm.go\<close>: the stores on an SQL database. The ORM and the database behind it are
  not part of the repository, so a table is a record of the calls the code makes on it, and the
  methods of the stores are defined over any such records. What the code relies on, the documented
  behaviour of these calls, is the locale \<open>db_table\<close>: rows have unique IDs chosen by the database,
  unique indexes are enforced, conditions select rows exactly, \<open>Order\<close> sorts by the bytes of the
  column (the default collation of SQLite), and a transaction commits on success and rolls back on
  an error. The locale \<open>transactional\<close> is about \<^verbatim>\<open>db.Transaction\<close>.
\<close>

section \<open>The interface of a table\<close>

text \<open>
  A condition of \<^verbatim>\<open>Where\<close> is a predicate on rows. \<open>Create_DoNothing\<close> and \<open>Delete_where\<close> return
  \<^verbatim>\<open>RowsAffected\<close>; \<open>Create_DoUpdates\<close> is given how an existing row takes over columns of the new
  one; \<open>First\<close> returns \<open>None\<close> for \<^verbatim>\<open>gorm.ErrRecordNotFound\<close>. A row to create carries the ID 0,
  which the database replaces.
\<close>

record ('row, 'db) table =
  Create_DoNothing :: "'row \<Rightarrow> (nat, 'db) op"
  Create_DoUpdates :: "('row \<Rightarrow> 'row \<Rightarrow> 'row) \<Rightarrow> 'row \<Rightarrow> (unit, 'db) op"
  Find :: "('row \<Rightarrow> bool) \<Rightarrow> ('row list, 'db) op"
  Find_Order :: "('row \<Rightarrow> string) \<Rightarrow> ('row \<Rightarrow> bool) \<Rightarrow> ('row list, 'db) op"
  First :: "('row \<Rightarrow> bool) \<Rightarrow> ('row option, 'db) op"
  Count :: "('row \<Rightarrow> bool) \<Rightarrow> (nat, 'db) op"
  Delete_where :: "('row \<Rightarrow> bool) \<Rightarrow> (nat, 'db) op"
  Update_where :: "('row \<Rightarrow> bool) \<Rightarrow> ('row \<Rightarrow> 'row) \<Rightarrow> (unit, 'db) op"

section \<open>Outcomes\<close>

text \<open>
  \<open>outcome ok view m d Q\<close>: run from \<open>d\<close>, \<open>m\<close> keeps the database in order, and its result and the
  rows it leaves satisfy \<open>Q\<close>. The rules below compute with it backwards through a method.
\<close>

named_theorems outcome_rules

definition outcome :: "('db \<Rightarrow> bool) \<Rightarrow> ('db \<Rightarrow> 'v) \<Rightarrow> ('x, 'db) op \<Rightarrow> 'db \<Rightarrow> (err + 'x \<Rightarrow> 'v \<Rightarrow> bool) \<Rightarrow> bool" where
  "outcome ok view m d Q \<longleftrightarrow> ok (snd (m d)) \<and> Q (fst (m d)) (view (snd (m d)))"

lemma outcome_mono:
  "outcome ok view m d P \<Longrightarrow> (\<And>r v. P r v \<Longrightarrow> Q r v) \<Longrightarrow> outcome ok view m d Q"
  by (simp add: outcome_def)

lemma outcome_ret [outcome_rules]: "ok d \<Longrightarrow> Q (Inr x) (view d) \<Longrightarrow> outcome ok view (ret x) d Q"
  by (simp add: outcome_def ret_def)

lemma outcome_throw [outcome_rules]: "ok d \<Longrightarrow> Q (Inl e) (view d) \<Longrightarrow> outcome ok view (throw e) d Q"
  by (simp add: outcome_def throw_def)

lemma outcome_andThen:
  assumes "outcome ok view m d P"
    and "\<And>e v. P (Inl e) v \<Longrightarrow> Q (Inl e) v"
    and "\<And>x d'. ok d' \<Longrightarrow> P (Inr x) (view d') \<Longrightarrow> outcome ok view (f x) d' Q"
  shows "outcome ok view (andThen m f) d Q"
proof (cases "m d")
  case (Pair r d')
  then show ?thesis using assms by (cases r) (auto simp: outcome_def andThen_apply)
qed

lemma outcome_if [outcome_rules]:
  "(b \<Longrightarrow> outcome ok view m d Q) \<Longrightarrow> (\<not> b \<Longrightarrow> outcome ok view m' d Q)
   \<Longrightarrow> outcome ok view (if b then m else m') d Q"
  by simp

lemma outcome_option [outcome_rules]:
  "(x = None \<Longrightarrow> outcome ok view m d Q) \<Longrightarrow> (\<And>y. x = Some y \<Longrightarrow> outcome ok view (f y) d Q)
   \<Longrightarrow> outcome ok view (case x of None \<Rightarrow> m | Some y \<Rightarrow> f y) d Q"
  by (cases x) simp_all

section \<open>The contract of a table\<close>

locale database =
  fixes ok :: "'db \<Rightarrow> bool" and view :: "'db \<Rightarrow> 'v"
begin

abbreviation wp where "wp \<equiv> outcome ok view"

lemma wp_andThen: "wp m d (\<lambda>r v. case r of Inl e \<Rightarrow> Q (Inl e) v
    | Inr x \<Rightarrow> \<forall>d'. ok d' \<longrightarrow> view d' = v \<longrightarrow> wp (f x) d' Q) \<Longrightarrow> wp (andThen m f) d Q"
  by (rule outcome_andThen, assumption) auto

end

locale db_table = database ok view
  for ok :: "'db \<Rightarrow> bool" and view :: "'db \<Rightarrow> 'v" +
  fixes T :: "('row, 'db) table"
    and get :: "'v \<Rightarrow> 'row set" and put :: "'row set \<Rightarrow> 'v \<Rightarrow> 'v"
    and row_id :: "'row \<Rightarrow> nat" and with_id :: "nat \<Rightarrow> 'row \<Rightarrow> 'row" and key :: "'row \<Rightarrow> 'k"
  assumes finite_rows: "ok d \<Longrightarrow> finite (get (view d))"
    and unique_id: "ok d \<Longrightarrow> inj_on row_id (get (view d))"
    and unique_key: "ok d \<Longrightarrow> inj_on key (get (view d))"
    and create_conflict: "ok d \<Longrightarrow> key r \<in> key ` get (view d) \<Longrightarrow>
      outcome ok view (Create_DoNothing T r) d (\<lambda>res v. res = Inr 0 \<and> v = view d)"
    and create_new: "ok d \<Longrightarrow> key r \<notin> key ` get (view d) \<Longrightarrow>
      outcome ok view (Create_DoNothing T r) d (\<lambda>res v. res = Inr 1
        \<and> (\<exists>n. n \<notin> row_id ` get (view d) \<and> v = put (insert (with_id n r) (get (view d))) (view d)))"
    and upsert_conflict: "ok d \<Longrightarrow> old \<in> get (view d) \<Longrightarrow> key old = key r \<Longrightarrow>
      row_id (assign old r) = row_id old \<Longrightarrow> key (assign old r) = key old \<Longrightarrow>
      outcome ok view (Create_DoUpdates T assign r) d
        (\<lambda>res v. res = Inr () \<and> v = put (insert (assign old r) (get (view d) - {old})) (view d))"
    and upsert_new: "ok d \<Longrightarrow> key r \<notin> key ` get (view d) \<Longrightarrow>
      outcome ok view (Create_DoUpdates T assign r) d (\<lambda>res v. res = Inr ()
        \<and> (\<exists>n. n \<notin> row_id ` get (view d) \<and> v = put (insert (with_id n r) (get (view d))) (view d)))"
    and find: "ok d \<Longrightarrow> outcome ok view (Find T c) d (\<lambda>res v. v = view d
        \<and> (\<exists>rows. res = Inr rows \<and> distinct rows \<and> set rows = {r \<in> get (view d). c r}))"
    and find_order: "ok d \<Longrightarrow> outcome ok view (Find_Order T col c) d (\<lambda>res v. v = view d
        \<and> (\<exists>rows. res = Inr rows \<and> distinct rows \<and> set rows = {r \<in> get (view d). c r}
            \<and> sorted (map col rows)))"
    and first: "ok d \<Longrightarrow> outcome ok view (First T c) d (\<lambda>res v. v = view d
        \<and> (res = Inr None \<and> (\<forall>r \<in> get (view d). \<not> c r)
            \<or> (\<exists>r. res = Inr (Some r) \<and> r \<in> get (view d) \<and> c r)))"
    and count: "ok d \<Longrightarrow> outcome ok view (Count T c) d (\<lambda>res v. v = view d
        \<and> res = Inr (card {r \<in> get (view d). c r}))"
    and delete: "ok d \<Longrightarrow> outcome ok view (Delete_where T c) d (\<lambda>res v.
        res = Inr (card {r \<in> get (view d). c r}) \<and> v = put {r \<in> get (view d). \<not> c r} (view d))"
    and update: "ok d \<Longrightarrow> (\<And>r. row_id (f r) = row_id r) \<Longrightarrow>
      inj_on key ((\<lambda>r. if c r then f r else r) ` get (view d)) \<Longrightarrow>
      outcome ok view (Update_where T c f) d
        (\<lambda>res v. res = Inr () \<and> v = put ((\<lambda>r. if c r then f r else r) ` get (view d)) (view d))"

locale transactional = database ok view
  for ok :: "'db \<Rightarrow> bool" and view :: "'db \<Rightarrow> 'v" +
  fixes transaction :: "(unit, 'db) op \<Rightarrow> (unit, 'db) op"
  assumes commit: "ok d \<Longrightarrow> m d = (Inr (), d1) \<Longrightarrow> ok d1 \<Longrightarrow>
      outcome ok view (transaction m) d (\<lambda>res v. res = Inr () \<and> v = view d1)"
    and rollback: "ok d \<Longrightarrow> fst (m d) = Inl e \<Longrightarrow>
      outcome ok view (transaction m) d (\<lambda>res v. res = Inl e \<and> v = view d)"

context db_table
begin

text \<open>The laws as rules that compute what must hold before a call.\<close>

lemma create_wp [outcome_rules]:
  assumes "ok d" and "key r \<in> key ` get (view d) \<Longrightarrow> Q (Inr 0) (view d)"
    and "\<And>n. key r \<notin> key ` get (view d) \<Longrightarrow> n \<notin> row_id ` get (view d) \<Longrightarrow>
      Q (Inr 1) (put (insert (with_id n r) (get (view d))) (view d))"
  shows "wp (Create_DoNothing T r) d Q"
proof (cases "key r \<in> key ` get (view d)")
  case True
  show ?thesis by (rule outcome_mono[OF create_conflict[OF assms(1) True]]) (use assms(2) True in auto)
next
  case False
  show ?thesis by (rule outcome_mono[OF create_new[OF assms(1) False]]) (use assms(3) False in auto)
qed

lemma upsert_wp:
  assumes "ok d" and "\<And>old. row_id (assign old r) = row_id old \<and> key (assign old r) = key old"
    and "\<And>old. old \<in> get (view d) \<Longrightarrow> key old = key r \<Longrightarrow>
      Q (Inr ()) (put (insert (assign old r) (get (view d) - {old})) (view d))"
    and "\<And>n. key r \<notin> key ` get (view d) \<Longrightarrow> n \<notin> row_id ` get (view d) \<Longrightarrow>
      Q (Inr ()) (put (insert (with_id n r) (get (view d))) (view d))"
  shows "wp (Create_DoUpdates T assign r) d Q"
proof (cases "key r \<in> key ` get (view d)")
  case True
  then obtain old where old: "old \<in> get (view d)" "key old = key r" by auto
  have "outcome ok view (Create_DoUpdates T assign r) d
      (\<lambda>res v. res = Inr () \<and> v = put (insert (assign old r) (get (view d) - {old})) (view d))"
    using assms(2) by (intro upsert_conflict[OF assms(1) old]) simp_all
  then show ?thesis by (rule outcome_mono) (use assms(3) old in auto)
next
  case False
  show ?thesis by (rule outcome_mono[OF upsert_new[OF assms(1) False]]) (use assms(4) False in auto)
qed

lemma find_wp [outcome_rules]:
  "ok d \<Longrightarrow> (\<And>rows. distinct rows \<Longrightarrow> set rows = {r \<in> get (view d). c r} \<Longrightarrow> Q (Inr rows) (view d))
   \<Longrightarrow> wp (Find T c) d Q"
  by (rule outcome_mono[OF find]) auto

lemma find_order_wp [outcome_rules]:
  "ok d \<Longrightarrow> (\<And>rows. distinct rows \<Longrightarrow> set rows = {r \<in> get (view d). c r} \<Longrightarrow> sorted (map col rows)
     \<Longrightarrow> Q (Inr rows) (view d))
   \<Longrightarrow> wp (Find_Order T col c) d Q"
  by (rule outcome_mono[OF find_order]) auto

lemma first_wp [outcome_rules]:
  "ok d \<Longrightarrow> (\<forall>r \<in> get (view d). \<not> c r \<Longrightarrow> Q (Inr None) (view d))
   \<Longrightarrow> (\<And>r. r \<in> get (view d) \<Longrightarrow> c r \<Longrightarrow> Q (Inr (Some r)) (view d))
   \<Longrightarrow> wp (First T c) d Q"
  by (rule outcome_mono[OF first]) auto

lemma count_wp [outcome_rules]:
  "ok d \<Longrightarrow> Q (Inr (card {r \<in> get (view d). c r})) (view d) \<Longrightarrow> wp (Count T c) d Q"
  by (rule outcome_mono[OF count]) auto

lemma delete_wp [outcome_rules]:
  "ok d \<Longrightarrow> Q (Inr (card {r \<in> get (view d). c r})) (put {r \<in> get (view d). \<not> c r} (view d))
   \<Longrightarrow> wp (Delete_where T c) d Q"
  by (rule outcome_mono[OF delete]) auto

lemma update_wp:
  "ok d \<Longrightarrow> (\<And>r. row_id (f r) = row_id r) \<Longrightarrow> inj_on key ((\<lambda>r. if c r then f r else r) ` get (view d))
   \<Longrightarrow> Q (Inr ()) (put ((\<lambda>r. if c r then f r else r) ` get (view d)) (view d)) \<Longrightarrow> wp (Update_where T c f) d Q"
  by (rule outcome_mono[OF update]) auto

text \<open>A loop that creates rows leaves the table with the old keys and the new ones.\<close>

lemma create_all_wp:
  assumes "ok d" and "\<And>S v. get (put S v) = S" and "\<And>S S' v. put S (put S' v) = put S v" and "\<And>v. put (get v) v = v"
    and "\<And>n r. key (with_id n r) = key r"
  shows "wp (forEach (\<lambda>x. andThen (Create_DoNothing T (f x)) (\<lambda>_. ret ())) xs) d
    (\<lambda>res v. res = Inr () \<and> (\<exists>S. v = put S (view d) \<and> key ` S = key ` get (view d) \<union> (\<lambda>x. key (f x)) ` set xs))"
  using assms(1)
proof (induction xs arbitrary: d)
  case Nil
  show ?case using Nil assms(4)[of "view d"] by (auto intro!: outcome_rules exI[of _ "get (view d)"])
next
  case (Cons x xs)
  let ?Q = "\<lambda>d res v. res = Inr () \<and> (\<exists>S. v = put S (view d) \<and> key ` S = key ` get (view d) \<union> (\<lambda>x. key (f x)) ` set xs)"
  let ?goal = "\<lambda>res v. res = Inr () \<and> (\<exists>S. v = put S (view d) \<and> key ` S = key ` get (view d) \<union> (\<lambda>x. key (f x)) ` set (x # xs))"
  have step: "wp (forEach (\<lambda>x. andThen (Create_DoNothing T (f x)) (\<lambda>_. ret ())) xs) d' ?goal"
    if d': "ok d'" and created: "\<exists>S. view d' = put S (view d) \<and> key ` S = insert (key (f x)) (key ` get (view d))" for d'
    by (rule outcome_mono[OF Cons.IH[OF d']]) (use created assms(2,3) in auto)
  have known: "\<exists>S. view d = put S (view d) \<and> key ` S = insert (key (f x)) (key ` get (view d))"
    if "key (f x) \<in> key ` get (view d)"
    using that assms(4)[of "view d"] by (intro exI[of _ "get (view d)"]) (simp add: insert_absorb)
  have fresh: "\<exists>S'. put (insert (with_id n (f x)) (get (view d))) (view d) = put S' (view d)
      \<and> key ` S' = insert (key (f x)) (key ` get (view d))" for n
    by (intro exI[of _ "insert (with_id n (f x)) (get (view d))"]) (simp add: assms(5))
  show ?case
    unfolding forEach.simps andThen_assoc
    by (rule wp_andThen, rule create_wp[OF Cons.prems])
      (simp_all only: andThen_ret sum.case, (intro allI impI step; simp add: known fresh)+)
qed

lemma card_zero_iff: "ok d \<Longrightarrow> card {r \<in> get (view d). c r} = 0 \<longleftrightarrow> (\<forall>r \<in> get (view d). \<not> c r)"
  using finite_rows[of d] by auto

lemma same_key: "ok d \<Longrightarrow> r \<in> get (view d) \<Longrightarrow> r' \<in> get (view d) \<Longrightarrow> key r = key r' \<Longrightarrow> r = r'"
  using unique_key by (auto simp: inj_on_def)

lemma same_id: "ok d \<Longrightarrow> r \<in> get (view d) \<Longrightarrow> r' \<in> get (view d) \<Longrightarrow> row_id r = row_id r' \<Longrightarrow> r = r'"
  using unique_id by (auto simp: inj_on_def)

end

context transactional
begin

lemma transaction_wp:
  assumes "ok d" and "wp m d (\<lambda>r v. case r of Inl e \<Rightarrow> Q (Inl e) (view d) | Inr _ \<Rightarrow> Q (Inr ()) v)"
  shows "wp (transaction m) d Q"
proof (cases "m d")
  case (Pair r d1)
  show ?thesis
  proof (cases r)
    case (Inl e)
    then show ?thesis
      using outcome_mono[OF rollback[OF assms(1)], of m e Q] assms(2) Pair by (simp add: outcome_def)
  next
    case (Inr u)
    then show ?thesis
      using outcome_mono[OF commit[OF assms(1)], of m d1 Q] assms(2) Pair by (simp add: outcome_def)
  qed
qed

end

section \<open>Reading a set of rows as a map\<close>

definition lookup_row :: "('row \<Rightarrow> 'k) \<Rightarrow> ('row \<Rightarrow> 'x) \<Rightarrow> 'row set \<Rightarrow> 'k \<Rightarrow> 'x option" where
  "lookup_row key col S k = (if k \<in> key ` S then Some (col (the_inv_into S key k)) else None)"

lemma lookup_row_member: "inj_on key S \<Longrightarrow> r \<in> S \<Longrightarrow> lookup_row key col S (key r) = Some (col r)"
  by (simp add: lookup_row_def the_inv_into_f_f)

lemma lookup_row_iff:
  assumes "inj_on key S"
  shows "lookup_row key col S k = Some x \<longleftrightarrow> (\<exists>r \<in> S. key r = k \<and> col r = x)"
proof (cases "k \<in> key ` S")
  case True
  then obtain r where r: "r \<in> S" "k = key r" by auto
  have "\<exists>r' \<in> S. key r' = k \<and> col r' = x \<Longrightarrow> col r = x" using r assms by (auto dest: inj_onD)
  then show ?thesis using r lookup_row_member[OF assms r(1), of col] by auto
next
  case False
  then show ?thesis by (auto simp: lookup_row_def)
qed

lemma lookup_row_None: "lookup_row key col S k = None \<longleftrightarrow> k \<notin> key ` S"
  by (simp add: lookup_row_def)

lemma dom_lookup_row: "dom (lookup_row key col S) = key ` S"
  by (auto simp: lookup_row_def dom_def)

lemma lookup_row_insert:
  assumes "inj_on key S" and "key r \<notin> key ` S"
  shows "lookup_row key col (insert r S) = (lookup_row key col S)(key r \<mapsto> col r)"
proof
  fix k
  have inj: "inj_on key (insert r S)" using assms unfolding inj_on_insert by blast
  consider "k = key r" | "k \<noteq> key r" "k \<in> key ` S" | "k \<noteq> key r" "k \<notin> key ` S" by blast
  then show "lookup_row key col (insert r S) k = ((lookup_row key col S)(key r \<mapsto> col r)) k"
  proof cases
    case 1
    then show ?thesis using lookup_row_member[OF inj, of r col] by simp
  next
    case 2
    then obtain r' where "r' \<in> S" "k = key r'" by blast
    then show ?thesis using 2(1)
      lookup_row_member[OF inj, of r' col] lookup_row_member[OF assms(1), of r' col] by simp
  next
    case 3
    then show ?thesis by (simp add: lookup_row_def)
  qed
qed

lemma lookup_row_filter:
  assumes "inj_on key S"
  shows "lookup_row key col {r \<in> S. P r} k = (if \<exists>r \<in> S. key r = k \<and> P r then lookup_row key col S k else None)"
proof (cases "\<exists>r \<in> S. key r = k \<and> P r")
  case True
  then obtain r where r: "r \<in> S" "key r = k" "P r" by auto
  have inj: "inj_on key {r \<in> S. P r}" using assms by (auto simp: inj_on_def)
  show ?thesis
    using lookup_row_member[OF inj, of r col] lookup_row_member[OF assms r(1), of col] r True by simp
next
  case False
  then show ?thesis by (auto simp: lookup_row_def)
qed

lemma lookup_row_delete:
  assumes "inj_on key S"
  shows "lookup_row key col {r \<in> S. key r \<noteq> k} = (lookup_row key col S)(k := None)"
proof
  fix k'
  show "lookup_row key col {r \<in> S. key r \<noteq> k} k' = ((lookup_row key col S)(k := None)) k'"
    by (cases "lookup_row key col S k'")
      (auto simp: lookup_row_filter[OF assms] lookup_row_iff[OF assms])
qed

lemma lookup_row_replace:
  assumes "inj_on key S" and "old \<in> S" and "key new = key old"
  shows "lookup_row key col (insert new (S - {old})) = (lookup_row key col S)(key old \<mapsto> col new)"
proof -
  have S: "S - {old} = {r \<in> S. key r \<noteq> key old}" using assms(1,2) by (auto dest: inj_onD)
  have "inj_on key {r \<in> S. key r \<noteq> key old}" using assms(1) by (auto simp: inj_on_def)
  then have "lookup_row key col (insert new {r \<in> S. key r \<noteq> key old})
      = (lookup_row key col {r \<in> S. key r \<noteq> key old})(key new \<mapsto> col new)"
    by (rule lookup_row_insert) (auto simp: assms(3))
  then show ?thesis using assms(3) by (simp add: S lookup_row_delete[OF assms(1)])
qed

lemma image_filter_key: "f ` {r \<in> S. f r \<noteq> k} = f ` S - {k}"
  by auto

text \<open>The rows sorted by a column that tells them apart are the list that the specification gives.\<close>

lemma sorted_rows:
  assumes "sorted (map col rows)" and "distinct rows" and "inj_on col (set rows)"
  shows "map col rows = sorted_list_of_set (col ` set rows)"
  using assms by (intro sorted_distinct_set_unique)
    (simp_all add: distinct_map sorted_list_of_set.distinct_sorted_key_list_of_set)

lemma listed:
  assumes "sorted (map col rows)" and "distinct rows" and "set rows = S" and "inj_on col S"
    and "\<And>r. r \<in> S \<Longrightarrow> f r = g (col r)"
  shows "map f rows = map g (sorted_list_of_set (col ` S))"
proof -
  have "map f rows = map g (map col rows)" using assms(3,5) by simp
  then show ?thesis using sorted_rows[OF assms(1,2)] assms(3,4) by simp
qed

end
