(* ===== verification/GormShared.thy ===== *)
theory GormShared
  imports Gorm
begin

text \<open>
  The \<open>gormShared\<close> store of \<^verbatim>\<open>internal/store/gorm.go\<close>: its models, its methods over the tables
  of a database, and the proof that it keeps the contract of the \<open>Shared\<close> interface whenever the
  tables and the transactions keep theirs.
\<close>

section \<open>Models\<close>

record userModel =
  um_ID :: nat
  um_Sub :: string

record resourceModel =
  rm_ID :: nat
  rm_Name :: string

record operationModel =
  om_ID :: nat
  om_Name :: string
  om_Resource :: string

text \<open>The handle \<^verbatim>\<open>*gorm.DB\<close> on a migrated shared database: one table for each of \<^verbatim>\<open>sharedModels()\<close>.\<close>

record 'db sharedDB =
  db_resources :: "(resourceModel, 'db) table"
  db_operations :: "(operationModel, 'db) table"
  db_users :: "(userModel, 'db) table"
  db_Transaction :: "(unit, 'db) op \<Rightarrow> (unit, 'db) op"

section \<open>Methods\<close>

definition gormShared_EnsureUser :: "'db sharedDB \<Rightarrow> string \<Rightarrow> (unit, 'db) op" where
  "gormShared_EnsureUser db sub =
     andThen (Create_DoNothing (db_users db) \<lparr>um_ID = 0, um_Sub = sub\<rparr>) (\<lambda>_. ret ())"

definition gormShared_ListUsers :: "'db sharedDB \<Rightarrow> (User list, 'db) op" where
  "gormShared_ListUsers db =
     andThen (Find_Order (db_users db) um_Sub (\<lambda>_. True)) (\<lambda>rows.
     ret (map (\<lambda>r. \<lparr>Sub = um_Sub r\<rparr>) rows))"

definition gormShared_CreateResource :: "'db sharedDB \<Rightarrow> string \<Rightarrow> (unit, 'db) op" where
  "gormShared_CreateResource db name =
     andThen (Create_DoNothing (db_resources db) \<lparr>rm_ID = 0, rm_Name = name\<rparr>) (\<lambda>rowsAffected.
     if rowsAffected = 0 then throw ErrConflict else ret ())"

definition gormShared_EnsureResource :: "'db sharedDB \<Rightarrow> string \<Rightarrow> (unit, 'db) op" where
  "gormShared_EnsureResource db name =
     andThen (Create_DoNothing (db_resources db) \<lparr>rm_ID = 0, rm_Name = name\<rparr>) (\<lambda>_. ret ())"

definition gormShared_DeleteResource :: "'db sharedDB \<Rightarrow> string \<Rightarrow> (unit, 'db) op" where
  "gormShared_DeleteResource db name = db_Transaction db (
     andThen (Delete_where (db_resources db) (\<lambda>r. rm_Name r = name)) (\<lambda>rowsAffected.
     if rowsAffected = 0 then throw ErrNotFound
     else andThen (Delete_where (db_operations db) (\<lambda>r. om_Resource r = name)) (\<lambda>_. ret ())))"

definition gormShared_ListResources :: "'db sharedDB \<Rightarrow> (Resource list, 'db) op" where
  "gormShared_ListResources db =
     andThen (Find_Order (db_resources db) rm_Name (\<lambda>_. True)) (\<lambda>rows.
     ret (map (\<lambda>r. \<lparr>Resource_Name = rm_Name r\<rparr>) rows))"

definition gormShared_CreateOperation :: "'db sharedDB \<Rightarrow> string \<Rightarrow> string \<Rightarrow> (unit, 'db) op" where
  "gormShared_CreateOperation db name resource = db_Transaction db (
     andThen (Create_DoNothing (db_resources db) \<lparr>rm_ID = 0, rm_Name = resource\<rparr>) (\<lambda>_.
     andThen (Create_DoNothing (db_operations db)
       \<lparr>om_ID = 0, om_Name = name, om_Resource = resource\<rparr>) (\<lambda>rowsAffected.
     if rowsAffected = 0 then throw ErrConflict else ret ())))"

text \<open>A conflict is not an error here; the transaction that met it was rolled back.\<close>

definition gormShared_EnsureOperation :: "'db sharedDB \<Rightarrow> string \<Rightarrow> string \<Rightarrow> (unit, 'db) op" where
  "gormShared_EnsureOperation db name resource = (\<lambda>d.
     case gormShared_CreateOperation db name resource d of (r, d') \<Rightarrow>
       (if r = Inl ErrConflict then Inr () else r, d'))"

definition gormShared_DeleteOperation :: "'db sharedDB \<Rightarrow> string \<Rightarrow> (unit, 'db) op" where
  "gormShared_DeleteOperation db name =
     andThen (Delete_where (db_operations db) (\<lambda>r. om_Name r = name)) (\<lambda>rowsAffected.
     if rowsAffected = 0 then throw ErrNotFound else ret ())"

definition gormShared_ListOperations :: "'db sharedDB \<Rightarrow> (Operation_row list, 'db) op" where
  "gormShared_ListOperations db =
     andThen (Find_Order (db_operations db) om_Name (\<lambda>_. True)) (\<lambda>rows.
     ret (map (\<lambda>r. \<lparr>Operation_Name = om_Name r, Operation_Resource = om_Resource r\<rparr>) rows))"

definition gormShared_OperationExists :: "'db sharedDB \<Rightarrow> string \<Rightarrow> (bool, 'db) op" where
  "gormShared_OperationExists db name =
     andThen (Count (db_operations db) (\<lambda>r. om_Name r = name)) (\<lambda>n. ret (n > 0))"

definition gorm_shared :: "'db sharedDB \<Rightarrow> 'db Shared" where
  "gorm_shared db = \<lparr>
     Shared_EnsureUser = gormShared_EnsureUser db, Shared_ListUsers = gormShared_ListUsers db,
     Shared_CreateResource = gormShared_CreateResource db,
     Shared_EnsureResource = gormShared_EnsureResource db,
     Shared_DeleteResource = gormShared_DeleteResource db,
     Shared_ListResources = gormShared_ListResources db,
     Shared_CreateOperation = gormShared_CreateOperation db,
     Shared_EnsureOperation = gormShared_EnsureOperation db,
     Shared_DeleteOperation = gormShared_DeleteOperation db,
     Shared_ListOperations = gormShared_ListOperations db,
     Shared_OperationExists = gormShared_OperationExists db\<rparr>"

section \<open>The rows and what they mean\<close>

record shared_rows =
  sr_resources :: "resourceModel set"
  sr_operations :: "operationModel set"
  sr_users :: "userModel set"

definition abs_shared_rows :: "shared_rows \<Rightarrow> sharedA" where
  "abs_shared_rows v = \<lparr>aUsers = um_Sub ` sr_users v, aResources = rm_Name ` sr_resources v,
     aOps = lookup_row om_Name om_Resource (sr_operations v)\<rparr>"

lemma abs_shared_rows_simps [simp]:
  "aUsers (abs_shared_rows v) = um_Sub ` sr_users v"
  "aResources (abs_shared_rows v) = rm_Name ` sr_resources v"
  "aOps (abs_shared_rows v) = lookup_row om_Name om_Resource (sr_operations v)"
  by (simp_all add: abs_shared_rows_def)

lemma abs_shared_rows_eq:
  "abs_shared_rows v = a \<longleftrightarrow> um_Sub ` sr_users v = aUsers a \<and> rm_Name ` sr_resources v = aResources a
     \<and> lookup_row om_Name om_Resource (sr_operations v) = aOps a"
  by (cases a) (simp add: abs_shared_rows_def)

section \<open>The contract\<close>

locale shared_database =
  transactional ok view "db_Transaction D"
  + users: db_table ok view "db_users D" sr_users "\<lambda>S. sr_users_update (\<lambda>_. S)" um_ID "\<lambda>n. um_ID_update (\<lambda>_. n)" um_Sub
  + resources: db_table ok view "db_resources D" sr_resources "\<lambda>S. sr_resources_update (\<lambda>_. S)" rm_ID "\<lambda>n. rm_ID_update (\<lambda>_. n)" rm_Name
  + operations: db_table ok view "db_operations D" sr_operations "\<lambda>S. sr_operations_update (\<lambda>_. S)" om_ID "\<lambda>n. om_ID_update (\<lambda>_. n)" om_Name
  for ok :: "'db \<Rightarrow> bool" and view :: "'db \<Rightarrow> shared_rows" and D :: "'db sharedDB"
begin

abbreviation absD where "absD \<equiv> \<lambda>d. abs_shared_rows (view d)"

lemma shared_refines:
  assumes "\<And>d. ok d \<Longrightarrow> wp m d (\<lambda>r v. r = fst (sp (absD d)) \<and> abs_shared_rows v = snd (sp (absD d)))"
  shows "refines ok absD m sp"
  using assms by (auto simp: refinesR_def refines_at_def outcome_def sum.rel_eq)

lemma EnsureUser_refines: "refines ok absD (gormShared_EnsureUser D sub) (spec_EnsureUser sub)"
  unfolding gormShared_EnsureUser_def
  by (rule shared_refines, rule wp_andThen, rule users.create_wp)
    (auto simp: spec_defs eff_simps abs_shared_rows_eq intro!: outcome_rules)

lemma ListUsers_refines: "refines ok absD (gormShared_ListUsers D) spec_ListUsers"
  unfolding gormShared_ListUsers_def
  by (rule shared_refines, rule wp_andThen, rule users.find_order_wp)
    (auto simp: spec_defs eff_simps users.unique_key intro!: outcome_rules listed)

lemma CreateResource_refines: "refines ok absD (gormShared_CreateResource D name) (spec_CreateResource name)"
  unfolding gormShared_CreateResource_def
  by (rule shared_refines, rule wp_andThen, rule resources.create_wp)
    (auto simp: spec_defs eff_simps abs_shared_rows_eq intro!: outcome_rules)

lemma EnsureResource_refines: "refines ok absD (gormShared_EnsureResource D name) (spec_EnsureResource name)"
  unfolding gormShared_EnsureResource_def
  by (rule shared_refines, rule wp_andThen, rule resources.create_wp)
    (auto simp: spec_defs eff_simps abs_shared_rows_eq intro!: outcome_rules)

lemma DeleteResource_rows:
  assumes "ok d"
  shows "lookup_row om_Name om_Resource {r \<in> sr_operations (view d). om_Resource r \<noteq> name}
    = (\<lambda>p. if lookup_row om_Name om_Resource (sr_operations (view d)) p = Some name then None
           else lookup_row om_Name om_Resource (sr_operations (view d)) p)"
proof
  fix p
  note iff = lookup_row_iff[OF operations.unique_key[OF assms], of om_Resource]
  show "lookup_row om_Name om_Resource {r \<in> sr_operations (view d). om_Resource r \<noteq> name} p
    = (if lookup_row om_Name om_Resource (sr_operations (view d)) p = Some name then None
       else lookup_row om_Name om_Resource (sr_operations (view d)) p)"
    unfolding lookup_row_filter[OF operations.unique_key[OF assms]]
    by (cases "lookup_row om_Name om_Resource (sr_operations (view d)) p", simp)
      (auto simp: iff dest: operations.same_key[OF assms])
qed

lemma DeleteResource_refines: "refines ok absD (gormShared_DeleteResource D name) (spec_DeleteResource name)"
  unfolding gormShared_DeleteResource_def
  by (rule shared_refines, rule transaction_wp, assumption, rule wp_andThen, rule resources.delete_wp, assumption)
    (auto simp: spec_defs eff_simps abs_shared_rows_eq resources.card_zero_iff DeleteResource_rows image_filter_key
      cong: if_cong intro!: outcome_rules wp_andThen)

lemma ListResources_refines: "refines ok absD (gormShared_ListResources D) spec_ListResources"
  unfolding gormShared_ListResources_def
  by (rule shared_refines, rule wp_andThen, rule resources.find_order_wp)
    (auto simp: spec_defs eff_simps resources.unique_key intro!: outcome_rules listed)

lemma CreateOperation_refines:
  "refines ok absD (gormShared_CreateOperation D name res) (spec_CreateOperation name res)"
  unfolding gormShared_CreateOperation_def
  by (rule shared_refines, rule transaction_wp, assumption, rule wp_andThen, rule resources.create_wp, assumption)
    (auto simp: spec_defs eff_simps abs_shared_rows_eq lookup_row_None lookup_row_insert operations.unique_key
      intro!: outcome_rules wp_andThen)

lemma EnsureOperation_refines:
  "refines ok absD (gormShared_EnsureOperation D name res) (spec_EnsureOperation name res)"
proof (rule shared_refines)
  fix d assume d: "ok d"
  note C = refinesD[OF CreateOperation_refines d, of name res]
  show "wp (gormShared_EnsureOperation D name res) d (\<lambda>r v. r = fst (spec_EnsureOperation name res (absD d))
      \<and> abs_shared_rows v = snd (spec_EnsureOperation name res (absD d)))"
    using C by (cases "gormShared_CreateOperation D name res d")
      (auto simp: outcome_def gormShared_EnsureOperation_def spec_defs eff_simps split: if_splits)
qed

lemma DeleteOperation_refines:
  "refines ok absD (gormShared_DeleteOperation D name) (spec_DeleteOperation name)"
  unfolding gormShared_DeleteOperation_def
  by (rule shared_refines, rule wp_andThen, rule operations.delete_wp, assumption)
    (auto simp: spec_defs eff_simps abs_shared_rows_eq operations.card_zero_iff lookup_row_None
        lookup_row_delete operations.unique_key fun_upd_idem
      intro!: outcome_rules)

lemma ListOperations_refines: "refines ok absD (gormShared_ListOperations D) spec_ListOperations"
  unfolding gormShared_ListOperations_def
  by (rule shared_refines, rule wp_andThen, rule operations.find_order_wp)
    (auto simp: spec_defs eff_simps operations.unique_key dom_lookup_row lookup_row_member
      intro!: outcome_rules listed)

lemma OperationExists_refines: "refines ok absD (gormShared_OperationExists D name) (spec_OperationExists name)"
  unfolding gormShared_OperationExists_def
  by (rule shared_refines, rule wp_andThen, rule operations.count_wp)
    (auto simp: spec_defs eff_simps lookup_row_def card_gt_0_iff operations.finite_rows intro!: outcome_rules)

text \<open>The contract of the tables gives the contract of the store.\<close>

sublocale store: shared_store "gorm_shared D" ok absD
proof
  show "ok d \<Longrightarrow> finite_shared (absD d)" for d
    by (simp add: finite_shared_def dom_lookup_row users.finite_rows resources.finite_rows operations.finite_rows)
qed (simp_all add: gorm_shared_def EnsureUser_refines ListUsers_refines CreateResource_refines
  EnsureResource_refines DeleteResource_refines ListResources_refines CreateOperation_refines
  EnsureOperation_refines DeleteOperation_refines ListOperations_refines OperationExists_refines)

lemmas gorm_shared_store = store.shared_store_axioms

end

end
