(* ===== verification/GormTenant.thy ===== *)
theory GormTenant
  imports Gorm
begin

text \<open>
  The \<open>gormTenant\<close> store of \<^verbatim>\<open>internal/store/gorm.go\<close>: its models, its methods over the tables of a
  database, and the proof that it keeps the contract of the \<open>Tenant\<close> interface. Roles are referred
  to by their IDs; the invariant that no row refers to a role that is not there is what makes a new
  role start empty, whatever ID the database gives it.
\<close>

section \<open>Models\<close>

record roleModel =
  ro_ID :: nat
  ro_Name :: string

record userRoleModel =
  ur_ID :: nat
  ur_UserSub :: string
  ur_RoleID :: nat

record rolePermissionModel =
  rp_ID :: nat
  rp_RoleID :: nat
  rp_Operation :: string
  rp_Scope :: string

record userPermissionModel =
  up_ID :: nat
  up_UserSub :: string
  up_Operation :: string
  up_Scope :: string

record roleRestrictedIDModel =
  rr_ID :: nat
  rr_RoleID :: nat
  rr_Operation :: string
  rr_RecordID :: string

record userRestrictedIDModel =
  ui_ID :: nat
  ui_UserSub :: string
  ui_Operation :: string
  ui_RecordID :: string

text \<open>The handle on a migrated tenant database: one table for each of \<^verbatim>\<open>tenantModels()\<close>.\<close>

record 'db tenantDB =
  db_roles :: "(roleModel, 'db) table"
  db_user_roles :: "(userRoleModel, 'db) table"
  db_role_permissions :: "(rolePermissionModel, 'db) table"
  db_user_permissions :: "(userPermissionModel, 'db) table"
  db_role_restricted_ids :: "(roleRestrictedIDModel, 'db) table"
  db_user_restricted_ids :: "(userRestrictedIDModel, 'db) table"
  db_tenant_Transaction :: "(unit, 'db) op \<Rightarrow> (unit, 'db) op"

section \<open>Roles and assignments\<close>

definition roleByName :: "'db tenantDB \<Rightarrow> string \<Rightarrow> (roleModel, 'db) op" where
  "roleByName db name =
     andThen (First (db_roles db) (\<lambda>r. ro_Name r = name)) (\<lambda>found.
     case found of None \<Rightarrow> throw ErrNotFound | Some role \<Rightarrow> ret role)"

definition gormTenant_CreateRole :: "'db tenantDB \<Rightarrow> string \<Rightarrow> (unit, 'db) op" where
  "gormTenant_CreateRole db name =
     andThen (Create_DoNothing (db_roles db) \<lparr>ro_ID = 0, ro_Name = name\<rparr>) (\<lambda>rowsAffected.
     if rowsAffected = 0 then throw ErrConflict else ret ())"

definition gormTenant_EnsureRole :: "'db tenantDB \<Rightarrow> string \<Rightarrow> (unit, 'db) op" where
  "gormTenant_EnsureRole db name =
     andThen (Create_DoNothing (db_roles db) \<lparr>ro_ID = 0, ro_Name = name\<rparr>) (\<lambda>_. ret ())"

definition gormTenant_RoleExists :: "'db tenantDB \<Rightarrow> string \<Rightarrow> (bool, 'db) op" where
  "gormTenant_RoleExists db name =
     andThen (Count (db_roles db) (\<lambda>r. ro_Name r = name)) (\<lambda>n. ret (n > 0))"

definition gormTenant_RenameRole :: "'db tenantDB \<Rightarrow> string \<Rightarrow> string \<Rightarrow> (unit, 'db) op" where
  "gormTenant_RenameRole db name newName =
     andThen (roleByName db name) (\<lambda>role.
     andThen (gormTenant_RoleExists db newName) (\<lambda>exists.
     if exists then throw ErrConflict
     else Update_where (db_roles db) (\<lambda>r. ro_ID r = ro_ID role) (\<lambda>r. r\<lparr>ro_Name := newName\<rparr>)))"

definition gormTenant_DeleteRole :: "'db tenantDB \<Rightarrow> string \<Rightarrow> (unit, 'db) op" where
  "gormTenant_DeleteRole db name =
     andThen (roleByName db name) (\<lambda>role. db_tenant_Transaction db (
     andThen (Delete_where (db_user_roles db) (\<lambda>r. ur_RoleID r = ro_ID role)) (\<lambda>_.
     andThen (Delete_where (db_role_permissions db) (\<lambda>r. rp_RoleID r = ro_ID role)) (\<lambda>_.
     andThen (Delete_where (db_role_restricted_ids db) (\<lambda>r. rr_RoleID r = ro_ID role)) (\<lambda>_.
     andThen (Delete_where (db_roles db) (\<lambda>r. ro_ID r = ro_ID role)) (\<lambda>_. ret ()))))))"

definition gormTenant_ListRoles :: "'db tenantDB \<Rightarrow> (Role list, 'db) op" where
  "gormTenant_ListRoles db =
     andThen (Find_Order (db_roles db) ro_Name (\<lambda>_. True)) (\<lambda>rows.
     ret (map (\<lambda>r. \<lparr>Role_Name = ro_Name r\<rparr>) rows))"

definition gormTenant_AssignRole :: "'db tenantDB \<Rightarrow> string \<Rightarrow> string \<Rightarrow> (unit, 'db) op" where
  "gormTenant_AssignRole db sub role =
     andThen (roleByName db role) (\<lambda>r.
     andThen (Create_DoNothing (db_user_roles db) \<lparr>ur_ID = 0, ur_UserSub = sub, ur_RoleID = ro_ID r\<rparr>) (\<lambda>_.
     ret ()))"

definition gormTenant_UnassignRole :: "'db tenantDB \<Rightarrow> string \<Rightarrow> string \<Rightarrow> (unit, 'db) op" where
  "gormTenant_UnassignRole db sub role =
     andThen (roleByName db role) (\<lambda>r.
     andThen (Delete_where (db_user_roles db) (\<lambda>a. ur_UserSub a = sub \<and> ur_RoleID a = ro_ID r)) (\<lambda>rowsAffected.
     if rowsAffected = 0 then throw ErrNotFound else ret ()))"

definition gormTenant_UserRoles :: "'db tenantDB \<Rightarrow> string \<Rightarrow> (string slice, 'db) op" where
  "gormTenant_UserRoles db sub =
     andThen (Find (db_user_roles db) (\<lambda>a. ur_UserSub a = sub)) (\<lambda>assignments.
     if assignments = [] then ret (Some [])
     else let ids = map ur_RoleID assignments in
       andThen (Find_Order (db_roles db) ro_Name (\<lambda>r. ro_ID r \<in> set ids)) (\<lambda>roles.
       ret (Some (map ro_Name roles))))"

section \<open>Permissions\<close>

text \<open>The column that \<^verbatim>\<open>AssignmentColumns([]string{"scope"})\<close> takes over from the new row.\<close>

definition gormTenant_SetRolePermission :: "'db tenantDB \<Rightarrow> string \<Rightarrow> string \<Rightarrow> Scope \<Rightarrow> (unit, 'db) op" where
  "gormTenant_SetRolePermission db role operation scope =
     andThen (roleByName db role) (\<lambda>r.
     Create_DoUpdates (db_role_permissions db) (\<lambda>old new. old\<lparr>rp_Scope := rp_Scope new\<rparr>)
       \<lparr>rp_ID = 0, rp_RoleID = ro_ID r, rp_Operation = operation, rp_Scope = scope\<rparr>)"

definition gormTenant_RemoveRolePermission :: "'db tenantDB \<Rightarrow> string \<Rightarrow> string \<Rightarrow> (unit, 'db) op" where
  "gormTenant_RemoveRolePermission db role operation =
     andThen (roleByName db role) (\<lambda>r. db_tenant_Transaction db (
     andThen (Delete_where (db_role_permissions db) (\<lambda>p. rp_RoleID p = ro_ID r \<and> rp_Operation p = operation)) (\<lambda>rowsAffected.
     if rowsAffected = 0 then throw ErrNotFound
     else andThen (Delete_where (db_role_restricted_ids db) (\<lambda>p. rr_RoleID p = ro_ID r \<and> rr_Operation p = operation)) (\<lambda>_.
          ret ()))))"

definition gormTenant_RolePermissions :: "'db tenantDB \<Rightarrow> string \<Rightarrow> (OperationScope list, 'db) op" where
  "gormTenant_RolePermissions db role =
     andThen (roleByName db role) (\<lambda>r.
     andThen (Find_Order (db_role_permissions db) rp_Operation (\<lambda>p. rp_RoleID p = ro_ID r)) (\<lambda>rows.
     ret (map (\<lambda>p. operation_scope (rp_Operation p) (rp_Scope p)) rows)))"

definition gormTenant_HasRolePermission :: "'db tenantDB \<Rightarrow> string \<Rightarrow> string \<Rightarrow> (bool, 'db) op" where
  "gormTenant_HasRolePermission db role operation =
     andThen (roleByName db role) (\<lambda>r.
     andThen (Count (db_role_permissions db) (\<lambda>p. rp_RoleID p = ro_ID r \<and> rp_Operation p = operation)) (\<lambda>n.
     ret (n > 0)))"

definition gormTenant_SetUserPermission :: "'db tenantDB \<Rightarrow> string \<Rightarrow> string \<Rightarrow> Scope \<Rightarrow> (unit, 'db) op" where
  "gormTenant_SetUserPermission db sub operation scope =
     Create_DoUpdates (db_user_permissions db) (\<lambda>old new. old\<lparr>up_Scope := up_Scope new\<rparr>)
       \<lparr>up_ID = 0, up_UserSub = sub, up_Operation = operation, up_Scope = scope\<rparr>"

definition gormTenant_RemoveUserPermission :: "'db tenantDB \<Rightarrow> string \<Rightarrow> string \<Rightarrow> (unit, 'db) op" where
  "gormTenant_RemoveUserPermission db sub operation = db_tenant_Transaction db (
     andThen (Delete_where (db_user_permissions db) (\<lambda>p. up_UserSub p = sub \<and> up_Operation p = operation)) (\<lambda>rowsAffected.
     if rowsAffected = 0 then throw ErrNotFound
     else andThen (Delete_where (db_user_restricted_ids db) (\<lambda>p. ui_UserSub p = sub \<and> ui_Operation p = operation)) (\<lambda>_.
          ret ())))"

definition gormTenant_UserPermissions :: "'db tenantDB \<Rightarrow> string \<Rightarrow> (OperationScope list, 'db) op" where
  "gormTenant_UserPermissions db sub =
     andThen (Find_Order (db_user_permissions db) up_Operation (\<lambda>p. up_UserSub p = sub)) (\<lambda>rows.
     ret (map (\<lambda>p. operation_scope (up_Operation p) (up_Scope p)) rows))"

definition gormTenant_HasUserPermission :: "'db tenantDB \<Rightarrow> string \<Rightarrow> string \<Rightarrow> (bool, 'db) op" where
  "gormTenant_HasUserPermission db sub operation =
     andThen (Count (db_user_permissions db) (\<lambda>p. up_UserSub p = sub \<and> up_Operation p = operation)) (\<lambda>n.
     ret (n > 0))"

section \<open>Restricted record IDs\<close>

definition gormTenant_AddRoleRestrictedIDs :: "'db tenantDB \<Rightarrow> string \<Rightarrow> string \<Rightarrow> string list \<Rightarrow> (unit, 'db) op" where
  "gormTenant_AddRoleRestrictedIDs db role operation ids =
     andThen (roleByName db role) (\<lambda>r. db_tenant_Transaction db (forEach (\<lambda>i.
       andThen (Create_DoNothing (db_role_restricted_ids db)
         \<lparr>rr_ID = 0, rr_RoleID = ro_ID r, rr_Operation = operation, rr_RecordID = i\<rparr>) (\<lambda>_. ret ())) ids))"

definition gormTenant_RemoveRoleRestrictedIDs :: "'db tenantDB \<Rightarrow> string \<Rightarrow> string \<Rightarrow> string list \<Rightarrow> (unit, 'db) op" where
  "gormTenant_RemoveRoleRestrictedIDs db role operation ids =
     (if length ids = 0 then ret ()
      else andThen (roleByName db role) (\<lambda>r.
           andThen (Delete_where (db_role_restricted_ids db)
             (\<lambda>q. rr_RoleID q = ro_ID r \<and> rr_Operation q = operation \<and> rr_RecordID q \<in> set ids)) (\<lambda>_. ret ())))"

definition gormTenant_RoleRestrictedIDs :: "'db tenantDB \<Rightarrow> string list \<Rightarrow> string \<Rightarrow> (string list, 'db) op" where
  "gormTenant_RoleRestrictedIDs db roles operation =
     (if length roles = 0 then ret []
      else andThen (Find (db_roles db) (\<lambda>r. ro_Name r \<in> set roles)) (\<lambda>roleRows.
           let ids = map ro_ID roleRows in
           andThen (Find (db_role_restricted_ids db) (\<lambda>q. rr_RoleID q \<in> set ids \<and> rr_Operation q = operation)) (\<lambda>rows.
           ret (snd (collect_ids (map rr_RecordID rows) [] [])))))"

definition gormTenant_AddUserRestrictedIDs :: "'db tenantDB \<Rightarrow> string \<Rightarrow> string \<Rightarrow> string list \<Rightarrow> (unit, 'db) op" where
  "gormTenant_AddUserRestrictedIDs db sub operation ids = db_tenant_Transaction db (forEach (\<lambda>i.
       andThen (Create_DoNothing (db_user_restricted_ids db)
         \<lparr>ui_ID = 0, ui_UserSub = sub, ui_Operation = operation, ui_RecordID = i\<rparr>) (\<lambda>_. ret ())) ids)"

definition gormTenant_RemoveUserRestrictedIDs :: "'db tenantDB \<Rightarrow> string \<Rightarrow> string \<Rightarrow> string list \<Rightarrow> (unit, 'db) op" where
  "gormTenant_RemoveUserRestrictedIDs db sub operation ids =
     (if length ids = 0 then ret ()
      else andThen (Delete_where (db_user_restricted_ids db)
             (\<lambda>q. ui_UserSub q = sub \<and> ui_Operation q = operation \<and> ui_RecordID q \<in> set ids)) (\<lambda>_. ret ()))"

definition gormTenant_UserRestrictedIDs :: "'db tenantDB \<Rightarrow> string \<Rightarrow> string \<Rightarrow> (string list, 'db) op" where
  "gormTenant_UserRestrictedIDs db sub operation =
     andThen (Find (db_user_restricted_ids db) (\<lambda>q. ui_UserSub q = sub \<and> ui_Operation q = operation)) (\<lambda>rows.
     ret (map ui_RecordID rows))"

text \<open>\<open>names\<close> is the local map from role IDs to names; a missing key reads as the empty string.\<close>

definition gormTenant_RoleGrants :: "'db tenantDB \<Rightarrow> string list \<Rightarrow> (RoleGrant list, 'db) op" where
  "gormTenant_RoleGrants db roles =
     (if length roles = 0 then ret []
      else andThen (Find (db_roles db) (\<lambda>r. ro_Name r \<in> set roles)) (\<lambda>roleRows.
           let names = fold (\<lambda>r m. m(ro_ID r \<mapsto> ro_Name r)) roleRows Map.empty;
               ids = map ro_ID roleRows in
           andThen (Find (db_role_permissions db) (\<lambda>p. rp_RoleID p \<in> set ids)) (\<lambda>rows.
           ret (map (\<lambda>p. role_grant (case names (rp_RoleID p) of None \<Rightarrow> '''' | Some n \<Rightarrow> n)
                           (rp_Operation p) (rp_Scope p)) rows))))"

definition gorm_tenant :: "'db tenantDB \<Rightarrow> 'db Tenant" where
  "gorm_tenant db = \<lparr>
     Tenant_CreateRole = gormTenant_CreateRole db, Tenant_EnsureRole = gormTenant_EnsureRole db,
     Tenant_RoleExists = gormTenant_RoleExists db, Tenant_RenameRole = gormTenant_RenameRole db,
     Tenant_DeleteRole = gormTenant_DeleteRole db, Tenant_ListRoles = gormTenant_ListRoles db,
     Tenant_AssignRole = gormTenant_AssignRole db, Tenant_UnassignRole = gormTenant_UnassignRole db,
     Tenant_UserRoles = gormTenant_UserRoles db, Tenant_SetRolePermission = gormTenant_SetRolePermission db,
     Tenant_RemoveRolePermission = gormTenant_RemoveRolePermission db,
     Tenant_RolePermissions = gormTenant_RolePermissions db,
     Tenant_HasRolePermission = gormTenant_HasRolePermission db,
     Tenant_SetUserPermission = gormTenant_SetUserPermission db,
     Tenant_RemoveUserPermission = gormTenant_RemoveUserPermission db,
     Tenant_UserPermissions = gormTenant_UserPermissions db,
     Tenant_HasUserPermission = gormTenant_HasUserPermission db,
     Tenant_AddRoleRestrictedIDs = gormTenant_AddRoleRestrictedIDs db,
     Tenant_RemoveRoleRestrictedIDs = gormTenant_RemoveRoleRestrictedIDs db,
     Tenant_RoleRestrictedIDs = gormTenant_RoleRestrictedIDs db,
     Tenant_AddUserRestrictedIDs = gormTenant_AddUserRestrictedIDs db,
     Tenant_RemoveUserRestrictedIDs = gormTenant_RemoveUserRestrictedIDs db,
     Tenant_UserRestrictedIDs = gormTenant_UserRestrictedIDs db,
     Tenant_RoleGrants = gormTenant_RoleGrants db\<rparr>"

section \<open>The rows and what they mean\<close>

record tenant_rows =
  tr_roles :: "roleModel set"
  tr_user_roles :: "userRoleModel set"
  tr_role_permissions :: "rolePermissionModel set"
  tr_user_permissions :: "userPermissionModel set"
  tr_role_restricted_ids :: "roleRestrictedIDModel set"
  tr_user_restricted_ids :: "userRestrictedIDModel set"

abbreviation ur_key :: "userRoleModel \<Rightarrow> string \<times> nat" where
  "ur_key \<equiv> \<lambda>r. (ur_UserSub r, ur_RoleID r)"

abbreviation rp_key :: "rolePermissionModel \<Rightarrow> nat \<times> string" where
  "rp_key \<equiv> \<lambda>r. (rp_RoleID r, rp_Operation r)"

abbreviation up_key :: "userPermissionModel \<Rightarrow> string \<times> string" where
  "up_key \<equiv> \<lambda>r. (up_UserSub r, up_Operation r)"

abbreviation rr_key :: "roleRestrictedIDModel \<Rightarrow> nat \<times> string \<times> string" where
  "rr_key \<equiv> \<lambda>r. (rr_RoleID r, rr_Operation r, rr_RecordID r)"

abbreviation ui_key :: "userRestrictedIDModel \<Rightarrow> string \<times> string \<times> string" where
  "ui_key \<equiv> \<lambda>r. (ui_UserSub r, ui_Operation r, ui_RecordID r)"

definition role_id :: "tenant_rows \<Rightarrow> string \<Rightarrow> nat option" where
  "role_id v n = lookup_row ro_Name ro_ID (tr_roles v) n"

definition perms_of_id :: "tenant_rows \<Rightarrow> nat \<Rightarrow> string \<Rightarrow> Scope option" where
  "perms_of_id v i p = lookup_row rp_key rp_Scope (tr_role_permissions v) (i, p)"

definition ids_of_id :: "tenant_rows \<Rightarrow> nat \<Rightarrow> string \<Rightarrow> string set" where
  "ids_of_id v i p = {x. (i, p, x) \<in> rr_key ` tr_role_restricted_ids v}"

definition assigned :: "tenant_rows \<Rightarrow> string \<Rightarrow> string set" where
  "assigned v sub = {n. \<exists>i. role_id v n = Some i \<and> (sub, i) \<in> ur_key ` tr_user_roles v}"

definition user_perm :: "tenant_rows \<Rightarrow> string \<Rightarrow> string \<Rightarrow> Scope option" where
  "user_perm v u p = lookup_row up_key up_Scope (tr_user_permissions v) (u, p)"

definition user_id_set :: "tenant_rows \<Rightarrow> string \<Rightarrow> string \<Rightarrow> string set" where
  "user_id_set v u p = {x. (u, p, x) \<in> ui_key ` tr_user_restricted_ids v}"

definition abs_tenant_rows :: "tenant_rows \<Rightarrow> tenantA" where
  "abs_tenant_rows v = \<lparr>
     aRoles = ro_Name ` tr_roles v,
     aAssign = assigned v,
     aRolePerm = (\<lambda>n p. Option.bind (role_id v n) (\<lambda>i. perms_of_id v i p)),
     aRoleIDs = (\<lambda>n p. {x. \<exists>i. role_id v n = Some i \<and> x \<in> ids_of_id v i p}),
     aUserPerm = user_perm v,
     aUserIDs = user_id_set v\<rparr>"

text \<open>No row refers to a role that is not there.\<close>

definition no_orphans :: "tenant_rows \<Rightarrow> bool" where
  "no_orphans v \<longleftrightarrow> (\<forall>a \<in> tr_user_roles v. ur_RoleID a \<in> ro_ID ` tr_roles v)
     \<and> (\<forall>p \<in> tr_role_permissions v. rp_RoleID p \<in> ro_ID ` tr_roles v)
     \<and> (\<forall>q \<in> tr_role_restricted_ids v. rr_RoleID q \<in> ro_ID ` tr_roles v)"

lemma abs_tenant_rows_simps [simp]:
  "aRoles (abs_tenant_rows v) = ro_Name ` tr_roles v"
  "aAssign (abs_tenant_rows v) = assigned v"
  "aRolePerm (abs_tenant_rows v) = (\<lambda>n p. Option.bind (role_id v n) (\<lambda>i. perms_of_id v i p))"
  "aRoleIDs (abs_tenant_rows v) = (\<lambda>n p. {x. \<exists>i. role_id v n = Some i \<and> x \<in> ids_of_id v i p})"
  "aUserPerm (abs_tenant_rows v) = user_perm v"
  "aUserIDs (abs_tenant_rows v) = user_id_set v"
  by (simp_all add: abs_tenant_rows_def)

lemma abs_tenant_rows_eq:
  "abs_tenant_rows v = a \<longleftrightarrow> aRoles (abs_tenant_rows v) = aRoles a \<and> aAssign (abs_tenant_rows v) = aAssign a
     \<and> aRolePerm (abs_tenant_rows v) = aRolePerm a \<and> aRoleIDs (abs_tenant_rows v) = aRoleIDs a
     \<and> aUserPerm (abs_tenant_rows v) = aUserPerm a \<and> aUserIDs (abs_tenant_rows v) = aUserIDs a"
  by (cases a) (auto simp: abs_tenant_rows_def)

lemma rows_frame [simp]:
  "role_id (v\<lparr>tr_user_roles := A\<rparr>) = role_id v" "role_id (v\<lparr>tr_role_permissions := P\<rparr>) = role_id v"
  "role_id (v\<lparr>tr_user_permissions := U\<rparr>) = role_id v" "role_id (v\<lparr>tr_role_restricted_ids := I\<rparr>) = role_id v"
  "role_id (v\<lparr>tr_user_restricted_ids := J\<rparr>) = role_id v"
  "perms_of_id (v\<lparr>tr_roles := R\<rparr>) = perms_of_id v" "perms_of_id (v\<lparr>tr_user_roles := A\<rparr>) = perms_of_id v"
  "perms_of_id (v\<lparr>tr_user_permissions := U\<rparr>) = perms_of_id v"
  "perms_of_id (v\<lparr>tr_role_restricted_ids := I\<rparr>) = perms_of_id v"
  "perms_of_id (v\<lparr>tr_user_restricted_ids := J\<rparr>) = perms_of_id v"
  "ids_of_id (v\<lparr>tr_roles := R\<rparr>) = ids_of_id v" "ids_of_id (v\<lparr>tr_user_roles := A\<rparr>) = ids_of_id v"
  "ids_of_id (v\<lparr>tr_role_permissions := P\<rparr>) = ids_of_id v"
  "ids_of_id (v\<lparr>tr_user_permissions := U\<rparr>) = ids_of_id v"
  "ids_of_id (v\<lparr>tr_user_restricted_ids := J\<rparr>) = ids_of_id v"
  "assigned (v\<lparr>tr_role_permissions := P\<rparr>) = assigned v" "assigned (v\<lparr>tr_user_permissions := U\<rparr>) = assigned v"
  "assigned (v\<lparr>tr_role_restricted_ids := I\<rparr>) = assigned v"
  "assigned (v\<lparr>tr_user_restricted_ids := J\<rparr>) = assigned v"
  "user_perm (v\<lparr>tr_roles := R\<rparr>) = user_perm v" "user_perm (v\<lparr>tr_user_roles := A\<rparr>) = user_perm v"
  "user_perm (v\<lparr>tr_role_permissions := P\<rparr>) = user_perm v"
  "user_perm (v\<lparr>tr_role_restricted_ids := I\<rparr>) = user_perm v"
  "user_perm (v\<lparr>tr_user_restricted_ids := J\<rparr>) = user_perm v"
  "user_id_set (v\<lparr>tr_roles := R\<rparr>) = user_id_set v" "user_id_set (v\<lparr>tr_user_roles := A\<rparr>) = user_id_set v"
  "user_id_set (v\<lparr>tr_role_permissions := P\<rparr>) = user_id_set v"
  "user_id_set (v\<lparr>tr_user_permissions := U\<rparr>) = user_id_set v"
  "user_id_set (v\<lparr>tr_role_restricted_ids := I\<rparr>) = user_id_set v"
  by (simp_all add: role_id_def perms_of_id_def ids_of_id_def assigned_def user_perm_def user_id_set_def fun_eq_iff)

lemma no_orphans_frame [simp]:
  "no_orphans (v\<lparr>tr_user_permissions := U\<rparr>) = no_orphans v"
  "no_orphans (v\<lparr>tr_user_restricted_ids := J\<rparr>) = no_orphans v"
  by (simp_all add: no_orphans_def)

section \<open>The contract\<close>

locale tenant_database =
  transactional ok view "db_tenant_Transaction D"
  + roles: db_table ok view "db_roles D" tr_roles "\<lambda>S. tr_roles_update (\<lambda>_. S)"
      ro_ID "\<lambda>n. ro_ID_update (\<lambda>_. n)" ro_Name
  + assignments: db_table ok view "db_user_roles D" tr_user_roles "\<lambda>S. tr_user_roles_update (\<lambda>_. S)"
      ur_ID "\<lambda>n. ur_ID_update (\<lambda>_. n)" ur_key
  + role_perms: db_table ok view "db_role_permissions D" tr_role_permissions
      "\<lambda>S. tr_role_permissions_update (\<lambda>_. S)" rp_ID "\<lambda>n. rp_ID_update (\<lambda>_. n)" rp_key
  + user_perms: db_table ok view "db_user_permissions D" tr_user_permissions
      "\<lambda>S. tr_user_permissions_update (\<lambda>_. S)" up_ID "\<lambda>n. up_ID_update (\<lambda>_. n)" up_key
  + role_ids: db_table ok view "db_role_restricted_ids D" tr_role_restricted_ids
      "\<lambda>S. tr_role_restricted_ids_update (\<lambda>_. S)" rr_ID "\<lambda>n. rr_ID_update (\<lambda>_. n)"
      rr_key
  + user_ids: db_table ok view "db_user_restricted_ids D" tr_user_restricted_ids
      "\<lambda>S. tr_user_restricted_ids_update (\<lambda>_. S)" ui_ID "\<lambda>n. ui_ID_update (\<lambda>_. n)"
      ui_key
  for ok :: "'db \<Rightarrow> bool" and view :: "'db \<Rightarrow> tenant_rows" and D :: "'db tenantDB"
begin

abbreviation absD where "absD \<equiv> \<lambda>d. abs_tenant_rows (view d)"

abbreviation okD where "okD \<equiv> \<lambda>d. ok d \<and> no_orphans (view d)"

lemma tenant_refinesR:
  assumes "\<And>d. ok d \<Longrightarrow> no_orphans (view d) \<Longrightarrow>
    wp m d (\<lambda>r v. rel_sum (=) R r (fst (sp (absD d))) \<and> abs_tenant_rows v = snd (sp (absD d)) \<and> no_orphans v)"
  shows "refinesR okD absD R m sp"
  using assms by (auto simp: refinesR_def refines_at_def outcome_def)

lemma tenant_refines:
  assumes "\<And>d. ok d \<Longrightarrow> no_orphans (view d) \<Longrightarrow>
    wp m d (\<lambda>r v. r = fst (sp (absD d)) \<and> abs_tenant_rows v = snd (sp (absD d)) \<and> no_orphans v)"
  shows "refines okD absD m sp"
  by (rule tenant_refinesR) (simp add: sum.rel_eq assms)

lemma roleByName_wp [outcome_rules]:
  assumes "ok d" and "name \<notin> ro_Name ` tr_roles (view d) \<Longrightarrow> Q (Inl ErrNotFound) (view d)"
    and "\<And>r. r \<in> tr_roles (view d) \<Longrightarrow> ro_Name r = name \<Longrightarrow> Q (Inr r) (view d)"
  shows "wp (roleByName D name) d Q"
  unfolding roleByName_def
  by (rule wp_andThen, rule roles.first_wp[OF assms(1)]) (auto intro!: outcome_rules assms(2,3))

lemma role_id_member: "ok d \<Longrightarrow> r \<in> tr_roles (view d) \<Longrightarrow> role_id (view d) (ro_Name r) = Some (ro_ID r)"
  using lookup_row_member[OF roles.unique_key] by (simp add: role_id_def)

lemma role_id_None: "role_id v n = None \<longleftrightarrow> n \<notin> ro_Name ` tr_roles v"
  by (simp add: role_id_def lookup_row_None)

text \<open>A role with a fresh ID has nothing, because no row refers to an ID that is not in use.\<close>

lemma abs_new_role:
  assumes d: "ok d" and orphans: "no_orphans (view d)"
    and fresh: "n \<notin> ro_ID ` tr_roles (view d)" "name \<notin> ro_Name ` tr_roles (view d)"
  defines "v \<equiv> (view d)\<lparr>tr_roles := insert \<lparr>ro_ID = n, ro_Name = name\<rparr> (tr_roles (view d))\<rparr>"
  shows "abs_tenant_rows v = (absD d)\<lparr>aRoles := insert name (aRoles (absD d))\<rparr>" "no_orphans v"
proof -
  have id: "role_id v = (role_id (view d))(name \<mapsto> n)"
    using lookup_row_insert[OF roles.unique_key[OF d], of "\<lparr>ro_ID = n, ro_Name = name\<rparr>" ro_ID] fresh
    by (simp add: v_def role_id_def fun_eq_iff)
  have none: "role_id (view d) name = None" using fresh(2) by (simp add: role_id_None)
  have same: "perms_of_id v = perms_of_id (view d)" "ids_of_id v = ids_of_id (view d)"
    "user_perm v = user_perm (view d)" "user_id_set v = user_id_set (view d)"
    "ro_Name ` tr_roles v = insert name (ro_Name ` tr_roles (view d))"
    by (simp_all add: v_def)
  have empty: "perms_of_id (view d) n p = None" "ids_of_id (view d) n p = {}" for p
    using orphans fresh(1)
    by (auto simp: perms_of_id_def ids_of_id_def lookup_row_None no_orphans_def)
  have "\<forall>a \<in> tr_user_roles (view d). ur_RoleID a \<noteq> n"
    using orphans fresh(1) by (auto simp: no_orphans_def)
  then have assign: "assigned v = assigned (view d)"
    using none by (auto simp: v_def[symmetric] assigned_def id fun_eq_iff) (auto simp: v_def)
  have perms: "aRolePerm (abs_tenant_rows v) = aRolePerm (absD d)"
    "aRoleIDs (abs_tenant_rows v) = aRoleIDs (absD d)"
    using none by (auto simp: id same empty fun_eq_iff)
  show "abs_tenant_rows v = (absD d)\<lparr>aRoles := insert name (aRoles (absD d))\<rparr>"
    unfolding abs_tenant_rows_eq using assign perms by (simp add: same)
  show "no_orphans v" using orphans by (auto simp: v_def no_orphans_def)
qed

lemma role_known:
  "r \<in> tr_roles v \<Longrightarrow>
   (abs_tenant_rows v)\<lparr>aRoles := insert (ro_Name r) (ro_Name ` tr_roles v)\<rparr> = abs_tenant_rows v"
  by (auto simp: abs_tenant_rows_def)

lemma CreateRole_refines: "refines okD absD (gormTenant_CreateRole D name) (spec_CreateRole name)"
  unfolding gormTenant_CreateRole_def
  by (rule tenant_refines, rule wp_andThen, rule roles.create_wp)
    (auto simp: spec_defs eff_simps abs_new_role intro!: outcome_rules)

lemma EnsureRole_refines: "refines okD absD (gormTenant_EnsureRole D name) (spec_EnsureRole name)"
  unfolding gormTenant_EnsureRole_def
  by (rule tenant_refines, rule wp_andThen, rule roles.create_wp)
    (auto simp: spec_defs eff_simps abs_new_role role_known intro!: outcome_rules)

lemma RoleExists_wp [outcome_rules]:
  "ok d \<Longrightarrow> Q (Inr (name \<in> ro_Name ` tr_roles (view d))) (view d) \<Longrightarrow> wp (gormTenant_RoleExists D name) d Q"
  unfolding gormTenant_RoleExists_def
  by (rule wp_andThen, rule roles.count_wp)
    (auto simp: card_gt_0_iff roles.finite_rows image_iff intro!: outcome_rules elim!: back_subst[of "\<lambda>b. Q (Inr b) _"])

lemma RoleExists_refines: "refines okD absD (gormTenant_RoleExists D name) (spec_RoleExists name)"
  by (rule tenant_refines, rule RoleExists_wp) (auto simp: spec_defs eff_simps)

lemma ListRoles_refines: "refines okD absD (gormTenant_ListRoles D) spec_ListRoles"
  unfolding gormTenant_ListRoles_def
  by (rule tenant_refines, rule wp_andThen, rule roles.find_order_wp)
    (auto simp: spec_defs eff_simps roles.unique_key intro!: outcome_rules listed)

lemma role_id_inj:
  assumes "ok d" and "role_id (view d) n = Some i" and "role_id (view d) n' = Some i"
  shows "n = n'"
  using assms roles.same_id[OF assms(1)]
  unfolding role_id_def lookup_row_iff[OF roles.unique_key[OF assms(1)]] by metis

lemma role_id_eq:
  assumes "ok d" and "role_id (view d) role = Some i"
  shows "role_id (view d) n = Some i \<longleftrightarrow> n = role"
  using role_id_inj[OF assms(1) _ assms(2)] assms(2) by blast

text \<open>A method that looks up a role first, from its behaviour on the row it finds.\<close>

lemma requireRole_refines:
  assumes "\<And>d r. ok d \<Longrightarrow> no_orphans (view d) \<Longrightarrow> r \<in> tr_roles (view d) \<Longrightarrow> ro_Name r = role
      \<Longrightarrow> role_id (view d) role = Some (ro_ID r)
      \<Longrightarrow> wp (m r) d (\<lambda>res v. res = fst (sp (absD d)) \<and> abs_tenant_rows v = snd (sp (absD d)) \<and> no_orphans v)"
  shows "refines okD absD (andThen (roleByName D role) m) (requireRole role sp)"
proof (rule tenant_refines)
  fix d assume d: "ok d" "no_orphans (view d)"
  show "wp (andThen (roleByName D role) m) d (\<lambda>res v. res = fst (requireRole role sp (absD d))
      \<and> abs_tenant_rows v = snd (requireRole role sp (absD d)) \<and> no_orphans v)"
  proof (rule wp_andThen, rule roleByName_wp[OF d(1)], goal_cases)
    case 1
    then show ?case using d by (simp add: requireRole_def)
  next
    case (2 r)
    have "wp (m r) d' (\<lambda>res v. res = fst (sp (absD d)) \<and> abs_tenant_rows v = snd (sp (absD d)) \<and> no_orphans v)"
      if "ok d'" "view d' = view d" for d'
      using assms[of d' r] that d 2 role_id_member[OF d(1) 2(1)] by simp
    then show ?case using 2 by (auto simp: requireRole_def)
  qed
qed

lemma role_gets_refines:
  assumes "\<And>d r. ok d \<Longrightarrow> r \<in> tr_roles (view d) \<Longrightarrow> role_id (view d) role = Some (ro_ID r) \<Longrightarrow>
      wp (m r) d (\<lambda>res v. res = Inr (f (absD d)) \<and> v = view d)"
  shows "refines okD absD (andThen (roleByName D role) m) (requireRole role (gets f))"
  by (rule requireRole_refines, rule outcome_mono[OF assms]) (simp_all add: gets_apply)

lemma link_iff: "(u, i) \<in> ur_key ` tr_user_roles v \<longleftrightarrow> (\<exists>a \<in> tr_user_roles v. ur_UserSub a = u \<and> ur_RoleID a = i)"
  by auto

lemma assigned_insert:
  assumes "ok d" and "role_id (view d) role = Some i"
  shows "assigned ((view d)\<lparr>tr_user_roles := insert \<lparr>ur_ID = n, ur_UserSub = sub, ur_RoleID = i\<rparr> (tr_user_roles (view d))\<rparr>)
    = (assigned (view d))(sub := insert role (assigned (view d) sub))"
  using role_id_eq[OF assms] by (auto simp: assigned_def fun_eq_iff)

lemma assigned_delete:
  assumes "ok d" and "role_id (view d) role = Some i"
  shows "assigned ((view d)\<lparr>tr_user_roles := {a \<in> tr_user_roles (view d). ur_UserSub a = sub \<longrightarrow> ur_RoleID a \<noteq> i}\<rparr>)
    = (assigned (view d))(sub := assigned (view d) sub - {role})"
    (is "assigned ?v = _")
proof -
  have "ur_key ` {a \<in> tr_user_roles (view d). ur_UserSub a = sub \<longrightarrow> ur_RoleID a \<noteq> i}
      = ur_key ` tr_user_roles (view d) - {(sub, i)}" by auto
  moreover have "role_id (view d) n \<noteq> Some i" if "n \<noteq> role" for n
    using role_id_eq[OF assms] that by simp
  ultimately have "(n \<in> assigned ?v u) = (n \<in> ((assigned (view d))(sub := assigned (view d) sub - {role})) u)" for u n
    using assms(2) by (cases "n = role") (auto simp: assigned_def)
  then show ?thesis by (intro ext set_eqI)
qed

lemma assigned_already:
  assumes "role_id v role = Some i" and "(sub, i) \<in> ur_key ` tr_user_roles v"
  shows "(assigned v)(sub := insert role (assigned v sub)) = assigned v"
  using assms by (auto simp: assigned_def fun_eq_iff)

lemma AssignRole_refines: "refines okD absD (gormTenant_AssignRole D sub role) (spec_AssignRole sub role)"
  unfolding gormTenant_AssignRole_def spec_AssignRole_def
proof (rule requireRole_refines, rule wp_andThen, rule assignments.create_wp, goal_cases)
  case (2 d r)
  then show ?case
    by (auto simp: eff_simps abs_tenant_rows_eq assigned_already intro!: outcome_rules)
next
  case (3 d r n)
  then show ?case
    by (auto simp: eff_simps abs_tenant_rows_eq assigned_insert no_orphans_def intro!: outcome_rules)
qed

lemma UnassignRole_refines: "refines okD absD (gormTenant_UnassignRole D sub role) (spec_UnassignRole sub role)"
  unfolding gormTenant_UnassignRole_def spec_UnassignRole_def
proof (rule requireRole_refines, rule wp_andThen, rule assignments.delete_wp, goal_cases)
  case (2 d r)
  then have "role \<in> assigned (view d) sub \<longleftrightarrow> (\<exists>a \<in> tr_user_roles (view d). ur_UserSub a = sub \<and> ur_RoleID a = ro_ID r)"
    by (auto simp: assigned_def)
  then show ?case using 2
    by (auto simp: eff_simps abs_tenant_rows_eq assigned_delete assignments.card_zero_iff no_orphans_def
        intro!: outcome_rules)
qed

lemma UserRoles_refines: "refines okD absD (gormTenant_UserRoles D sub) (spec_UserRoles sub)"
  unfolding gormTenant_UserRoles_def
proof (rule tenant_refines, rule wp_andThen, rule assignments.find_wp, goal_cases)
  case (2 d as)
  have none: "assigned (view d) sub = {}" if "as = []"
    using that 2(4) by (auto simp: assigned_def)
  have ids: "set (map ur_RoleID as) = {i. (sub, i) \<in> ur_key ` tr_user_roles (view d)}"
    using 2(4) by auto
  have names: "map ro_Name rows = sorted_list_of_set (assigned (view d) sub)"
    if "distinct rows" "sorted (map ro_Name rows)" "set rows = {r \<in> tr_roles (view d). ro_ID r \<in> set (map ur_RoleID as)}" for rows
  proof -
    have "ro_Name ` set rows = assigned (view d) sub"
      unfolding that(3) ids assigned_def role_id_def lookup_row_iff[OF roles.unique_key[OF 2(1)]] by auto
    moreover have "inj_on ro_Name (set rows)"
      using roles.unique_key[OF 2(1)] that(3) by (auto simp: inj_on_def)
    ultimately show ?thesis using sorted_rows[OF that(2,1)] by simp
  qed
  show ?case using 2(1,2) none names
    by (auto simp: spec_defs eff_simps Let_def intro!: outcome_rules wp_andThen)
qed

lemma renamed_rows:
  assumes d: "ok d" and r: "r \<in> tr_roles (view d)"
  shows "(\<lambda>x. if ro_ID x = ro_ID r then x\<lparr>ro_Name := new\<rparr> else x) ` tr_roles (view d)
    = insert (r\<lparr>ro_Name := new\<rparr>) {x \<in> tr_roles (view d). ro_Name x \<noteq> ro_Name r}"
proof -
  have "ro_ID x = ro_ID r \<longleftrightarrow> x = r" "ro_Name x = ro_Name r \<longleftrightarrow> x = r" if "x \<in> tr_roles (view d)" for x
    using that r roles.same_id[OF d] roles.same_key[OF d] by blast+
  then show ?thesis using r by (auto simp: image_iff)
qed

lemma deleted_rows:
  assumes d: "ok d" and r: "r \<in> tr_roles (view d)"
  shows "{x \<in> tr_roles (view d). ro_ID x \<noteq> ro_ID r} = {x \<in> tr_roles (view d). ro_Name x \<noteq> ro_Name r}"
proof -
  have "ro_ID x = ro_ID r \<longleftrightarrow> x = r" "ro_Name x = ro_Name r \<longleftrightarrow> x = r" if "x \<in> tr_roles (view d)" for x
    using that r roles.same_id[OF d] roles.same_key[OF d] by blast+
  then show ?thesis by auto
qed

lemma RenameRole_refines: "refines okD absD (gormTenant_RenameRole D name new) (spec_RenameRole name new)"
  unfolding gormTenant_RenameRole_def spec_RenameRole_def
proof (rule requireRole_refines, rule wp_andThen, rule RoleExists_wp, goal_cases)
  case (2 d r)
  let ?R = "insert (r\<lparr>ro_Name := new\<rparr>) {x \<in> tr_roles (view d). ro_Name x \<noteq> name}"
  let ?v = "(view d)\<lparr>tr_roles := ?R\<rparr>"
  have inj: "inj_on ro_Name {x \<in> tr_roles (view d). ro_Name x \<noteq> name}"
    using roles.unique_key[OF 2(1)] by (auto simp: inj_on_def)
  note rows = renamed_rows[OF 2(1,3), of new, unfolded 2(4)]
  show ?case
  proof (cases "new \<in> ro_Name ` tr_roles (view d)")
    case True
    then show ?thesis using 2(1,2) by (auto simp: eff_simps intro!: outcome_rules)
  next
    case new: False
    have "new \<notin> ro_Name ` {x \<in> tr_roles (view d). ro_Name x \<noteq> name}" using new by auto
    then have id: "role_id ?v = (role_id (view d))(name := None, new \<mapsto> ro_ID r)"
      using lookup_row_insert[OF inj, of "r\<lparr>ro_Name := new\<rparr>" ro_ID]
        lookup_row_delete[OF roles.unique_key[OF 2(1)], of ro_ID name]
      by (simp add: role_id_def fun_eq_iff)
    have new': "role_id (view d) new = None" "new \<noteq> name" using new 2(3,4) by (auto simp: role_id_None)
    have "assigned ?v sub = rename_in name new (assigned (view d) sub)" for sub
      using new' 2(5) by (auto simp: assigned_def id rename_in_def)
    moreover have "ro_ID ` ?R = ro_ID ` tr_roles (view d)"
      unfolding rows[symmetric] image_image by (rule image_cong) simp_all
    then have "no_orphans ?v" using 2(2) by (simp add: no_orphans_def)
    ultimately have post: "abs_tenant_rows ?v = snd ((\<lambda>a. if new \<in> aRoles a then (Inl ErrConflict, a)
       else (Inr (), a\<lparr>
       aRoles := insert new (aRoles a - {name}),
       aAssign := (\<lambda>sub. rename_in name new (aAssign a sub)),
       aRolePerm := (aRolePerm a)(new := aRolePerm a name, name := Map.empty),
       aRoleIDs := (aRoleIDs a)(new := aRoleIDs a name, name := (\<lambda>_. {}))\<rparr>)) (absD d))" "no_orphans ?v"
      using new new' 2(5) by (auto simp: abs_tenant_rows_eq id fun_eq_iff)
    have upd: "inj_on ro_Name ?R" using inj new unfolding inj_on_insert by auto
    have W: "wp (Update_where (db_roles D) (\<lambda>x. ro_ID x = ro_ID r) (\<lambda>x. x\<lparr>ro_Name := new\<rparr>)) d'
       (\<lambda>res v. res = Inr () \<and> v = ?v)" if "ok d'" "view d' = view d" for d'
      by (rule roles.update_wp) (use that upd rows in simp_all)
    then show ?thesis using new 2(1,2) post
      by (auto intro!: outcome_rules outcome_mono[OF W])
  qed
qed simp

lemma DeleteRole_refines: "refines okD absD (gormTenant_DeleteRole D name) (spec_DeleteRole name)"
  unfolding gormTenant_DeleteRole_def spec_DeleteRole_def
proof (rule requireRole_refines, rule transaction_wp, goal_cases)
  case (2 d r)
  let ?v = "(view d)
    \<lparr>tr_user_roles := {a \<in> tr_user_roles (view d). ur_RoleID a \<noteq> ro_ID r},
     tr_role_permissions := {p \<in> tr_role_permissions (view d). rp_RoleID p \<noteq> ro_ID r},
     tr_role_restricted_ids := {q \<in> tr_role_restricted_ids (view d). rr_RoleID q \<noteq> ro_ID r},
     tr_roles := {x \<in> tr_roles (view d). ro_ID x \<noteq> ro_ID r}\<rparr>"
  note rows = deleted_rows[OF 2(1,3), unfolded 2(4)]
  have id: "role_id ?v = (role_id (view d))(name := None)"
    using lookup_row_delete[OF roles.unique_key[OF 2(1)], of ro_ID name]
    by (simp add: role_id_def rows fun_eq_iff)
  have other: "i \<noteq> ro_ID r" if "role_id (view d) n = Some i" "n \<noteq> name" for n i
    using that role_id_eq[OF 2(1,5)] by auto
  have perms: "perms_of_id ?v i = perms_of_id (view d) i" "ids_of_id ?v i = ids_of_id (view d) i"
    if "i \<noteq> ro_ID r" for i
  proof -
    show "perms_of_id ?v i = perms_of_id (view d) i"
      using that by (auto simp: perms_of_id_def lookup_row_filter[OF role_perms.unique_key[OF 2(1)]]
        lookup_row_None fun_eq_iff split: if_splits) (auto simp: lookup_row_def)
    show "ids_of_id ?v i = ids_of_id (view d) i"
      using that by (auto simp: ids_of_id_def fun_eq_iff)
  qed
  have links: "(sub, i) \<in> ur_key ` {a \<in> tr_user_roles (view d). ur_RoleID a \<noteq> ro_ID r}
      \<longleftrightarrow> (sub, i) \<in> ur_key ` tr_user_roles (view d) \<and> i \<noteq> ro_ID r" for sub i by auto
  have "assigned ?v sub = assigned (view d) sub - {name}" for sub
    using other 2(5) by (auto simp: assigned_def id links)
  moreover have "aRolePerm (abs_tenant_rows ?v) n = ((aRolePerm (absD d))(name := Map.empty)) n"
    "aRoleIDs (abs_tenant_rows ?v) n = ((aRoleIDs (absD d))(name := (\<lambda>_. {}))) n" for n
    using perms other by (cases "n = name"; cases "role_id (view d) n"; simp add: id del: rows_frame)+
  then have "aRolePerm (abs_tenant_rows ?v) = (aRolePerm (absD d))(name := Map.empty)"
    "aRoleIDs (abs_tenant_rows ?v) = (aRoleIDs (absD d))(name := (\<lambda>_. {}))" by blast+
  ultimately have post: "abs_tenant_rows ?v = (absD d)\<lparr>
     aRoles := aRoles (absD d) - {name}, aAssign := (\<lambda>sub. aAssign (absD d) sub - {name}),
     aRolePerm := (aRolePerm (absD d))(name := Map.empty),
     aRoleIDs := (aRoleIDs (absD d))(name := (\<lambda>_. {}))\<rparr>"
    unfolding abs_tenant_rows_eq by (simp add: rows image_filter_key fun_eq_iff del: abs_tenant_rows_simps(3,4))
  have orphans: "no_orphans ?v" using 2(2) by (force simp: no_orphans_def)
  show ?case using 2(1) post orphans
    by (auto simp: eff_simps simp del: abs_tenant_rows_simps(2-) intro!: outcome_rules wp_andThen)
qed simp

text \<open>A change of the rows of one role and operation, seen from the role's name.\<close>

lemma role_perm_changed:
  assumes "ok d" and "role_id (view d) role = Some i" and "role_id v = role_id (view d)"
    and "\<And>j q. perms_of_id v j q = (if j = i \<and> q = p then x else perms_of_id (view d) j q)"
  shows "aRolePerm (abs_tenant_rows v) = (aRolePerm (absD d))(role := (aRolePerm (absD d) role)(p := x))"
proof (intro ext)
  fix n q
  show "aRolePerm (abs_tenant_rows v) n q = ((aRolePerm (absD d))(role := (aRolePerm (absD d) role)(p := x))) n q"
    using role_id_eq[OF assms(1,2), of n] assms(2)
    by (cases "n = role"; cases "role_id (view d) n") (auto simp: assms(3,4))
qed

lemma role_ids_changed:
  assumes "ok d" and "role_id (view d) role = Some i" and "role_id v = role_id (view d)"
    and "\<And>j q. ids_of_id v j q = (if j = i \<and> q = p then X else ids_of_id (view d) j q)"
  shows "aRoleIDs (abs_tenant_rows v) = (aRoleIDs (absD d))(role := (aRoleIDs (absD d) role)(p := X))"
proof (intro ext)
  fix n q
  show "aRoleIDs (abs_tenant_rows v) n q = ((aRoleIDs (absD d))(role := (aRoleIDs (absD d) role)(p := X))) n q"
    using role_id_eq[OF assms(1,2), of n] assms(2)
    by (cases "n = role"; cases "role_id (view d) n") (auto simp: assms(3,4))
qed

lemma role_perm_known:
  "role_id (view d) role = Some i \<Longrightarrow> aRolePerm (absD d) role = perms_of_id (view d) i"
  "role_id (view d) role = Some i \<Longrightarrow> aRoleIDs (absD d) role = ids_of_id (view d) i"
  by (auto simp: fun_eq_iff)

lemma perms_of_id_None: "perms_of_id v i p = None \<longleftrightarrow> (\<forall>q \<in> tr_role_permissions v. rp_RoleID q = i \<longrightarrow> rp_Operation q \<noteq> p)"
  by (auto simp: perms_of_id_def lookup_row_None)

lemma SetRolePermission_refines:
  "refines okD absD (gormTenant_SetRolePermission D role p sc) (spec_SetRolePermission role p sc)"
  unfolding gormTenant_SetRolePermission_def spec_SetRolePermission_def
proof (rule requireRole_refines, rule role_perms.upsert_wp, goal_cases)
  case (3 d r old)
  let ?P = "insert (old\<lparr>rp_Scope := sc\<rparr>) (tr_role_permissions (view d) - {old})"
  have "perms_of_id ((view d)\<lparr>tr_role_permissions := ?P\<rparr>) j q
      = (if j = ro_ID r \<and> q = p then Some sc else perms_of_id (view d) j q)" for j q
    using lookup_row_replace[OF role_perms.unique_key[OF 3(1)] 3(6), of "old\<lparr>rp_Scope := sc\<rparr>" rp_Scope] 3(7)
    by (simp add: perms_of_id_def)
  note perm = role_perm_changed[OF 3(1,5) _ this, simplified rows_frame, OF refl]
  show ?case using 3(2) 3(3,6,7) perm
    by (auto simp: eff_simps abs_tenant_rows_eq no_orphans_def simp del: abs_tenant_rows_simps(3))
next
  case (4 d r n)
  let ?row = "\<lparr>rp_ID = n, rp_RoleID = ro_ID r, rp_Operation = p, rp_Scope = sc\<rparr>"
  have "perms_of_id ((view d)\<lparr>tr_role_permissions := insert ?row (tr_role_permissions (view d))\<rparr>) j q
      = (if j = ro_ID r \<and> q = p then Some sc else perms_of_id (view d) j q)" for j q
    using lookup_row_insert[OF role_perms.unique_key[OF 4(1)], of ?row rp_Scope] 4(6)
    by (simp add: perms_of_id_def)
  note perm = role_perm_changed[OF 4(1,5) _ this, simplified rows_frame, OF refl]
  show ?case using 4(2,3) perm
    by (auto simp: eff_simps abs_tenant_rows_eq no_orphans_def simp del: abs_tenant_rows_simps(3))
qed simp_all

lemma perms_deleted:
  assumes "ok d"
  shows "lookup_row rp_key rp_Scope {q \<in> tr_role_permissions (view d). rp_RoleID q = i \<longrightarrow> rp_Operation q \<noteq> p}
    = (lookup_row rp_key rp_Scope (tr_role_permissions (view d)))((i, p) := None)"
  using lookup_row_delete[OF role_perms.unique_key[OF assms], of rp_Scope "(i, p)"] by simp

lemma RemoveRolePermission_refines:
  "refines okD absD (gormTenant_RemoveRolePermission D role p) (spec_RemoveRolePermission role p)"
  unfolding gormTenant_RemoveRolePermission_def spec_RemoveRolePermission_def
proof (rule requireRole_refines, rule transaction_wp, goal_cases)
  case (2 d r)
  let ?v = "(view d)
    \<lparr>tr_role_permissions := {q \<in> tr_role_permissions (view d). rp_RoleID q = ro_ID r \<longrightarrow> rp_Operation q \<noteq> p},
     tr_role_restricted_ids := {q \<in> tr_role_restricted_ids (view d). rr_RoleID q = ro_ID r \<longrightarrow> rr_Operation q \<noteq> p}\<rparr>"
  have "perms_of_id ?v j q = (if j = ro_ID r \<and> q = p then None else perms_of_id (view d) j q)" for j q
    by (simp add: perms_of_id_def perms_deleted[OF 2(1)])
  note perm = role_perm_changed[OF 2(1,5) _ this, simplified rows_frame, OF refl]
  have "ids_of_id ?v j q = (if j = ro_ID r \<and> q = p then {} else ids_of_id (view d) j q)" for j q
    by (auto simp: ids_of_id_def)
  note ids = role_ids_changed[OF 2(1,5) _ this, simplified rows_frame, OF refl]
  have post: "abs_tenant_rows ?v = (absD d)\<lparr>aRolePerm := (aRolePerm (absD d))(role := (aRolePerm (absD d) role)(p := None)),
      aRoleIDs := (aRoleIDs (absD d))(role := (aRoleIDs (absD d) role)(p := {}))\<rparr>"
    unfolding abs_tenant_rows_eq using perm ids by (simp del: abs_tenant_rows_simps(3,4))
  have orphans: "no_orphans ?v" using 2(2) by (simp add: no_orphans_def)
  have known: "aRolePerm (absD d) role p = None
      \<longleftrightarrow> (\<forall>q \<in> tr_role_permissions (view d). rp_RoleID q = ro_ID r \<longrightarrow> rp_Operation q \<noteq> p)"
    using 2(5) by (simp add: perms_of_id_None)
  show ?case using 2(1,2) post orphans known
    by (auto simp: eff_simps role_perms.card_zero_iff simp del: abs_tenant_rows_simps(3,4)
        intro!: outcome_rules wp_andThen)
qed simp

lemma RolePermissions_refines: "refines okD absD (gormTenant_RolePermissions D role) (spec_RolePermissions role)"
  unfolding gormTenant_RolePermissions_def spec_RolePermissions_def
proof (rule role_gets_refines, rule wp_andThen, rule role_perms.find_order_wp, goal_cases)
  case (2 d r rows)
  have inj: "inj_on rp_Operation {q \<in> tr_role_permissions (view d). rp_RoleID q = ro_ID r}"
    using role_perms.unique_key[OF 2(1)] by (auto simp: inj_on_def)
  have dom: "rp_Operation ` {q \<in> tr_role_permissions (view d). rp_RoleID q = ro_ID r} = dom (perms_of_id (view d) (ro_ID r))"
    by (rule set_eqI, simp add: perms_of_id_None domIff image_iff del: not_None_eq) blast
  have scope: "perms_of_id (view d) (ro_ID r) (rp_Operation q) = Some (rp_Scope q)"
    if "q \<in> tr_role_permissions (view d)" "rp_RoleID q = ro_ID r" for q
    using lookup_row_member[OF role_perms.unique_key[OF 2(1)] that(1), of rp_Scope] that(2)
    by (simp add: perms_of_id_def)
  have "map (\<lambda>q. operation_scope (rp_Operation q) (rp_Scope q)) rows
      = map (\<lambda>q. operation_scope q (the (perms_of_id (view d) (ro_ID r) q))) (sorted_list_of_set (dom (perms_of_id (view d) (ro_ID r))))"
    unfolding dom[symmetric] by (rule listed[OF 2(6,4,5) inj]) (simp add: scope)
  then show ?case using 2(1,3)
    by (auto simp: list_permissions_def role_perm_known simp del: abs_tenant_rows_simps(3) intro!: outcome_rules)
qed simp

lemma HasRolePermission_refines: "refines okD absD (gormTenant_HasRolePermission D role p) (spec_HasRolePermission role p)"
  unfolding gormTenant_HasRolePermission_def spec_HasRolePermission_def
proof (rule role_gets_refines, rule wp_andThen, rule role_perms.count_wp, goal_cases)
  case (2 d r)
  then show ?case
    by (auto simp: card_gt_0_iff role_perms.finite_rows role_perm_known perms_of_id_None
        simp del: abs_tenant_rows_simps(3) not_None_eq intro!: outcome_rules)
qed simp

lemma user_perm_None: "user_perm v u p = None \<longleftrightarrow> (\<forall>q \<in> tr_user_permissions v. up_UserSub q = u \<longrightarrow> up_Operation q \<noteq> p)"
  by (auto simp: user_perm_def lookup_row_None)

lemma SetUserPermission_refines:
  "refines okD absD (gormTenant_SetUserPermission D sub p sc) (spec_SetUserPermission sub p sc)"
  unfolding gormTenant_SetUserPermission_def
proof (rule tenant_refines, rule user_perms.upsert_wp, goal_cases)
  case (3 d old)
  then show ?case
    using lookup_row_replace[OF user_perms.unique_key[OF 3(1)] 3(3), of "old\<lparr>up_Scope := sc\<rparr>" up_Scope]
    by (auto simp: spec_defs eff_simps abs_tenant_rows_eq user_perm_def[abs_def] fun_eq_iff)
next
  case (4 d n)
  then show ?case
    using lookup_row_insert[OF user_perms.unique_key[OF 4(1)], of "\<lparr>up_ID = n, up_UserSub = sub, up_Operation = p, up_Scope = sc\<rparr>" up_Scope]
    by (auto simp: spec_defs eff_simps abs_tenant_rows_eq user_perm_def[abs_def] fun_eq_iff)
qed simp_all

lemma RemoveUserPermission_refines:
  "refines okD absD (gormTenant_RemoveUserPermission D sub p) (spec_RemoveUserPermission sub p)"
  unfolding gormTenant_RemoveUserPermission_def
proof (rule tenant_refines, rule transaction_wp, goal_cases)
  case (2 d)
  let ?v = "(view d)
    \<lparr>tr_user_permissions := {q \<in> tr_user_permissions (view d). up_UserSub q = sub \<longrightarrow> up_Operation q \<noteq> p},
     tr_user_restricted_ids := {q \<in> tr_user_restricted_ids (view d). ui_UserSub q = sub \<longrightarrow> ui_Operation q \<noteq> p}\<rparr>"
  have post: "abs_tenant_rows ?v = (absD d)\<lparr>aUserPerm := (aUserPerm (absD d))(sub := (aUserPerm (absD d) sub)(p := None)),
      aUserIDs := (aUserIDs (absD d))(sub := (aUserIDs (absD d) sub)(p := {}))\<rparr>"
    using lookup_row_delete[OF user_perms.unique_key[OF 2(1)], of up_Scope "(sub, p)"]
    by (auto simp: abs_tenant_rows_eq user_perm_def user_id_set_def fun_eq_iff)
  show ?case using 2(1,2) post
    by (auto simp: spec_defs eff_simps user_perms.card_zero_iff user_perm_None[symmetric] intro!: outcome_rules wp_andThen)
qed simp

lemma UserPermissions_refines: "refines okD absD (gormTenant_UserPermissions D sub) (spec_UserPermissions sub)"
  unfolding gormTenant_UserPermissions_def
proof (rule tenant_refines, rule wp_andThen, rule user_perms.find_order_wp, goal_cases)
  case (2 d rows)
  have inj: "inj_on up_Operation {q \<in> tr_user_permissions (view d). up_UserSub q = sub}"
    using user_perms.unique_key[OF 2(1)] by (auto simp: inj_on_def)
  have dom: "up_Operation ` {q \<in> tr_user_permissions (view d). up_UserSub q = sub} = dom (user_perm (view d) sub)"
    by (rule set_eqI, simp add: user_perm_None domIff image_iff del: not_None_eq) blast
  have scope: "user_perm (view d) sub (up_Operation q) = Some (up_Scope q)"
    if "q \<in> tr_user_permissions (view d)" "up_UserSub q = sub" for q
    using lookup_row_member[OF user_perms.unique_key[OF 2(1)] that(1), of up_Scope] that(2)
    by (simp add: user_perm_def)
  have "map (\<lambda>q. operation_scope (up_Operation q) (up_Scope q)) rows
      = map (\<lambda>q. operation_scope q (the (user_perm (view d) sub q))) (sorted_list_of_set (dom (user_perm (view d) sub)))"
    unfolding dom[symmetric] by (rule listed[OF 2(5,3,4) inj]) (simp add: scope)
  then show ?case using 2(1,2)
    by (auto simp: spec_defs eff_simps list_permissions_def intro!: outcome_rules)
qed simp

lemma HasUserPermission_refines: "refines okD absD (gormTenant_HasUserPermission D sub p) (spec_HasUserPermission sub p)"
  unfolding gormTenant_HasUserPermission_def
  by (rule tenant_refines, rule wp_andThen, rule user_perms.count_wp)
    (auto simp: spec_defs eff_simps card_gt_0_iff user_perms.finite_rows user_perm_None simp del: not_None_eq intro!: outcome_rules)

lemma AddRoleRestrictedIDs_refines:
  "refines okD absD (gormTenant_AddRoleRestrictedIDs D role p ids) (spec_AddRoleRestrictedIDs role p ids)"
  unfolding gormTenant_AddRoleRestrictedIDs_def spec_AddRoleRestrictedIDs_def
proof (rule requireRole_refines, rule transaction_wp, goal_cases)
  case (2 d r)
  let ?new = "\<lambda>i. \<lparr>rr_ID = 0, rr_RoleID = ro_ID r, rr_Operation = p, rr_RecordID = i\<rparr>"
  have post: "abs_tenant_rows ((view d)\<lparr>tr_role_restricted_ids := I\<rparr>) = (absD d)\<lparr>
        aRoleIDs := (aRoleIDs (absD d))(role := (aRoleIDs (absD d) role)(p := aRoleIDs (absD d) role p \<union> set ids))\<rparr>"
      "no_orphans ((view d)\<lparr>tr_role_restricted_ids := I\<rparr>)"
    if I: "rr_key ` I = rr_key ` tr_role_restricted_ids (view d) \<union> (\<lambda>i. rr_key (?new i)) ` set ids" for I
  proof -
    let ?v = "(view d)\<lparr>tr_role_restricted_ids := I\<rparr>"
    have "ids_of_id ?v j q = (if j = ro_ID r \<and> q = p then ids_of_id (view d) j q \<union> set ids else ids_of_id (view d) j q)" for j q
      unfolding ids_of_id_def by (simp add: I) auto
    then have "ids_of_id ?v j q = (if j = ro_ID r \<and> q = p then ids_of_id (view d) (ro_ID r) p \<union> set ids else ids_of_id (view d) j q)" for j q
      by simp
    note ids = role_ids_changed[OF 2(1,5) _ this, simplified rows_frame, OF refl]
    show "abs_tenant_rows ?v = (absD d)\<lparr>
        aRoleIDs := (aRoleIDs (absD d))(role := (aRoleIDs (absD d) role)(p := aRoleIDs (absD d) role p \<union> set ids))\<rparr>"
      unfolding abs_tenant_rows_eq using ids role_perm_known(2)[OF 2(5)] by (simp del: abs_tenant_rows_simps(4))
    have "rr_RoleID ` I \<subseteq> ro_ID ` tr_roles (view d)"
    proof -
      have "rr_RoleID ` I = fst ` rr_key ` I" by (simp add: image_image)
      also have "\<dots> \<subseteq> insert (ro_ID r) (rr_RoleID ` tr_role_restricted_ids (view d))"
        unfolding I by (auto simp: image_Un image_image)
      finally show ?thesis using 2(2,3) by (auto simp: no_orphans_def)
    qed
    then show "no_orphans ?v" using 2(2) by (auto simp: no_orphans_def)
  qed
  show ?case
    by (rule outcome_mono[OF role_ids.create_all_wp[OF 2(1), of ?new]]) (auto simp: eff_simps post)
qed simp

lemma RemoveRoleRestrictedIDs_refines:
  assumes "okD d" and "ids \<noteq> [] \<or> role \<in> aRoles (absD d)"
  shows "refines_at okD absD (=) (gormTenant_RemoveRoleRestrictedIDs D role p ids) (spec_RemoveRoleRestrictedIDs role p ids) d"
proof (cases "ids = []")
  case True
  then have "role \<in> ro_Name ` tr_roles (view d)" using assms(2) by simp
  then have "spec_RemoveRoleRestrictedIDs role p ids (absD d) = (Inr (), absD d)"
    using True by (simp add: spec_defs eff_simps)
  then show ?thesis using True assms(1)
    by (simp add: gormTenant_RemoveRoleRestrictedIDs_def refines_at_def ret_apply)
next
  case False
  have "refines okD absD (gormTenant_RemoveRoleRestrictedIDs D role p ids) (spec_RemoveRoleRestrictedIDs role p ids)"
    unfolding gormTenant_RemoveRoleRestrictedIDs_def spec_RemoveRoleRestrictedIDs_def if_not_P[OF False[folded length_0_conv]]
  proof (rule requireRole_refines, rule wp_andThen, rule role_ids.delete_wp, goal_cases)
    case (2 d r)
    let ?v = "(view d)\<lparr>tr_role_restricted_ids := {q \<in> tr_role_restricted_ids (view d).
      \<not> (rr_RoleID q = ro_ID r \<and> rr_Operation q = p \<and> rr_RecordID q \<in> set ids)}\<rparr>"
    have "ids_of_id ?v j q = (if j = ro_ID r \<and> q = p then ids_of_id (view d) (ro_ID r) p - set ids else ids_of_id (view d) j q)" for j q
      by (auto simp: ids_of_id_def)
    note ids = role_ids_changed[OF 2(1,5) _ this, simplified rows_frame, OF refl]
    have "abs_tenant_rows ?v = (absD d)\<lparr>
        aRoleIDs := (aRoleIDs (absD d))(role := (aRoleIDs (absD d) role)(p := aRoleIDs (absD d) role p - set ids))\<rparr>"
      unfolding abs_tenant_rows_eq using ids role_perm_known(2)[OF 2(5)] by (simp del: abs_tenant_rows_simps(4))
    moreover have "no_orphans ?v" using 2(2) by (auto simp: no_orphans_def)
    ultimately show ?case using 2(1)
      by (auto simp: eff_simps simp del: abs_tenant_rows_simps(4) intro!: outcome_rules)
  qed simp
  then show ?thesis using assms(1) by (simp add: refinesR_def)
qed

lemma AddUserRestrictedIDs_refines:
  "refines okD absD (gormTenant_AddUserRestrictedIDs D sub p ids) (spec_AddUserRestrictedIDs sub p ids)"
  unfolding gormTenant_AddUserRestrictedIDs_def
proof (rule tenant_refines, rule transaction_wp, goal_cases)
  case (2 d)
  let ?new = "\<lambda>i. \<lparr>ui_ID = 0, ui_UserSub = sub, ui_Operation = p, ui_RecordID = i\<rparr>"
  have post: "abs_tenant_rows ((view d)\<lparr>tr_user_restricted_ids := I\<rparr>) = (absD d)\<lparr>
        aUserIDs := (aUserIDs (absD d))(sub := (aUserIDs (absD d) sub)(p := aUserIDs (absD d) sub p \<union> set ids))\<rparr>"
    if "ui_key ` I = ui_key ` tr_user_restricted_ids (view d) \<union> (\<lambda>i. ui_key (?new i)) ` set ids" for I
    unfolding abs_tenant_rows_eq by (auto simp: user_id_set_def that fun_eq_iff)
  show ?case
    by (rule outcome_mono[OF user_ids.create_all_wp[OF 2(1), of ?new]]) (auto simp: spec_defs eff_simps post 2(2))
qed simp

lemma RemoveUserRestrictedIDs_refines:
  "refines okD absD (gormTenant_RemoveUserRestrictedIDs D sub p ids) (spec_RemoveUserRestrictedIDs sub p ids)"
proof (cases "ids = []")
  case True
  then show ?thesis
    by (intro tenant_refines)
      (auto simp: gormTenant_RemoveUserRestrictedIDs_def spec_defs eff_simps abs_tenant_rows_eq fun_eq_iff intro!: outcome_rules)
next
  case False
  then show ?thesis
    unfolding gormTenant_RemoveUserRestrictedIDs_def if_not_P[OF False[folded length_0_conv]]
  proof (intro tenant_refines, rule_tac wp_andThen, rule_tac user_ids.delete_wp, goal_cases)
    case (2 d)
    have "abs_tenant_rows ((view d)\<lparr>tr_user_restricted_ids := {q \<in> tr_user_restricted_ids (view d).
        \<not> (ui_UserSub q = sub \<and> ui_Operation q = p \<and> ui_RecordID q \<in> set ids)}\<rparr>) = (absD d)\<lparr>
        aUserIDs := (aUserIDs (absD d))(sub := (aUserIDs (absD d) sub)(p := aUserIDs (absD d) sub p - set ids))\<rparr>"
      unfolding abs_tenant_rows_eq by (auto simp: user_id_set_def fun_eq_iff)
    then show ?case using 2 by (auto simp: spec_defs eff_simps intro!: outcome_rules)
  qed simp
qed

lemma role_id_iff: "ok d \<Longrightarrow> role_id (view d) n = Some i \<longleftrightarrow> (\<exists>r \<in> tr_roles (view d). ro_Name r = n \<and> ro_ID r = i)"
  unfolding role_id_def by (rule lookup_row_iff[OF roles.unique_key])

lemma finite_tenant_rows:
  assumes d: "ok d"
  shows "finite_tenant (absD d)"
proof -
  have "finite (assigned (view d) sub)" for sub
  proof (rule finite_subset)
    show "assigned (view d) sub \<subseteq> ro_Name ` tr_roles (view d)" by (auto simp: assigned_def role_id_iff[OF d])
  qed (simp add: roles.finite_rows[OF d])
  moreover have "finite (dom (perms_of_id (view d) i))" for i
  proof (rule finite_subset)
    show "dom (perms_of_id (view d) i) \<subseteq> rp_Operation ` tr_role_permissions (view d)"
      by (auto simp: perms_of_id_def lookup_row_def split: if_splits)
  qed (simp add: role_perms.finite_rows[OF d])
  then have "finite (dom (aRolePerm (absD d) n))" for n by (cases "role_id (view d) n") simp_all
  moreover have "finite (ids_of_id (view d) i p)" for i p
  proof (rule finite_subset)
    show "ids_of_id (view d) i p \<subseteq> rr_RecordID ` tr_role_restricted_ids (view d)" by (auto simp: ids_of_id_def)
  qed (simp add: role_ids.finite_rows[OF d])
  then have "finite (aRoleIDs (absD d) n p)" for n p by (cases "role_id (view d) n") simp_all
  moreover have "finite (dom (user_perm (view d) u))" for u
  proof (rule finite_subset)
    show "dom (user_perm (view d) u) \<subseteq> up_Operation ` tr_user_permissions (view d)"
      by (auto simp: user_perm_def lookup_row_def split: if_splits)
  qed (simp add: user_perms.finite_rows[OF d])
  moreover have "finite (user_id_set (view d) u p)" for u p
  proof (rule finite_subset)
    show "user_id_set (view d) u p \<subseteq> ui_RecordID ` tr_user_restricted_ids (view d)" by (auto simp: user_id_set_def)
  qed (simp add: user_ids.finite_rows[OF d])
  ultimately show ?thesis
    by (simp add: finite_tenant_def roles.finite_rows[OF d] del: abs_tenant_rows_simps(3,4))
qed

lemma UserRestrictedIDs_refines:
  "refinesR okD absD same_elements (gormTenant_UserRestrictedIDs D sub p) (spec_UserRestrictedIDs sub p)"
  unfolding gormTenant_UserRestrictedIDs_def
proof (rule tenant_refinesR, rule wp_andThen, rule user_ids.find_wp, goal_cases)
  case (2 d rows)
  have "inj_on ui_RecordID (set rows)"
    using user_ids.unique_key[OF 2(1)] unfolding 2(4) by (auto simp: inj_on_def)
  moreover have "ui_RecordID ` set rows = user_id_set (view d) sub p"
    unfolding 2(4) by (auto simp: user_id_set_def image_iff)
  moreover have "finite (user_id_set (view d) sub p)"
    using finite_tenantD(6)[OF finite_tenant_rows[OF 2(1)], of sub p] by simp
  ultimately show ?case using 2(2,3)
    by (auto simp: spec_defs eff_simps same_elements_def distinct_map intro!: outcome_rules)
qed simp

text \<open>The rows of the named roles, by their IDs.\<close>

lemma named_ids:
  assumes "ok d" and "set roleRows = {r \<in> tr_roles (view d). ro_Name r \<in> set names}"
  shows "i \<in> set (map ro_ID roleRows) \<longleftrightarrow> (\<exists>n \<in> set names. role_id (view d) n = Some i)"
  using assms(2) role_id_iff[OF assms(1)] by auto

lemma RoleRestrictedIDs_refines:
  "refinesR okD absD same_elements (gormTenant_RoleRestrictedIDs D roles p) (spec_RoleRestrictedIDs roles p)"
proof (cases "roles = []")
  case True
  then show ?thesis
    by (auto simp: gormTenant_RoleRestrictedIDs_def spec_defs eff_simps refinesR_def refines_at_def same_elements_def)
next
  case False
  show ?thesis
    unfolding gormTenant_RoleRestrictedIDs_def if_not_P[OF False[folded length_0_conv]] Let_def
  proof (rule tenant_refinesR, rule wp_andThen, rule roles.find_wp, goal_cases)
    case (2 d roleRows)
    let ?want = "\<Union>n \<in> set roles. aRoleIDs (absD d) n p"
    have fin: "finite ?want"
      using finite_tenantD(4)[OF finite_tenant_rows[OF 2(1)]] by blast
    have res: "distinct (snd (collect_ids (map rr_RecordID rows) [] []))
        \<and> set (snd (collect_ids (map rr_RecordID rows) [] [])) = ?want"
      if "set rows = {q \<in> tr_role_restricted_ids (view d). rr_RoleID q \<in> set (map ro_ID roleRows) \<and> rr_Operation q = p}" for rows
    proof -
      obtain seen out where c: "collect_ids (map rr_RecordID rows) [] [] = (seen, out)" by force
      have "rr_RecordID ` set rows = ?want"
        unfolding that named_ids[OF 2(1,4)] by (auto simp: ids_of_id_def image_iff)
      then show ?thesis using collect_ids_run[OF c] by (simp add: c)
    qed
    show ?case using 2(1,2) res fin
      by (auto simp: spec_defs eff_simps same_elements_def simp del: abs_tenant_rows_simps(4) set_map
          intro!: outcome_rules wp_andThen)
  qed simp
qed

lemma names_of_other: "i \<notin> ro_ID ` set rows \<Longrightarrow> fold (\<lambda>r m. m(ro_ID r \<mapsto> ro_Name r)) rows m i = m i"
  by (induction rows arbitrary: m) auto

lemma names_of_ids:
  assumes "distinct (map ro_ID rows)" and "r \<in> set rows"
  shows "fold (\<lambda>r m. m(ro_ID r \<mapsto> ro_Name r)) rows m (ro_ID r) = Some (ro_Name r)"
  using assms by (induction rows arbitrary: m) (auto simp: names_of_other)

lemma RoleGrants_refines:
  assumes "distinct roles"
  shows "refinesR okD absD permuted (gormTenant_RoleGrants D roles) (spec_RoleGrants roles)"
proof (cases "roles = []")
  case True
  then show ?thesis
    by (auto simp: gormTenant_RoleGrants_def spec_defs eff_simps refinesR_def refines_at_def permuted_def grants_of_def)
next
  case False
  show ?thesis
    unfolding gormTenant_RoleGrants_def if_not_P[OF False[folded length_0_conv]] Let_def
  proof (rule tenant_refinesR, rule wp_andThen, rule roles.find_wp, goal_cases)
    case (2 d roleRows)
    let ?names = "fold (\<lambda>r m. m(ro_ID r \<mapsto> ro_Name r)) roleRows Map.empty"
    let ?grant = "\<lambda>p. role_grant (case ?names (rp_RoleID p) of None \<Rightarrow> '''' | Some n \<Rightarrow> n) (rp_Operation p) (rp_Scope p)"
    have member: "r \<in> tr_roles (view d)" if "r \<in> set roleRows" for r using that 2(4) by simp
    have "inj_on ro_ID (set roleRows)" using member roles.same_id[OF 2(1)] by (auto simp: inj_on_def)
    then have ids: "distinct (map ro_ID roleRows)" using 2(3) by (simp add: distinct_map)
    have name: "?names (ro_ID r) = Some (ro_Name r)" if "r \<in> set roleRows" for r
      by (rule names_of_ids[OF ids that])
    have grant: "\<exists>r \<in> set roleRows. rp_RoleID p = ro_ID r \<and> ?grant p = role_grant (ro_Name r) (rp_Operation p) (rp_Scope p)"
      if "rp_RoleID p \<in> set (map ro_ID roleRows)" for p
      using that name by auto
    have perm: "aRolePerm (absD d) n q = Some sc \<longleftrightarrow>
        (\<exists>r \<in> tr_roles (view d). ro_Name r = n \<and> (\<exists>p \<in> tr_role_permissions (view d). rp_key p = (ro_ID r, q) \<and> rp_Scope p = sc))" for n q sc
      by (auto simp: bind_eq_Some_conv role_id_iff[OF 2(1)] perms_of_id_def lookup_row_iff[OF role_perms.unique_key[OF 2(1)]])
    have res: "mset (map ?grant rows) = mset (grants_of (absD d) roles)"
      if "distinct rows" and rows: "set rows = {p \<in> tr_role_permissions (view d). rp_RoleID p \<in> set (map ro_ID roleRows)}" for rows
    proof (subst set_eq_iff_mset_eq_distinct[symmetric])
      have "inj_on ?grant (set rows)"
      proof (rule inj_onI)
        fix p p' assume p: "p \<in> set rows" "p' \<in> set rows" "?grant p = ?grant p'"
        then obtain r r' where r: "r \<in> set roleRows" "rp_RoleID p = ro_ID r" "?grant p = role_grant (ro_Name r) (rp_Operation p) (rp_Scope p)"
          "r' \<in> set roleRows" "rp_RoleID p' = ro_ID r'" "?grant p' = role_grant (ro_Name r') (rp_Operation p') (rp_Scope p')"
          using grant rows by blast
        then have "ro_Name r = ro_Name r'" "rp_Operation p = rp_Operation p'"
          using trans[OF r(3)[symmetric] trans[OF p(3) r(6)]] by (simp_all only: role_grant_eq_iff)
        then have "rp_key p = rp_key p'"
          using roles.same_key[OF 2(1) member[OF r(1)] member[OF r(4)]] r(2,5) by simp
        then show "p = p'" using role_perms.same_key[OF 2(1)] p(1,2) rows by simp
      qed
      then show "distinct (map ?grant rows)" using that(1) by (simp add: distinct_map)
      show "distinct (grants_of (absD d) roles)" by (rule distinct_grants_of[OF finite_tenant_rows[OF 2(1)] assms])
      show "set (map ?grant rows) = set (grants_of (absD d) roles)" (is "?l = ?r")
      proof (rule set_eqI)
        fix g
        have "g \<in> ?l \<longleftrightarrow> (\<exists>p \<in> tr_role_permissions (view d). \<exists>r \<in> set roleRows.
            rp_RoleID p = ro_ID r \<and> g = role_grant (ro_Name r) (rp_Operation p) (rp_Scope p))"
          using name by (fastforce simp: rows image_iff)
        also have "\<dots> \<longleftrightarrow> g \<in> ?r"
          unfolding set_grants_of[OF finite_tenant_rows[OF 2(1)]] perm 2(4) by fastforce
        finally show "g \<in> ?l \<longleftrightarrow> g \<in> ?r" .
      qed
    qed
    show ?case using 2(1,2) res
      by (auto simp: spec_defs eff_simps permuted_def simp del: abs_tenant_rows_simps(3) set_map mset_map
          intro!: outcome_rules wp_andThen)
  qed simp
qed

lemma RemoveRoleRestrictedIDs_keeps:
  assumes "okD d"
  shows "okD (snd (gormTenant_RemoveRoleRestrictedIDs D role p ids d))
    \<and> absD (snd (gormTenant_RemoveRoleRestrictedIDs D role p ids d)) = snd (spec_RemoveRoleRestrictedIDs role p ids (absD d))
    \<and> fst (gormTenant_RemoveRoleRestrictedIDs D role p ids d) \<in> {Inr (), Inl ErrNotFound}"
proof (cases "ids = []")
  case True
  then show ?thesis using assms
    by (simp add: gormTenant_RemoveRoleRestrictedIDs_def spec_defs eff_simps)
next
  case False
  then show ?thesis using RemoveRoleRestrictedIDs_refines[OF assms, of ids role p] spec_RemoveRoleRestrictedIDs_result[of role p ids "absD d"]
    by (simp add: refines_at_def sum.rel_eq)
qed

lemma UserRoles_same: "refinesR okD absD same_slice (gormTenant_UserRoles D sub) (spec_UserRoles sub)"
  unfolding spec_UserRoles_def by (rule refines_gets_R[OF UserRoles_refines[unfolded spec_UserRoles_def]]) simp

lemmas all_refines =
  CreateRole_refines EnsureRole_refines RoleExists_refines RenameRole_refines DeleteRole_refines
  ListRoles_refines AssignRole_refines UnassignRole_refines UserRoles_same SetRolePermission_refines
  RemoveRolePermission_refines RolePermissions_refines HasRolePermission_refines
  SetUserPermission_refines RemoveUserPermission_refines UserPermissions_refines
  HasUserPermission_refines AddRoleRestrictedIDs_refines RemoveRoleRestrictedIDs_refines
  RoleRestrictedIDs_refines AddUserRestrictedIDs_refines RemoveUserRestrictedIDs_refines
  UserRestrictedIDs_refines RoleGrants_refines

sublocale store: tenant_store "gorm_tenant D" okD absD
  by unfold_locales
    (simp_all only: gorm_tenant_def Tenant.select_convs all_refines finite_tenant_rows RemoveRoleRestrictedIDs_keeps)

lemmas gorm_tenant_store = store.tenant_store_axioms

end

end
