(* ===== verification/MemoryDb.thy ===== *)
theory MemoryDb
  imports GormShared GormTenant
begin

text \<open>
  A reference engine for the contract of a database. The contract of \<open>db_table\<close> and
  \<open>transactional\<close> is an assumption about the ORM and the database server; this theory gives an
  executable engine, tables as lists of rows, with which every law holds, so the locales are
  interpreted, the theorems about the \<open>gorm\<close> driver apply to runs that can be evaluated, and the
  laws are shown to be consistent. It models no code of the repository.
\<close>

section \<open>Tables as lists of rows\<close>

definition fresh_id :: "('row \<Rightarrow> nat) \<Rightarrow> 'row list \<Rightarrow> nat" where
  "fresh_id row_id rows = Suc (fold max (map row_id rows) 0)"

definition memory_table ::
  "('s \<Rightarrow> 'row list) \<Rightarrow> ('row list \<Rightarrow> 's \<Rightarrow> 's) \<Rightarrow> ('row \<Rightarrow> nat) \<Rightarrow> (nat \<Rightarrow> 'row \<Rightarrow> 'row)
   \<Rightarrow> ('row \<Rightarrow> 'k) \<Rightarrow> ('row, 's) table" where
  "memory_table get put row_id with_id key = \<lparr>
     Create_DoNothing = (\<lambda>r s. if key r \<in> set (map key (get s)) then (Inr 0, s)
       else (Inr 1, put (with_id (fresh_id row_id (get s)) r # get s) s)),
     Create_DoUpdates = (\<lambda>assign r s. (Inr (),
       if key r \<in> set (map key (get s)) then put (map (\<lambda>old. if key old = key r then assign old r else old) (get s)) s
       else put (with_id (fresh_id row_id (get s)) r # get s) s)),
     Find = (\<lambda>c s. (Inr (filter c (get s)), s)),
     Find_Order = (\<lambda>col c s. (Inr (sort_key col (filter c (get s))), s)),
     First = (\<lambda>c s. (Inr (find c (get s)), s)),
     Count = (\<lambda>c s. (Inr (length (filter c (get s))), s)),
     Delete_where = (\<lambda>c s. (Inr (length (filter c (get s))), put (filter (\<lambda>r. \<not> c r) (get s)) s)),
     Update_where = (\<lambda>c f s.
       if distinct (map key (map (\<lambda>r. if c r then f r else r) (get s)))
       then (Inr (), put (map (\<lambda>r. if c r then f r else r) (get s)) s) else (Inl ErrDB, s))\<rparr>"

definition memory_transaction :: "(unit, 's) op \<Rightarrow> (unit, 's) op" where
  "memory_transaction m s = (case m s of (Inl e, _) \<Rightarrow> (Inl e, s) | (Inr u, s1) \<Rightarrow> (Inr u, s1))"

text \<open>What the engine keeps of a table.\<close>

definition table_ok :: "('row \<Rightarrow> nat) \<Rightarrow> ('row \<Rightarrow> 'k) \<Rightarrow> 'row list \<Rightarrow> bool" where
  "table_ok row_id key rows \<longleftrightarrow> distinct (map row_id rows) \<and> distinct (map key rows)"

lemma fold_max_bound: "n \<le> fold max xs n \<and> (\<forall>x \<in> set xs. x \<le> fold max xs (n :: nat))"
proof (induction xs arbitrary: n)
  case (Cons x xs)
  have "max x n \<le> fold max xs (max x n)" "\<forall>y \<in> set xs. y \<le> fold max xs (max x n)" using Cons by blast+
  then show ?case by auto
qed simp

lemma fresh_id_fresh: "fresh_id row_id rows \<notin> row_id ` set rows"
  using fold_max_bound[of 0 "map row_id rows"] by (force simp: fresh_id_def)

lemma table_ok_filter: "table_ok row_id key rows \<Longrightarrow> table_ok row_id key (filter c rows)"
  by (simp add: table_ok_def distinct_map_filter)

lemma table_ok_inj:
  assumes "table_ok row_id key rows"
  shows "inj_on row_id (set rows)" "inj_on key (set rows)" "distinct rows"
  using assms by (auto simp: table_ok_def distinct_map)

lemma table_ok_map:
  assumes "table_ok row_id key rows" and "\<And>r. r \<in> set rows \<Longrightarrow> row_id (f r) = row_id r" and "inj_on key (f ` set rows)"
  shows "table_ok row_id key (map f rows)"
proof -
  have ids: "map row_id (map f rows) = map row_id rows" using assms(2) by simp
  then have "distinct (map row_id (map f rows))" using assms(1) by (simp only: table_ok_def)
  then have "distinct (map f rows)" by (simp only: distinct_map)
  then have "distinct (map key (map f rows))" using assms(3) by (simp add: distinct_map[of key] del: map_map)
  then show ?thesis using ids assms(1) by (simp only: table_ok_def)
qed

lemma inj_on_image_same: "inj_on key S \<Longrightarrow> (\<And>r. r \<in> S \<Longrightarrow> key (f r) = key r) \<Longrightarrow> inj_on key (f ` S)"
  by (auto simp: inj_on_def)

lemma image_replace:
  assumes "old \<in> S" and "\<And>r. r \<in> S \<Longrightarrow> f r = (if r = old then new else r)"
  shows "f ` S = insert new (S - {old})"
proof -
  have "f ` S = (\<lambda>r. if r = old then new else r) ` S" by (rule image_cong[OF refl assms(2)])
  then show ?thesis using assms(1) by auto
qed

lemma distinct_count: "distinct rows \<Longrightarrow> length (filter c rows) = card {r \<in> set rows. c r}"
  by (metis distinct_card distinct_filter set_filter)

section \<open>The laws\<close>

locale stored_table =
  fixes ok :: "'s \<Rightarrow> bool" and view :: "'s \<Rightarrow> 'v"
    and get :: "'s \<Rightarrow> 'row list" and put :: "'row list \<Rightarrow> 's \<Rightarrow> 's"
    and getV :: "'v \<Rightarrow> 'row set" and putV :: "'row set \<Rightarrow> 'v \<Rightarrow> 'v"
    and row_id :: "'row \<Rightarrow> nat" and with_id :: "nat \<Rightarrow> 'row \<Rightarrow> 'row" and key :: "'row \<Rightarrow> 'k"
  assumes table: "ok s \<Longrightarrow> table_ok row_id key (get s)"
    and kept: "ok s \<Longrightarrow> table_ok row_id key rows \<Longrightarrow> ok (put rows s)"
    and view_get: "getV (view s) = set (get s)"
    and view_put: "view (put rows s) = putV (set rows) (view s)"
    and with_id: "row_id (with_id n r) = n" "key (with_id n r) = key r"
begin

abbreviation T where "T \<equiv> memory_table get put row_id with_id key"

lemmas inj = table_ok_inj[OF table]

lemma insert_ok:
  "ok s \<Longrightarrow> key r \<notin> key ` set (get s) \<Longrightarrow> ok (put (with_id (fresh_id row_id (get s)) r # get s) s)"
  using fresh_id_fresh[of row_id "get s"] table[of s]
  by (intro kept) (auto simp: table_ok_def with_id)

lemma upsert_existing:
  assumes s: "ok s" and old: "old \<in> set (get s)" "key old = key r"
    and same: "row_id (assign old r) = row_id old" "key (assign old r) = key old"
  shows "outcome ok view (Create_DoUpdates T assign r) s
    (\<lambda>res v. res = Inr () \<and> v = putV (insert (assign old r) (set (get s) - {old})) (view s))"
proof -
  let ?f = "\<lambda>o'. if key o' = key r then assign o' r else o'"
  have one: "o' = old" if "o' \<in> set (get s)" "key o' = key r" for o'
    using that old inj(2)[OF s] by (simp add: inj_on_def)
  have f: "?f o' = (if o' = old then assign old r else o')" if "o' \<in> set (get s)" for o'
    using one[OF that] old(2) by metis
  have kept_cols: "row_id (?f o') = row_id o'" "key (?f o') = key o'" if "o' \<in> set (get s)" for o'
    unfolding f[OF that] using same by simp_all
  have "inj_on key (?f ` set (get s))"
    by (rule inj_on_image_same[OF inj(2)[OF s]]) (rule kept_cols)
  note image = this
  have "table_ok row_id key (map ?f (get s))"
    by (rule table_ok_map[OF table[OF s]], rule kept_cols, assumption, rule image)
  then have "ok (put (map ?f (get s)) s)" by (rule kept[OF s])
  moreover have "?f ` set (get s) = insert (assign old r) (set (get s) - {old})"
    by (rule image_replace[OF old(1)]) (rule f)
  moreover have "key r \<in> key ` set (get s)" using image_eqI[of "key r" key old "set (get s)"] old by simp
  ultimately show ?thesis by (simp add: outcome_def memory_table_def view_put)
qed

lemma delete_rows:
  assumes s: "ok s"
  shows "outcome ok view (Delete_where T c) s
    (\<lambda>res v. res = Inr (card {r \<in> set (get s). c r}) \<and> v = putV {r \<in> set (get s). \<not> c r} (view s))"
proof -
  have "ok (put (filter (\<lambda>r. \<not> c r) (get s)) s)" by (intro kept[OF s] table_ok_filter table[OF s])
  then show ?thesis by (simp add: outcome_def memory_table_def distinct_count[OF inj(3)[OF s]] view_put)
qed

lemma update_rows:
  assumes s: "ok s" and f: "\<And>r. row_id (f r) = row_id r" "inj_on key ((\<lambda>r. if c r then f r else r) ` set (get s))"
  shows "outcome ok view (Update_where T c f) s
    (\<lambda>res v. res = Inr () \<and> v = putV ((\<lambda>r. if c r then f r else r) ` set (get s)) (view s))"
proof -
  let ?f = "\<lambda>r. if c r then f r else r"
  have t: "table_ok row_id key (map ?f (get s))" using f by (intro table_ok_map[OF table[OF s]]) simp_all
  then have "ok (put (map ?f (get s)) s)" by (rule kept[OF s])
  moreover have "distinct (map key (map ?f (get s)))" using t by (simp only: table_ok_def)
  ultimately show ?thesis by (simp add: outcome_def memory_table_def view_put del: map_map)
qed

lemma find_row:
  assumes "ok s"
  shows "outcome ok view (First T c) s (\<lambda>res v. v = view s
    \<and> (res = Inr None \<and> (\<forall>r \<in> set (get s). \<not> c r) \<or> (\<exists>r. res = Inr (Some r) \<and> r \<in> set (get s) \<and> c r)))"
  using assms by (cases "find c (get s)") (auto simp: outcome_def memory_table_def find_None_iff find_Some_iff)

sublocale db_table ok view T getV putV row_id with_id key
proof (unfold_locales, unfold view_get)
  fix s r assume "ok s" "key r \<notin> key ` set (get s)"
  note new = insert_ok[OF this] fresh_id_fresh[of row_id "get s"] this
  show "outcome ok view (Create_DoNothing T r) s (\<lambda>res v. res = Inr 1
      \<and> (\<exists>n. n \<notin> row_id ` set (get s) \<and> v = putV (insert (with_id n r) (set (get s))) (view s)))"
    using new by (auto simp: outcome_def memory_table_def view_put)
  show "outcome ok view (Create_DoUpdates T assign r) s (\<lambda>res v. res = Inr ()
      \<and> (\<exists>n. n \<notin> row_id ` set (get s) \<and> v = putV (insert (with_id n r) (set (get s))) (view s)))" for assign
    using new by (auto simp: outcome_def memory_table_def view_put)
next
  show "ok s \<Longrightarrow> (\<And>r. row_id (f r) = row_id r) \<Longrightarrow> inj_on key ((\<lambda>r. if c r then f r else r) ` set (get s)) \<Longrightarrow>
      outcome ok view (Update_where T c f) s
        (\<lambda>res v. res = Inr () \<and> v = putV ((\<lambda>r. if c r then f r else r) ` set (get s)) (view s))" for s c f
    by (rule update_rows)
qed (simp_all add: inj upsert_existing delete_rows find_row,
    simp_all add: outcome_def memory_table_def distinct_count[OF inj(3)] inj(3))

end

lemma memory_transactional: "transactional ok view memory_transaction"
  by unfold_locales (auto simp: outcome_def memory_transaction_def split: prod.splits sum.splits)

section \<open>The shared database\<close>

record shared_tables =
  st_resources :: "resourceModel list"
  st_operations :: "operationModel list"
  st_users :: "userModel list"

definition shared_tables_ok :: "shared_tables \<Rightarrow> bool" where
  "shared_tables_ok s \<longleftrightarrow> table_ok rm_ID rm_Name (st_resources s) \<and> table_ok om_ID om_Name (st_operations s)
     \<and> table_ok um_ID um_Sub (st_users s)"

definition shared_tables_view :: "shared_tables \<Rightarrow> shared_rows" where
  "shared_tables_view s = \<lparr>sr_resources = set (st_resources s), sr_operations = set (st_operations s),
     sr_users = set (st_users s)\<rparr>"

definition memory_shared :: "shared_tables sharedDB" where
  "memory_shared = \<lparr>
     db_resources = memory_table st_resources (\<lambda>x. st_resources_update (\<lambda>_. x)) rm_ID (\<lambda>n. rm_ID_update (\<lambda>_. n)) rm_Name,
     db_operations = memory_table st_operations (\<lambda>x. st_operations_update (\<lambda>_. x)) om_ID (\<lambda>n. om_ID_update (\<lambda>_. n)) om_Name,
     db_users = memory_table st_users (\<lambda>x. st_users_update (\<lambda>_. x)) um_ID (\<lambda>n. um_ID_update (\<lambda>_. n)) um_Sub,
     db_Transaction = memory_transaction\<rparr>"

lemma memory_shared_select [simp]:
  "db_resources memory_shared = memory_table st_resources (\<lambda>x. st_resources_update (\<lambda>_. x)) rm_ID (\<lambda>n. rm_ID_update (\<lambda>_. n)) rm_Name"
  "db_operations memory_shared = memory_table st_operations (\<lambda>x. st_operations_update (\<lambda>_. x)) om_ID (\<lambda>n. om_ID_update (\<lambda>_. n)) om_Name"
  "db_users memory_shared = memory_table st_users (\<lambda>x. st_users_update (\<lambda>_. x)) um_ID (\<lambda>n. um_ID_update (\<lambda>_. n)) um_Sub"
  "db_Transaction memory_shared = memory_transaction"
  by (simp_all add: memory_shared_def)

interpretation users_table: stored_table shared_tables_ok shared_tables_view st_users
  "\<lambda>x. st_users_update (\<lambda>_. x)" sr_users "\<lambda>S. sr_users_update (\<lambda>_. S)" um_ID "\<lambda>n. um_ID_update (\<lambda>_. n)" um_Sub
  by unfold_locales (simp_all add: shared_tables_ok_def shared_tables_view_def)

interpretation resources_table: stored_table shared_tables_ok shared_tables_view st_resources
  "\<lambda>x. st_resources_update (\<lambda>_. x)" sr_resources "\<lambda>S. sr_resources_update (\<lambda>_. S)" rm_ID "\<lambda>n. rm_ID_update (\<lambda>_. n)" rm_Name
  by unfold_locales (simp_all add: shared_tables_ok_def shared_tables_view_def)

interpretation operations_table: stored_table shared_tables_ok shared_tables_view st_operations
  "\<lambda>x. st_operations_update (\<lambda>_. x)" sr_operations "\<lambda>S. sr_operations_update (\<lambda>_. S)" om_ID "\<lambda>n. om_ID_update (\<lambda>_. n)" om_Name
  by unfold_locales (simp_all add: shared_tables_ok_def shared_tables_view_def)

interpretation mem_shared: shared_database shared_tables_ok shared_tables_view memory_shared
  unfolding shared_database_def memory_shared_select
  by (intro conjI memory_transactional users_table.db_table_axioms resources_table.db_table_axioms
      operations_table.db_table_axioms)

section \<open>The database of a tenant\<close>

record tenant_tables =
  tt_roles :: "roleModel list"
  tt_user_roles :: "userRoleModel list"
  tt_role_permissions :: "rolePermissionModel list"
  tt_user_permissions :: "userPermissionModel list"
  tt_role_restricted_ids :: "roleRestrictedIDModel list"
  tt_user_restricted_ids :: "userRestrictedIDModel list"

definition tenant_tables_ok :: "tenant_tables \<Rightarrow> bool" where
  "tenant_tables_ok s \<longleftrightarrow> table_ok ro_ID ro_Name (tt_roles s)
     \<and> table_ok ur_ID ur_key (tt_user_roles s)
     \<and> table_ok rp_ID rp_key (tt_role_permissions s)
     \<and> table_ok up_ID up_key (tt_user_permissions s)
     \<and> table_ok rr_ID rr_key (tt_role_restricted_ids s)
     \<and> table_ok ui_ID ui_key (tt_user_restricted_ids s)"

definition tenant_tables_view :: "tenant_tables \<Rightarrow> tenant_rows" where
  "tenant_tables_view s = \<lparr>tr_roles = set (tt_roles s),
     tr_user_roles = set (tt_user_roles s),
     tr_role_permissions = set (tt_role_permissions s),
     tr_user_permissions = set (tt_user_permissions s),
     tr_role_restricted_ids = set (tt_role_restricted_ids s),
     tr_user_restricted_ids = set (tt_user_restricted_ids s)\<rparr>"

definition memory_tenant :: "tenant_tables tenantDB" where
  "memory_tenant = \<lparr>
     db_roles = memory_table tt_roles (\<lambda>x. tt_roles_update (\<lambda>_. x)) ro_ID (\<lambda>n. ro_ID_update (\<lambda>_. n)) ro_Name,
     db_user_roles = memory_table tt_user_roles (\<lambda>x. tt_user_roles_update (\<lambda>_. x)) ur_ID (\<lambda>n. ur_ID_update (\<lambda>_. n)) ur_key,
     db_role_permissions = memory_table tt_role_permissions (\<lambda>x. tt_role_permissions_update (\<lambda>_. x)) rp_ID (\<lambda>n. rp_ID_update (\<lambda>_. n)) rp_key,
     db_user_permissions = memory_table tt_user_permissions (\<lambda>x. tt_user_permissions_update (\<lambda>_. x)) up_ID (\<lambda>n. up_ID_update (\<lambda>_. n)) up_key,
     db_role_restricted_ids = memory_table tt_role_restricted_ids (\<lambda>x. tt_role_restricted_ids_update (\<lambda>_. x)) rr_ID (\<lambda>n. rr_ID_update (\<lambda>_. n)) rr_key,
     db_user_restricted_ids = memory_table tt_user_restricted_ids (\<lambda>x. tt_user_restricted_ids_update (\<lambda>_. x)) ui_ID (\<lambda>n. ui_ID_update (\<lambda>_. n)) ui_key,
     db_tenant_Transaction = memory_transaction\<rparr>"

lemma memory_tenant_select [simp]:
  "db_roles memory_tenant = memory_table tt_roles (\<lambda>x. tt_roles_update (\<lambda>_. x)) ro_ID (\<lambda>n. ro_ID_update (\<lambda>_. n)) ro_Name"
  "db_user_roles memory_tenant = memory_table tt_user_roles (\<lambda>x. tt_user_roles_update (\<lambda>_. x)) ur_ID (\<lambda>n. ur_ID_update (\<lambda>_. n)) ur_key"
  "db_role_permissions memory_tenant = memory_table tt_role_permissions (\<lambda>x. tt_role_permissions_update (\<lambda>_. x)) rp_ID (\<lambda>n. rp_ID_update (\<lambda>_. n)) rp_key"
  "db_user_permissions memory_tenant = memory_table tt_user_permissions (\<lambda>x. tt_user_permissions_update (\<lambda>_. x)) up_ID (\<lambda>n. up_ID_update (\<lambda>_. n)) up_key"
  "db_role_restricted_ids memory_tenant = memory_table tt_role_restricted_ids (\<lambda>x. tt_role_restricted_ids_update (\<lambda>_. x)) rr_ID (\<lambda>n. rr_ID_update (\<lambda>_. n)) rr_key"
  "db_user_restricted_ids memory_tenant = memory_table tt_user_restricted_ids (\<lambda>x. tt_user_restricted_ids_update (\<lambda>_. x)) ui_ID (\<lambda>n. ui_ID_update (\<lambda>_. n)) ui_key"
  "db_tenant_Transaction memory_tenant = memory_transaction"
  by (simp_all add: memory_tenant_def)

interpretation roles_table: stored_table tenant_tables_ok tenant_tables_view tt_roles
  "\<lambda>x. tt_roles_update (\<lambda>_. x)" tr_roles "\<lambda>S. tr_roles_update (\<lambda>_. S)" ro_ID "\<lambda>n. ro_ID_update (\<lambda>_. n)" ro_Name
  by unfold_locales (simp_all add: tenant_tables_ok_def tenant_tables_view_def)

interpretation user_roles_table: stored_table tenant_tables_ok tenant_tables_view tt_user_roles
  "\<lambda>x. tt_user_roles_update (\<lambda>_. x)" tr_user_roles "\<lambda>S. tr_user_roles_update (\<lambda>_. S)" ur_ID "\<lambda>n. ur_ID_update (\<lambda>_. n)" ur_key
  by unfold_locales (simp_all add: tenant_tables_ok_def tenant_tables_view_def)

interpretation role_permissions_table: stored_table tenant_tables_ok tenant_tables_view tt_role_permissions
  "\<lambda>x. tt_role_permissions_update (\<lambda>_. x)" tr_role_permissions "\<lambda>S. tr_role_permissions_update (\<lambda>_. S)" rp_ID "\<lambda>n. rp_ID_update (\<lambda>_. n)" rp_key
  by unfold_locales (simp_all add: tenant_tables_ok_def tenant_tables_view_def)

interpretation user_permissions_table: stored_table tenant_tables_ok tenant_tables_view tt_user_permissions
  "\<lambda>x. tt_user_permissions_update (\<lambda>_. x)" tr_user_permissions "\<lambda>S. tr_user_permissions_update (\<lambda>_. S)" up_ID "\<lambda>n. up_ID_update (\<lambda>_. n)" up_key
  by unfold_locales (simp_all add: tenant_tables_ok_def tenant_tables_view_def)

interpretation role_restricted_ids_table: stored_table tenant_tables_ok tenant_tables_view tt_role_restricted_ids
  "\<lambda>x. tt_role_restricted_ids_update (\<lambda>_. x)" tr_role_restricted_ids "\<lambda>S. tr_role_restricted_ids_update (\<lambda>_. S)" rr_ID "\<lambda>n. rr_ID_update (\<lambda>_. n)" rr_key
  by unfold_locales (simp_all add: tenant_tables_ok_def tenant_tables_view_def)

interpretation user_restricted_ids_table: stored_table tenant_tables_ok tenant_tables_view tt_user_restricted_ids
  "\<lambda>x. tt_user_restricted_ids_update (\<lambda>_. x)" tr_user_restricted_ids "\<lambda>S. tr_user_restricted_ids_update (\<lambda>_. S)" ui_ID "\<lambda>n. ui_ID_update (\<lambda>_. n)" ui_key
  by unfold_locales (simp_all add: tenant_tables_ok_def tenant_tables_view_def)

interpretation mem_tenant: tenant_database tenant_tables_ok tenant_tables_view memory_tenant
  unfolding tenant_database_def memory_tenant_select
  by (intro conjI memory_transactional roles_table.db_table_axioms user_roles_table.db_table_axioms
      role_permissions_table.db_table_axioms user_permissions_table.db_table_axioms
      role_restricted_ids_table.db_table_axioms user_restricted_ids_table.db_table_axioms)

end
