(* ===== verification/Config.thy ===== *)
theory Config
  imports GoLib
begin

text \<open>
  \<^verbatim>\<open>internal/config/config.go\<close>: the configuration record, its defaults and its validation. The YAML
  library, the file system and the environment are parameters; \<^verbatim>\<open>os.ExpandEnv\<close> is written out.
\<close>

section \<open>The configuration\<close>

record Auth_config =
  Enabled :: "bool option"
  Issuer :: string
  Audience :: string
  DefaultSub :: string

record DB =
  Driver :: string
  DSN :: string

record Storage =
  Storage_Shared :: DB
  Storage_Tenants :: "DB gomap"

record Bootstrap =
  AdminSub :: string
  Files :: "string list"

record Config =
  Server_Address :: string
  Config_Auth :: Auth_config
  Config_Bootstrap :: Bootstrap
  Config_Storage :: Storage

text \<open>One constructor per message; the two outer ones wrap the error of a parameter.\<close>

datatype 'e config_error =
    ReadConfig 'e
  | ParseConfig 'e
  | IssuerRequired
  | SharedRequired
  | SharedDriverUnsupported string
  | NoTenantDeclared
  | TenantIncomplete string
  | TenantDriverUnsupported string string
  | AdminSubRequired

section \<open>The code\<close>

definition IsEnabled :: "Auth_config \<Rightarrow> bool" where
  "IsEnabled a \<longleftrightarrow> (case Enabled a of None \<Rightarrow> True | Some b \<Rightarrow> b)"

definition applyDefaults :: "Config \<Rightarrow> Config" where
  "applyDefaults c =
     (let c1 = (if Server_Address c = '''' then c\<lparr>Server_Address := '':8080''\<rparr> else c) in
      if \<not> IsEnabled (Config_Auth c1) \<and> DefaultSub (Config_Auth c1) = ''''
      then c1\<lparr>Config_Auth := (Config_Auth c1)\<lparr>DefaultSub := ''test-user''\<rparr>\<rparr> else c1)"

definition validDrivers :: "bool gomap" where
  "validDrivers = Some (fmap_of_list
     [(''sqlite'', True), (''postgres'', True), (''mysql'', True), (''json'', True)])"

text \<open>A lookup of an absent key gives the zero value, here \<open>False\<close>.\<close>

definition driver_ok :: "string \<Rightarrow> bool" where
  "driver_ok d \<longleftrightarrow> (case map_get validDrivers (ToLower d) of None \<Rightarrow> False | Some b \<Rightarrow> b)"

fun validate_tenants :: "(string \<times> DB) list \<Rightarrow> 'e config_error + unit" where
  "validate_tenants [] = Inr ()"
| "validate_tenants ((tid, db) # rest) =
     (if Driver db = '''' \<or> DSN db = '''' then Inl (TenantIncomplete tid)
      else if \<not> driver_ok (Driver db) then Inl (TenantDriverUnsupported tid (Driver db))
      else validate_tenants rest)"

definition validate :: "map_order \<Rightarrow> Config \<Rightarrow> 'e config_error + unit" where
  "validate it c =
     (let auth = Config_Auth c; shared = Storage_Shared (Config_Storage c);
          tenants = Storage_Tenants (Config_Storage c) in
      if IsEnabled auth \<and> Issuer auth = '''' then Inl IssuerRequired
      else if Driver shared = '''' \<or> DSN shared = '''' then Inl SharedRequired
      else if \<not> driver_ok (Driver shared) then Inl (SharedDriverUnsupported (Driver shared))
      else if length (map_keys tenants) = 0 then Inl NoTenantDeclared
      else (case validate_tenants (range_map it tenants) of
              Inl e \<Rightarrow> Inl e
            | Inr _ \<Rightarrow> if AdminSub (Config_Bootstrap c) = '''' then Inl AdminSubRequired else Inr ()))"

definition Parse :: "map_order \<Rightarrow> (string \<Rightarrow> 'e + Config) \<Rightarrow> string \<Rightarrow> 'e config_error + Config" where
  "Parse it unmarshal doc =
     (case unmarshal doc of
        Inl e \<Rightarrow> Inl (ParseConfig e)
      | Inr c \<Rightarrow> (let cfg = applyDefaults c in
          case validate it cfg of Inl e \<Rightarrow> Inl e | Inr _ \<Rightarrow> Inr cfg))"

subsection \<open>Environment expansion\<close>

text \<open>\<^verbatim>\<open>os.ExpandEnv\<close> of the standard library, with the environment \<open>getenv\<close>.\<close>

definition isShellSpecialVar :: "char \<Rightarrow> bool" where
  "isShellSpecialVar c \<longleftrightarrow> c \<in> set ''*#$@!?-0123456789''"

definition isAlphaNum :: "char \<Rightarrow> bool" where
  "isAlphaNum c \<longleftrightarrow> (let n = of_char c :: nat in
     n = 95 \<or> 48 \<le> n \<and> n \<le> 57 \<or> 97 \<le> n \<and> n \<le> 122 \<or> 65 \<le> n \<and> n \<le> 90)"

text \<open>The name that follows a dollar sign and the number of bytes it takes.\<close>

definition getShellName :: "string \<Rightarrow> string \<times> nat" where
  "getShellName s =
     (if hd s = CHR ''{'' then
        (if length s > 2 \<and> isShellSpecialVar (s ! 1) \<and> s ! 2 = CHR ''}'' then ([s ! 1], 3)
         else
           let name = takeWhile (\<lambda>c. c \<noteq> CHR ''}'') (tl s) in
           if length name = length (tl s) then ('''', 1)
           else if name = '''' then ('''', 2)
           else (name, length name + 2))
      else if isShellSpecialVar (hd s) then ([hd s], 1)
      else let name = takeWhile isAlphaNum s in (name, length name))"

function expand :: "(string \<Rightarrow> string) \<Rightarrow> string \<Rightarrow> string" where
  "expand getenv [] = []"
| "expand getenv (c # s) =
     (if c = CHR ''$'' \<and> s \<noteq> [] then
        (case getShellName s of (name, w) \<Rightarrow>
           (if name = '''' then (if w > 0 then [] else [c]) else getenv name)
           @ expand getenv (drop w s))
      else c # expand getenv s)"
  by pat_completeness auto
termination by (relation "measure (\<lambda>(_, s). length s)") auto

definition Load :: "map_order \<Rightarrow> (string \<Rightarrow> 'e + string) \<Rightarrow> (string \<Rightarrow> string) \<Rightarrow> (string \<Rightarrow> 'e + Config)
    \<Rightarrow> string \<Rightarrow> 'e config_error + Config" where
  "Load it readFile getenv unmarshal path =
     (case readFile path of
        Inl e \<Rightarrow> Inl (ReadConfig e)
      | Inr raw \<Rightarrow> Parse it unmarshal (expand getenv raw))"

section \<open>What an accepted configuration guarantees\<close>

definition db_ok :: "DB \<Rightarrow> bool" where
  "db_ok db \<longleftrightarrow> Driver db \<noteq> '''' \<and> DSN db \<noteq> '''' \<and> driver_ok (Driver db)"

definition config_ok :: "Config \<Rightarrow> bool" where
  "config_ok c \<longleftrightarrow> (IsEnabled (Config_Auth c) \<longrightarrow> Issuer (Config_Auth c) \<noteq> '''')
     \<and> db_ok (Storage_Shared (Config_Storage c))
     \<and> (\<exists>tid db. map_get (Storage_Tenants (Config_Storage c)) tid = Some db)
     \<and> (\<forall>tid db. map_get (Storage_Tenants (Config_Storage c)) tid = Some db \<longrightarrow> db_ok db)
     \<and> AdminSub (Config_Bootstrap c) \<noteq> ''''"

lemma validate_tenants_iff:
  "validate_tenants xs = Inr () \<longleftrightarrow> (\<forall>(tid, db) \<in> set xs. db_ok db)"
  by (induction xs rule: validate_tenants.induct) (auto simp: db_ok_def)

lemma driver_ok_iff: "driver_ok d \<longleftrightarrow> ToLower d \<in> {''sqlite'', ''postgres'', ''mysql'', ''json''}"
  by (auto simp: driver_ok_def validDrivers_def fmlookup_of_list)

lemma no_keys_iff: "map_keys m = [] \<longleftrightarrow> (\<forall>k. map_get m k = None)"
  using set_map_keys[of m] by (metis (mono_tags, lifting) empty_Collect_eq set_empty)

lemma validate_iff: "validate it c = Inr () \<longleftrightarrow> config_ok c"
proof -
  let ?ts = "Storage_Tenants (Config_Storage c)"
  have ts: "validate_tenants (range_map it ?ts) = Inr () \<longleftrightarrow> (\<forall>tid db. map_get ?ts tid = Some db \<longrightarrow> db_ok db)"
    by (auto simp: validate_tenants_iff)
  have some: "map_keys ?ts \<noteq> [] \<longleftrightarrow> (\<exists>tid db. map_get ?ts tid = Some db)"
    by (auto simp: no_keys_iff)
  show ?thesis
    unfolding validate_def config_ok_def Let_def
    using ts some by (auto simp: db_ok_def split: sum.splits)
qed

text \<open>The defaults only fill in what is empty, and filling in twice is filling in once.\<close>

lemma applyDefaults_idem: "applyDefaults (applyDefaults c) = applyDefaults c"
  by (simp add: applyDefaults_def Let_def IsEnabled_def)

lemma applyDefaults_keeps:
  "Config_Bootstrap (applyDefaults c) = Config_Bootstrap c"
  "Config_Storage (applyDefaults c) = Config_Storage c"
  "IsEnabled (Config_Auth (applyDefaults c)) = IsEnabled (Config_Auth c)"
  "Issuer (Config_Auth (applyDefaults c)) = Issuer (Config_Auth c)"
  by (simp_all add: applyDefaults_def Let_def IsEnabled_def)

lemma Parse_accepts_iff:
  fixes unmarshal :: "string \<Rightarrow> 'e + Config"
  shows "Parse it unmarshal doc = Inr cfg \<longleftrightarrow>
     (\<exists>c. unmarshal doc = Inr c \<and> cfg = applyDefaults c \<and> config_ok cfg)"
proof (cases "unmarshal doc")
  case (Inl e)
  then show ?thesis by (simp add: Parse_def)
next
  case (Inr c)
  let ?v = "validate it (applyDefaults c) :: 'e config_error + unit"
  have "?v = Inr () \<longleftrightarrow> config_ok (applyDefaults c)" by (rule validate_iff)
  then show ?thesis using Inr by (cases ?v) (auto simp: Parse_def Let_def)
qed

lemma expand_plain: "CHR ''$'' \<notin> set s \<Longrightarrow> expand getenv s = s"
  by (induction s) auto

end
