(* ===== verification/Backend.thy ===== *)
theory Backend
  imports StoreSpec
begin

text \<open>
  The values of the interface types \<open>Shared\<close> and \<open>Tenant\<close> of \<^verbatim>\<open>internal/store/store.go\<close>. A store
  behind an interface is on files or on a database; a method call goes to the driver of its dynamic
  type (\<open>dispatch\<close>). Stores that keep a contract keep it behind the interface too, so the
  services and the server are correct for every mix of drivers.
\<close>

section \<open>Interface values\<close>

datatype ('j, 'd) backend = FileStore 'j | SqlStore 'd

definition dispatch :: "('e, 'x, 'j) eff \<Rightarrow> ('e, 'x, 'd) eff \<Rightarrow> ('e, 'x, ('j, 'd) backend) eff" where
  "dispatch m1 m2 s = (case s of
     FileStore j \<Rightarrow> map_prod id FileStore (m1 j)
   | SqlStore d \<Rightarrow> map_prod id SqlStore (m2 d))"

abbreviation on_backend :: "('j \<Rightarrow> 'x) \<Rightarrow> ('d \<Rightarrow> 'x) \<Rightarrow> ('j, 'd) backend \<Rightarrow> 'x" where
  "on_backend \<equiv> case_backend"

definition dispatch_shared :: "'j Shared \<Rightarrow> 'd Shared \<Rightarrow> ('j, 'd) backend Shared" where
  "dispatch_shared S1 S2 = \<lparr>
     Shared_EnsureUser = (\<lambda>a. dispatch (Shared_EnsureUser S1 a) (Shared_EnsureUser S2 a)),
     Shared_ListUsers = dispatch (Shared_ListUsers S1) (Shared_ListUsers S2),
     Shared_CreateResource = (\<lambda>a. dispatch (Shared_CreateResource S1 a) (Shared_CreateResource S2 a)),
     Shared_EnsureResource = (\<lambda>a. dispatch (Shared_EnsureResource S1 a) (Shared_EnsureResource S2 a)),
     Shared_DeleteResource = (\<lambda>a. dispatch (Shared_DeleteResource S1 a) (Shared_DeleteResource S2 a)),
     Shared_ListResources = dispatch (Shared_ListResources S1) (Shared_ListResources S2),
     Shared_CreateOperation = (\<lambda>a b. dispatch (Shared_CreateOperation S1 a b) (Shared_CreateOperation S2 a b)),
     Shared_EnsureOperation = (\<lambda>a b. dispatch (Shared_EnsureOperation S1 a b) (Shared_EnsureOperation S2 a b)),
     Shared_DeleteOperation = (\<lambda>a. dispatch (Shared_DeleteOperation S1 a) (Shared_DeleteOperation S2 a)),
     Shared_ListOperations = dispatch (Shared_ListOperations S1) (Shared_ListOperations S2),
     Shared_OperationExists = (\<lambda>a. dispatch (Shared_OperationExists S1 a) (Shared_OperationExists S2 a))\<rparr>"

definition dispatch_tenant :: "'j Tenant \<Rightarrow> 'd Tenant \<Rightarrow> ('j, 'd) backend Tenant" where
  "dispatch_tenant T1 T2 = \<lparr>
     Tenant_CreateRole = (\<lambda>a. dispatch (Tenant_CreateRole T1 a) (Tenant_CreateRole T2 a)),
     Tenant_EnsureRole = (\<lambda>a. dispatch (Tenant_EnsureRole T1 a) (Tenant_EnsureRole T2 a)),
     Tenant_RoleExists = (\<lambda>a. dispatch (Tenant_RoleExists T1 a) (Tenant_RoleExists T2 a)),
     Tenant_RenameRole = (\<lambda>a b. dispatch (Tenant_RenameRole T1 a b) (Tenant_RenameRole T2 a b)),
     Tenant_DeleteRole = (\<lambda>a. dispatch (Tenant_DeleteRole T1 a) (Tenant_DeleteRole T2 a)),
     Tenant_ListRoles = dispatch (Tenant_ListRoles T1) (Tenant_ListRoles T2),
     Tenant_AssignRole = (\<lambda>a b. dispatch (Tenant_AssignRole T1 a b) (Tenant_AssignRole T2 a b)),
     Tenant_UnassignRole = (\<lambda>a b. dispatch (Tenant_UnassignRole T1 a b) (Tenant_UnassignRole T2 a b)),
     Tenant_UserRoles = (\<lambda>a. dispatch (Tenant_UserRoles T1 a) (Tenant_UserRoles T2 a)),
     Tenant_SetRolePermission = (\<lambda>a b c. dispatch (Tenant_SetRolePermission T1 a b c) (Tenant_SetRolePermission T2 a b c)),
     Tenant_RemoveRolePermission = (\<lambda>a b. dispatch (Tenant_RemoveRolePermission T1 a b) (Tenant_RemoveRolePermission T2 a b)),
     Tenant_RolePermissions = (\<lambda>a. dispatch (Tenant_RolePermissions T1 a) (Tenant_RolePermissions T2 a)),
     Tenant_HasRolePermission = (\<lambda>a b. dispatch (Tenant_HasRolePermission T1 a b) (Tenant_HasRolePermission T2 a b)),
     Tenant_SetUserPermission = (\<lambda>a b c. dispatch (Tenant_SetUserPermission T1 a b c) (Tenant_SetUserPermission T2 a b c)),
     Tenant_RemoveUserPermission = (\<lambda>a b. dispatch (Tenant_RemoveUserPermission T1 a b) (Tenant_RemoveUserPermission T2 a b)),
     Tenant_UserPermissions = (\<lambda>a. dispatch (Tenant_UserPermissions T1 a) (Tenant_UserPermissions T2 a)),
     Tenant_HasUserPermission = (\<lambda>a b. dispatch (Tenant_HasUserPermission T1 a b) (Tenant_HasUserPermission T2 a b)),
     Tenant_AddRoleRestrictedIDs = (\<lambda>a b c. dispatch (Tenant_AddRoleRestrictedIDs T1 a b c) (Tenant_AddRoleRestrictedIDs T2 a b c)),
     Tenant_RemoveRoleRestrictedIDs = (\<lambda>a b c. dispatch (Tenant_RemoveRoleRestrictedIDs T1 a b c) (Tenant_RemoveRoleRestrictedIDs T2 a b c)),
     Tenant_RoleRestrictedIDs = (\<lambda>a b. dispatch (Tenant_RoleRestrictedIDs T1 a b) (Tenant_RoleRestrictedIDs T2 a b)),
     Tenant_AddUserRestrictedIDs = (\<lambda>a b c. dispatch (Tenant_AddUserRestrictedIDs T1 a b c) (Tenant_AddUserRestrictedIDs T2 a b c)),
     Tenant_RemoveUserRestrictedIDs = (\<lambda>a b c. dispatch (Tenant_RemoveUserRestrictedIDs T1 a b c) (Tenant_RemoveUserRestrictedIDs T2 a b c)),
     Tenant_UserRestrictedIDs = (\<lambda>a b. dispatch (Tenant_UserRestrictedIDs T1 a b) (Tenant_UserRestrictedIDs T2 a b)),
     Tenant_RoleGrants = (\<lambda>a. dispatch (Tenant_RoleGrants T1 a) (Tenant_RoleGrants T2 a))\<rparr>"

section \<open>Contracts behind an interface\<close>

lemma refines_at_dispatch:
  "refines_at i1 a1 R m1 sp j \<Longrightarrow> refines_at (on_backend i1 i2) (on_backend a1 a2) R (dispatch m1 m2) sp (FileStore j)"
  "refines_at i2 a2 R m2 sp d \<Longrightarrow> refines_at (on_backend i1 i2) (on_backend a1 a2) R (dispatch m1 m2) sp (SqlStore d)"
  by (simp_all add: refines_at_def dispatch_def)

lemma refines_dispatch:
  "refinesR i1 a1 R m1 sp \<Longrightarrow> refinesR i2 a2 R m2 sp
   \<Longrightarrow> refinesR (on_backend i1 i2) (on_backend a1 a2) R (dispatch m1 m2) sp"
  by (auto simp: refinesR_def intro: refines_at_dispatch split: backend.split)

lemma dispatch_shared_store:
  assumes "shared_store S1 i1 a1" and "shared_store S2 i2 a2"
  shows "shared_store (dispatch_shared S1 S2) (on_backend i1 i2) (on_backend a1 a2)"
proof
  show "finite_shared (on_backend a1 a2 s)" if "on_backend i1 i2 s" for s
    using that shared_store.finite_absS[OF assms(1)] shared_store.finite_absS[OF assms(2)]
    by (cases s) simp_all
qed (simp_all add: dispatch_shared_def refines_dispatch
      assms[THEN shared_store.EnsureUser] assms[THEN shared_store.ListUsers]
      assms[THEN shared_store.CreateResource] assms[THEN shared_store.EnsureResource]
      assms[THEN shared_store.DeleteResource] assms[THEN shared_store.ListResources]
      assms[THEN shared_store.CreateOperation] assms[THEN shared_store.EnsureOperation]
      assms[THEN shared_store.DeleteOperation] assms[THEN shared_store.ListOperations]
      assms[THEN shared_store.OperationExists])

lemma dispatch_tenant_store:
  assumes "tenant_store T1 i1 a1" and "tenant_store T2 i2 a2"
  shows "tenant_store (dispatch_tenant T1 T2) (on_backend i1 i2) (on_backend a1 a2)"
proof
  show "finite_tenant (on_backend a1 a2 t)" if "on_backend i1 i2 t" for t
    using that tenant_store.finite_absT[OF assms(1)] tenant_store.finite_absT[OF assms(2)]
    by (cases t) simp_all
  show "refines_at (on_backend i1 i2) (on_backend a1 a2) (=)
      (Tenant_RemoveRoleRestrictedIDs (dispatch_tenant T1 T2) role p ids) (spec_RemoveRoleRestrictedIDs role p ids) t"
    if "on_backend i1 i2 t" "ids \<noteq> [] \<or> role \<in> aRoles (on_backend a1 a2 t)" for t ids role p
    using that tenant_store.RemoveRoleRestrictedIDs[OF assms(1)] tenant_store.RemoveRoleRestrictedIDs[OF assms(2)]
    by (cases t) (simp_all add: dispatch_tenant_def refines_at_dispatch)
  show "on_backend i1 i2 (snd (Tenant_RemoveRoleRestrictedIDs (dispatch_tenant T1 T2) role p ids t))
      \<and> on_backend a1 a2 (snd (Tenant_RemoveRoleRestrictedIDs (dispatch_tenant T1 T2) role p ids t))
        = snd (spec_RemoveRoleRestrictedIDs role p ids (on_backend a1 a2 t))
      \<and> fst (Tenant_RemoveRoleRestrictedIDs (dispatch_tenant T1 T2) role p ids t) \<in> {Inr (), Inl ErrNotFound}"
    if "on_backend i1 i2 t" for t ids role p
    using that tenant_store.RemoveRoleRestrictedIDs_state[OF assms(1)] tenant_store.RemoveRoleRestrictedIDs_state[OF assms(2)]
    by (cases t) (simp_all add: dispatch_tenant_def dispatch_def)
qed (simp_all add: dispatch_tenant_def refines_dispatch
      assms[THEN tenant_store.CreateRole]
      assms[THEN tenant_store.EnsureRole]
      assms[THEN tenant_store.RoleExists]
      assms[THEN tenant_store.RenameRole]
      assms[THEN tenant_store.DeleteRole]
      assms[THEN tenant_store.ListRoles]
      assms[THEN tenant_store.AssignRole]
      assms[THEN tenant_store.UnassignRole]
      assms[THEN tenant_store.UserRoles]
      assms[THEN tenant_store.SetRolePermission]
      assms[THEN tenant_store.RemoveRolePermission]
      assms[THEN tenant_store.RolePermissions]
      assms[THEN tenant_store.HasRolePermission]
      assms[THEN tenant_store.SetUserPermission]
      assms[THEN tenant_store.RemoveUserPermission]
      assms[THEN tenant_store.UserPermissions]
      assms[THEN tenant_store.HasUserPermission]
      assms[THEN tenant_store.AddRoleRestrictedIDs]
      assms[THEN tenant_store.RoleRestrictedIDs]
      assms[THEN tenant_store.AddUserRestrictedIDs]
      assms[THEN tenant_store.RemoveUserRestrictedIDs]
      assms[THEN tenant_store.UserRestrictedIDs]
      assms[THEN tenant_store.RoleGrants])

end
