(* ===== verification/Drivers.thy ===== *)
theory Drivers
  imports JsonStores MemoryDb Config Backend
begin

text \<open>
  \<^verbatim>\<open>Open\<close> of \<^verbatim>\<open>internal/store/store.go\<close> and \<open>openGorm\<close> of \<^verbatim>\<open>internal/store/gorm.go\<close>: from the
  storage configuration to the stores and their initial state. The file system enters as the
  directory and the contents of a path, the ORM as its entry points \<open>gorm.Open\<close>, \<open>DB\<close> and
  \<open>AutoMigrate\<close>. The theory ends with the interpretation of \<open>administration\<close> on the stores
  that \<open>Open\<close> returns, for every database that keeps its contract.
\<close>

section \<open>Opening\<close>

text \<open>
  \<open>Gorm_Open\<close> takes a dialect and a data source name; \<open>SetMaxOpenConns\<close> is the setting of the
  connection pool that \<open>Gorm_DB\<close> returns. Migrating a handle gives the tables of the models it is
  called with, one function for \<^verbatim>\<open>sharedModels()\<close> and one for \<^verbatim>\<open>tenantModels()\<close>.
\<close>

record ('h, 'sd, 'td) gorm =
  Gorm_Open :: "string \<Rightarrow> string \<Rightarrow> err + 'h"
  Gorm_DB :: "'h \<Rightarrow> err + unit"
  SetMaxOpenConns :: "nat \<Rightarrow> 'h \<Rightarrow> 'h"
  AutoMigrate_shared :: "'h \<Rightarrow> err + 'sd"
  AutoMigrate_tenant :: "'h \<Rightarrow> err + 'td"

record ('h, 'sd, 'td) platform =
  pf_dir :: "string \<Rightarrow> string"
  pf_file :: "string \<Rightarrow> disk_file"
  pf_faults :: "string \<Rightarrow> io_step option list"
  pf_gorm :: "('h, 'sd, 'td) gorm"

datatype open_error =
    UnsupportedDriver string
  | UnsupportedGormDriver string
  | OpenFailed err
  | MigrateFailed err
  | OpenShared open_error
  | OpenTenant string open_error

definition openGorm :: "('h, 'sd, 'td) gorm \<Rightarrow> DB \<Rightarrow> open_error + 'h" where
  "openGorm g cfg =
     (let driver = ToLower (Driver cfg) in
      if driver = ''sqlite'' then
        (case Gorm_Open g ''sqlite'' (DSN cfg) of Inl e \<Rightarrow> Inl (OpenFailed e)
         | Inr db \<Rightarrow> (case Gorm_DB g db of Inl e \<Rightarrow> Inl (OpenFailed e)
             | Inr _ \<Rightarrow> Inr (SetMaxOpenConns g 1 db)))
      else if driver = ''postgres'' then map_sum OpenFailed id (Gorm_Open g ''postgres'' (DSN cfg))
      else if driver = ''mysql'' then map_sum OpenFailed id (Gorm_Open g ''mysql'' (DSN cfg))
      else Inl (UnsupportedGormDriver (Driver cfg)))"

definition openShared :: "('h, 'sd, 'td) platform \<Rightarrow> DB \<Rightarrow> open_error + (jsonShared, 'sd) backend" where
  "openShared pf cfg =
     (let driver = ToLower (Driver cfg) in
      if driver = ''json'' then
        map_sum OpenFailed FileStore
          (openJSONShared (pf_dir pf (DSN cfg)) (pf_file pf (DSN cfg)) (pf_faults pf (DSN cfg)))
      else if driver = ''sqlite'' \<or> driver = ''postgres'' \<or> driver = ''mysql'' then
        (case openGorm (pf_gorm pf) cfg of Inl e \<Rightarrow> Inl e
         | Inr db \<Rightarrow> map_sum MigrateFailed SqlStore (AutoMigrate_shared (pf_gorm pf) db))
      else Inl (UnsupportedDriver (Driver cfg)))"

definition openTenant :: "('h, 'sd, 'td) platform \<Rightarrow> DB \<Rightarrow> open_error + (jsonTenant, 'td) backend" where
  "openTenant pf cfg =
     (let driver = ToLower (Driver cfg) in
      if driver = ''json'' then
        map_sum OpenFailed FileStore
          (openJSONTenant (pf_dir pf (DSN cfg)) (pf_file pf (DSN cfg)) (pf_faults pf (DSN cfg)))
      else if driver = ''sqlite'' \<or> driver = ''postgres'' \<or> driver = ''mysql'' then
        (case openGorm (pf_gorm pf) cfg of Inl e \<Rightarrow> Inl e
         | Inr db \<Rightarrow> map_sum MigrateFailed SqlStore (AutoMigrate_tenant (pf_gorm pf) db))
      else Inl (UnsupportedDriver (Driver cfg)))"

text \<open>The loop of \<open>Open\<close> over the configured tenants.\<close>

fun open_tenants :: "('h, 'sd, 'td) platform \<Rightarrow> (string \<times> DB) list \<Rightarrow> (string, (jsonTenant, 'td) backend) fmap
    \<Rightarrow> open_error + (string, (jsonTenant, 'td) backend) fmap" where
  "open_tenants pf [] acc = Inr acc"
| "open_tenants pf ((tid, dbCfg) # rest) acc =
     (case openTenant pf dbCfg of
        Inl e \<Rightarrow> Inl (OpenTenant tid e)
      | Inr t \<Rightarrow> open_tenants pf rest (fmupd tid t acc))"

type_synonym ('sd, 'td) any_stores = "((jsonShared, 'sd) backend, (jsonTenant, 'td) backend) Stores"

type_synonym ('sd, 'td) any_world = "((jsonShared, 'sd) backend, (jsonTenant, 'td) backend) world"

abbreviation any_shared :: "map_order \<Rightarrow> 'sd sharedDB \<Rightarrow> (jsonShared, 'sd) backend Shared" where
  "any_shared its DS \<equiv> dispatch_shared (json_shared its) (gorm_shared DS)"

abbreviation any_tenant :: "map_order \<Rightarrow> 'td tenantDB \<Rightarrow> (jsonTenant, 'td) backend Tenant" where
  "any_tenant itt DT \<equiv> dispatch_tenant (json_tenant itt) (gorm_tenant DT)"

text \<open>A tenant that is not configured has no store. The model gives it an empty one that no request reaches.\<close>

definition no_store :: "(jsonTenant, 'td) backend" where
  "no_store = FileStore fresh_tenant"

definition Open :: "map_order \<Rightarrow> map_order \<Rightarrow> map_order \<Rightarrow> 'sd sharedDB \<Rightarrow> 'td tenantDB \<Rightarrow> ('h, 'sd, 'td) platform
    \<Rightarrow> Storage \<Rightarrow> open_error + ('sd, 'td) any_stores \<times> ('sd, 'td) any_world" where
  "Open it its itt DS DT pf cfg =
     (case openShared pf (Storage_Shared cfg) of
        Inl e \<Rightarrow> Inl (OpenShared e)
      | Inr shared \<Rightarrow>
          (case open_tenants pf (range_map it (Storage_Tenants cfg)) fmempty of
             Inl e \<Rightarrow> Inl e
           | Inr tenants \<Rightarrow> Inr
               (\<lparr>Stores_Shared = any_shared its DS, Stores_tenants = Some (fmmap (\<lambda>_. any_tenant itt DT) tenants)\<rparr>,
                (shared, \<lambda>tid. case fmlookup tenants tid of None \<Rightarrow> no_store | Some t \<Rightarrow> t))))"

section \<open>What opening gives\<close>

lemma openGorm_supported:
  "ToLower (Driver cfg) \<in> {''sqlite'', ''postgres'', ''mysql''} \<Longrightarrow> openGorm g cfg = Inl e \<Longrightarrow> \<exists>e'. e = OpenFailed e'"
  by (auto simp: openGorm_def Let_def map_sum_def split: sum.splits if_splits)

text \<open>The errors that are not about the outside world are about the driver's name.\<close>

lemma openShared_error:
  assumes "openShared pf cfg = Inl e" and "driver_ok (Driver cfg)"
  shows "\<exists>e'. e = OpenFailed e' \<or> e = MigrateFailed e'"
  using assms openGorm_supported[of cfg "pf_gorm pf"]
  by (auto simp: openShared_def driver_ok_iff Let_def map_sum_def split: sum.splits if_splits)

lemma openTenant_error:
  assumes "openTenant pf cfg = Inl e" and "driver_ok (Driver cfg)"
  shows "\<exists>e'. e = OpenFailed e' \<or> e = MigrateFailed e'"
  using assms openGorm_supported[of cfg "pf_gorm pf"]
  by (auto simp: openTenant_def driver_ok_iff Let_def map_sum_def split: sum.splits if_splits)

lemma open_tenants_error:
  "open_tenants pf xs acc = Inl e \<Longrightarrow> \<exists>tid c e'. (tid, c) \<in> set xs \<and> openTenant pf c = Inl e' \<and> e = OpenTenant tid e'"
  by (induction pf xs acc rule: open_tenants.induct) (auto split: sum.splits)

lemma open_tenants_lookup:
  assumes "open_tenants pf xs acc = Inr f" and "distinct (map fst xs)"
  shows "(\<forall>(tid, c) \<in> set xs. \<exists>t. openTenant pf c = Inr t \<and> fmlookup f tid = Some t)
     \<and> (\<forall>tid. tid \<notin> fst ` set xs \<longrightarrow> fmlookup f tid = fmlookup acc tid)"
  using assms
proof (induction pf xs acc rule: open_tenants.induct)
  case (2 pf tid c rest acc)
  then obtain t where t: "openTenant pf c = Inr t" "open_tenants pf rest (fmupd tid t acc) = Inr f"
    by (auto split: sum.splits)
  have "\<forall>x. x \<notin> fst ` set rest \<longrightarrow> fmlookup f x = fmlookup (fmupd tid t acc) x"
    "\<forall>(x, c) \<in> set rest. \<exists>t. openTenant pf c = Inr t \<and> fmlookup f x = Some t"
    using "2.IH"[OF t] "2.prems"(2) by auto
  then show ?case using t(1) "2.prems"(2) by auto
qed simp

lemma open_tenants_succeeds:
  "(\<And>tid c. (tid, c) \<in> set xs \<Longrightarrow> \<exists>t. openTenant pf c = Inr t) \<Longrightarrow> \<exists>f. open_tenants pf xs acc = Inr f"
proof (induction xs arbitrary: acc)
  case (Cons x xs)
  obtain tid c where x: "x = (tid, c)" by force
  obtain t where t: "openTenant pf c = Inr t" using Cons.prems[of tid c] by (auto simp: x)
  have "\<exists>f. open_tenants pf xs (fmupd tid t acc) = Inr f" by (rule Cons.IH) (use Cons.prems in auto)
  then show ?case by (simp add: x t)
qed simp

definition configured :: "Storage \<Rightarrow> string set" where
  "configured cfg = {tid. map_get (Storage_Tenants cfg) tid \<noteq> None}"

text \<open>A successful \<open>Open\<close>: the shared store and exactly the configured tenants, each as it was opened.\<close>

lemma Open_run:
  assumes "Open it its itt DS DT pf cfg = Inr (stores, w)"
  shows "openShared pf (Storage_Shared cfg) = Inr (fst w)"
    and "map_get (Storage_Tenants cfg) tid = Some c \<Longrightarrow> openTenant pf c = Inr (snd w tid)"
    and "tid \<notin> configured cfg \<Longrightarrow> snd w tid = no_store"
    and "serves (any_shared its DS) (any_tenant itt DT) (configured cfg) stores"
proof -
  obtain s f where s: "openShared pf (Storage_Shared cfg) = Inr s"
    and f: "open_tenants pf (range_map it (Storage_Tenants cfg)) fmempty = Inr f"
    and st: "stores = \<lparr>Stores_Shared = any_shared its DS, Stores_tenants = Some (fmmap (\<lambda>_. any_tenant itt DT) f)\<rparr>"
    and w: "w = (s, \<lambda>tid. case fmlookup f tid of None \<Rightarrow> no_store | Some t \<Rightarrow> t)"
    using assms by (auto simp: Open_def split: sum.splits)
  have some: "\<exists>t. openTenant pf c = Inr t \<and> fmlookup f tid = Some t" if "map_get (Storage_Tenants cfg) tid = Some c" for tid c
    using open_tenants_lookup[OF f] that by auto
  have none: "fmlookup f tid = None" if "map_get (Storage_Tenants cfg) tid = None" for tid
    using open_tenants_lookup[OF f] that by (auto simp: image_iff)
  show "openShared pf (Storage_Shared cfg) = Inr (fst w)" by (simp add: s w)
  show "map_get (Storage_Tenants cfg) tid = Some c \<Longrightarrow> openTenant pf c = Inr (snd w tid)" using some by (force simp: w)
  show "tid \<notin> configured cfg \<Longrightarrow> snd w tid = no_store" using none by (simp add: w configured_def)
  show "serves (any_shared its DS) (any_tenant itt DT) (configured cfg) stores"
    using some none by (fastforce simp: serves_def st Stores_Tenant_def configured_def)
qed

lemma Open_error:
  assumes "Open it its itt DS DT pf cfg = Inl e"
  shows "(\<exists>e'. openShared pf (Storage_Shared cfg) = Inl e' \<and> e = OpenShared e')
    \<or> (\<exists>tid c e'. map_get (Storage_Tenants cfg) tid = Some c \<and> openTenant pf c = Inl e' \<and> e = OpenTenant tid e')"
  using assms by (auto simp: Open_def split: sum.splits dest!: open_tenants_error)

section \<open>Opening again\<close>

text \<open>The storage that a configuration entry names holds the state of a store.\<close>

fun holds_shared :: "('h, 'sd, 'td) platform \<Rightarrow> DB \<Rightarrow> (jsonShared, 'sd) backend \<Rightarrow> bool" where
  "holds_shared pf c (FileStore j) \<longleftrightarrow> ToLower (Driver c) = ''json'' \<and> pf_file pf (DSN c) = js_disk j \<and> pf_faults pf (DSN c) = []"
| "holds_shared pf c (SqlStore d) \<longleftrightarrow> ToLower (Driver c) \<in> {''sqlite'', ''postgres'', ''mysql''}
     \<and> (\<exists>h. openGorm (pf_gorm pf) c = Inr h \<and> AutoMigrate_shared (pf_gorm pf) h = Inr d)"

fun holds_tenant :: "('h, 'sd, 'td) platform \<Rightarrow> DB \<Rightarrow> (jsonTenant, 'td) backend \<Rightarrow> bool" where
  "holds_tenant pf c (FileStore j) \<longleftrightarrow> ToLower (Driver c) = ''json'' \<and> pf_file pf (DSN c) = js_disk j \<and> pf_faults pf (DSN c) = []"
| "holds_tenant pf c (SqlStore d) \<longleftrightarrow> ToLower (Driver c) \<in> {''sqlite'', ''postgres'', ''mysql''}
     \<and> (\<exists>h. openGorm (pf_gorm pf) c = Inr h \<and> AutoMigrate_tenant (pf_gorm pf) h = Inr d)"

text \<open>The stores on files hold UTF-8 only.\<close>

abbreviation utf8_file :: "(jsonShared, 'sd) backend \<Rightarrow> bool" where
  "utf8_file \<equiv> on_backend (\<lambda>j. utf8_shared (js_data j)) (\<lambda>_. True)"

abbreviation utf8_tenant_file :: "(jsonTenant, 'td) backend \<Rightarrow> bool" where
  "utf8_tenant_file \<equiv> on_backend (\<lambda>j. utf8_tenant (js_data j)) (\<lambda>_. True)"

definition utf8_world :: "string set \<Rightarrow> ('sd, 'td) any_world \<Rightarrow> bool" where
  "utf8_world tids w \<longleftrightarrow> utf8_file (fst w) \<and> (\<forall>tid \<in> tids. utf8_tenant_file (snd w tid))"

lemma openShared_again:
  assumes "holds_shared pf c s" and "on_backend inv_shared ok s" and "utf8_file s"
  shows "\<exists>s'. openShared pf c = Inr s' \<and> on_backend inv_shared ok s' \<and> on_backend abs_shared a s' = on_backend abs_shared a s"
proof (cases s)
  case (FileStore j)
  then obtain d where "load_shared (js_disk j) = Inr d" "wf_shared d" "view_shared d = view_shared (js_data j)"
    using assms(2,3) by (auto simp: inv_shared_def durable_shared_def)
  then show ?thesis using FileStore assms(1)
    by (auto simp: openShared_def openJSONShared_def inv_shared_def durable_shared_def abs_shared_def saves_succeed_def)
next
  case (SqlStore d)
  then show ?thesis using assms by (auto simp: openShared_def)
qed

lemma openTenant_again:
  assumes "holds_tenant pf c s" and "on_backend inv_tenant ok s" and "utf8_tenant_file s"
  shows "\<exists>s'. openTenant pf c = Inr s' \<and> on_backend inv_tenant ok s' \<and> on_backend abs_tenant a s' = on_backend abs_tenant a s"
proof (cases s)
  case (FileStore j)
  then obtain d where "load_tenant (js_disk j) = Inr d" "wf_tenant d" "view_tenant d = view_tenant (js_data j)"
    using assms(2,3) by (auto simp: inv_tenant_def durable_tenant_def)
  then show ?thesis using FileStore assms(1)
    by (auto simp: openTenant_def openJSONTenant_def inv_tenant_def durable_tenant_def abs_tenant_def saves_succeed_def)
next
  case (SqlStore d)
  then show ?thesis using assms by (auto simp: openTenant_def)
qed

definition holds :: "('h, 'sd, 'td) platform \<Rightarrow> Storage \<Rightarrow> ('sd, 'td) any_world \<Rightarrow> bool" where
  "holds pf cfg w \<longleftrightarrow> holds_shared pf (Storage_Shared cfg) (fst w)
     \<and> (\<forall>tid c. map_get (Storage_Tenants cfg) tid = Some c \<longrightarrow> holds_tenant pf c (snd w tid))"

lemma Open_again:
  assumes h: "holds pf cfg w" and inv: "all_inv (on_backend inv_shared okS) (on_backend inv_tenant okT) w"
    and utf8: "utf8_world (configured cfg) w"
  obtains stores w' where "Open it its itt DS DT pf cfg = Inr (stores, w')"
    and "all_inv (on_backend inv_shared okS) (on_backend inv_tenant okT) w'"
    and "on_backend abs_shared aS (fst w') = on_backend abs_shared aS (fst w)"
    and "\<And>tid. tid \<in> configured cfg \<Longrightarrow> on_backend abs_tenant aT (snd w' tid) = on_backend abs_tenant aT (snd w tid)"
    and "\<And>tid. tid \<notin> configured cfg \<Longrightarrow> snd w' tid = no_store"
proof -
  have tenant: "\<exists>t. openTenant pf c = Inr t \<and> on_backend inv_tenant okT t \<and> on_backend abs_tenant aT t = on_backend abs_tenant aT (snd w tid)"
    if "map_get (Storage_Tenants cfg) tid = Some c" for tid c
    using openTenant_again[of pf c "snd w tid" okT aT] h all_invD(2)[OF inv, of tid] utf8 that
    by (simp add: holds_def utf8_world_def configured_def)
  obtain s' where s': "openShared pf (Storage_Shared cfg) = Inr s'" "on_backend inv_shared okS s'"
    "on_backend abs_shared aS s' = on_backend abs_shared aS (fst w)"
    using openShared_again[of pf "Storage_Shared cfg" "fst w" okS aS] h all_invD(1)[OF inv] utf8 by (auto simp: holds_def utf8_world_def)
  have "\<exists>f. open_tenants pf (range_map it (Storage_Tenants cfg)) fmempty = Inr f"
    by (rule open_tenants_succeeds) (use tenant in fastforce)
  then obtain stores w' where open': "Open it its itt DS DT pf cfg = Inr (stores, w')" using s'(1) by (auto simp: Open_def)
  note run = Open_run[OF open']
  have known: "on_backend inv_tenant okT (snd w' tid) \<and> on_backend abs_tenant aT (snd w' tid) = on_backend abs_tenant aT (snd w tid)"
    if "tid \<in> configured cfg" for tid
    using that tenant run(2) by (fastforce simp: configured_def)
  have "on_backend inv_tenant okT (snd w' tid)" for tid
    using known[of tid] run(3)[of tid] by (cases "tid \<in> configured cfg") (simp_all add: no_store_def fresh_tenant_ok)
  then have "all_inv (on_backend inv_shared okS) (on_backend inv_tenant okT) w'" using s' run(1) by (cases w') simp
  then show ?thesis using that open' s' run(1,3) known by simp
qed

section \<open>The services on opened stores\<close>

abbreviation drivers_good where
  "drivers_good okS viewS okT viewT \<equiv> good_world (on_backend inv_shared okS)
     (on_backend inv_tenant (\<lambda>d. okT d \<and> no_orphans (viewT d)))
     (on_backend abs_shared (\<lambda>d. abs_shared_rows (viewS d))) (on_backend abs_tenant (\<lambda>d. abs_tenant_rows (viewT d)))"

abbreviation drivers_abs where
  "drivers_abs viewS viewT \<equiv> all_abs (on_backend abs_shared (\<lambda>d. abs_shared_rows (viewS d)))
     (on_backend abs_tenant (\<lambda>d. abs_tenant_rows (viewT d)))"

locale drivers = sharedDB: shared_database okS viewS DS + tenantDB: tenant_database okT viewT DT
  for okS :: "'sd \<Rightarrow> bool" and viewS and DS :: "'sd sharedDB"
    and okT :: "'td \<Rightarrow> bool" and viewT and DT :: "'td tenantDB" +
  fixes its itt :: map_order
begin

abbreviation inv_any_shared where "inv_any_shared \<equiv> on_backend inv_shared okS"

abbreviation abs_any_shared where "abs_any_shared \<equiv> on_backend abs_shared sharedDB.absD"

abbreviation inv_any_tenant where "inv_any_tenant \<equiv> on_backend inv_tenant tenantDB.okD"

abbreviation abs_any_tenant where "abs_any_tenant \<equiv> on_backend abs_tenant tenantDB.absD"

sublocale any: administration "any_shared its DS" inv_any_shared abs_any_shared
    "any_tenant itt DT" inv_any_tenant abs_any_tenant
  unfolding administration_def authorization_def
  by (intro conjI dispatch_shared_store dispatch_tenant_store sharedDB.store.shared_store_axioms
      tenantDB.store.tenant_store_axioms js.shared_store_axioms jt.tenant_store_axioms)

lemmas reachable_any_good = any.reachable_good

lemma serve_reference:
  assumes "serves (any_shared its DS) (any_tenant itt DT) tids (sv_stores srv)" and "any.good w"
  shows "serve (reference_server srv) rt rq (any.absW w)
    = (nil_as_empty rt (fst (serve srv rt rq w)), any.absW (snd (serve srv rt rq w)))"
  using answers_alikeD[OF any.serve_alike[OF assms(1)] assms(2), of rt rq] by (simp add: prod_eq_iff)

end

interpretation memory: drivers shared_tables_ok shared_tables_view memory_shared
    tenant_tables_ok tenant_tables_view memory_tenant its itt for its itt
  by (intro drivers.intro mem_shared.shared_database_axioms mem_tenant.tenant_database_axioms)

end
