(* ===== verification/Startup.thy ===== *)
theory Startup
  imports Drivers
begin

text \<open>
  \<^verbatim>\<open>cmd/sforza/main.go\<close>: what \<open>run\<close> does before it listens. The configuration is loaded, the stores
  are opened, Sforza's own model is written, the bootstrap files are loaded and synchronized, and
  the authenticator is chosen; then \<open>run\<close> waits for the end, which \<open>main\<close> reports as the exit code. Serving
  itself is the HTTP server's.
\<close>

section \<open>The process\<close>

text \<open>What \<open>run\<close> reaches outside the program: files, environment, YAML, the ORM, the OIDC provider.\<close>

record ('h, 'sd, 'td, 'raw) process =
  os_readFile :: "string \<Rightarrow> err + string"
  os_getenv :: "string \<Rightarrow> string"
  yaml_config :: "string \<Rightarrow> err + Config"
  ps_platform :: "('h, 'sd, 'td) platform"
  fp_glob :: "string \<Rightarrow> err + string list"
  os_readBootstrap :: "string \<Rightarrow> err + 'raw"
  yaml_bootstrap :: "'raw \<Rightarrow> err + BootstrapFile"
  oidc_provider :: "string \<Rightarrow> err + (oidc_config \<Rightarrow> string \<Rightarrow> err + string)"
  ps_order :: map_order
  ps_orders :: orders

datatype start_error =
    ConfigError "err config_error"
  | StorageError open_error
  | ServiceError err
  | ProviderError err

definition defaultConfigPath :: "(string \<Rightarrow> string) \<Rightarrow> string" where
  "defaultConfigPath getenv =
     (let p = getenv ''SFORZA_CONFIG'' in if p \<noteq> '''' then p else ''sforza.yaml'')"

definition choose_authenticator :: "('h, 'sd, 'td, 'raw) process \<Rightarrow> Auth_config \<Rightarrow> err + body Authenticate" where
  "choose_authenticator ps auth =
     (if IsEnabled auth then NewOIDC (oidc_provider ps) (Issuer auth) (Audience auth)
      else Inr (Static_Authenticate (DefaultSub auth)))"

type_synonym ('sd, 'td, 'raw) any_server = "((jsonShared, 'sd) backend, (jsonTenant, 'td) backend, 'raw) Server"

definition New :: "('h, 'sd, 'td, 'raw) process \<Rightarrow> Config \<Rightarrow> ('sd, 'td) any_stores \<Rightarrow> body Authenticate
    \<Rightarrow> ('sd, 'td, 'raw) any_server" where
  "New ps cfg stores authn = \<lparr>sv_files = Files (Config_Bootstrap cfg), sv_stores = stores, sv_authn = authn,
     sv_glob = fp_glob ps, sv_readFile = os_readBootstrap ps, sv_unmarshal = yaml_bootstrap ps,
     sv_order = ps_order ps, sv_orders = ps_orders ps\<rparr>"

text \<open>
  The second component is the state the process leaves the stores in, also when it ends with an
  error; it is \<open>None\<close> when it ends before the stores are open.
\<close>

definition run :: "map_order \<Rightarrow> map_order \<Rightarrow> 'sd sharedDB \<Rightarrow> 'td tenantDB \<Rightarrow> ('h, 'sd, 'td, 'raw) process \<Rightarrow> string
    \<Rightarrow> (start_error + ('sd, 'td, 'raw) any_server) \<times> ('sd, 'td) any_world option" where
  "run its itt DS DT ps configPath =
     (case Load (ps_order ps) (os_readFile ps) (os_getenv ps) (yaml_config ps) configPath of
        Inl e \<Rightarrow> (Inl (ConfigError e), None)
      | Inr cfg \<Rightarrow>
     (case Open (ps_order ps) its itt DS DT (ps_platform ps) (Config_Storage cfg) of
        Inl e \<Rightarrow> (Inl (StorageError e), None)
      | Inr (stores, w0) \<Rightarrow>
     (case BootstrapMeta (ps_orders ps) stores (AdminSub (Config_Bootstrap cfg)) w0 of
        (Inl e, w1) \<Rightarrow> (Inl (ServiceError e), Some w1)
      | (Inr _, w1) \<Rightarrow>
     (case LoadBootstrapFiles (fp_glob ps) (os_readBootstrap ps) (yaml_bootstrap ps) (Files (Config_Bootstrap cfg)) of
        Inl e \<Rightarrow> (Inl (ServiceError e), Some w1)
      | Inr files \<Rightarrow>
     (case Sync (ps_orders ps) stores files w1 of
        (Inl e, w2) \<Rightarrow> (Inl (ServiceError e), Some w2)
      | (Inr _, w2) \<Rightarrow>
     (case choose_authenticator ps (Config_Auth cfg) of
        Inl e \<Rightarrow> (Inl (ProviderError e), Some w2)
      | Inr authn \<Rightarrow> (Inr (New ps cfg stores authn), Some w2)))))))"

lemma choose_authenticator_ok: "choose_authenticator ps auth = Inr a \<Longrightarrow> authenticator a"
  by (auto simp: choose_authenticator_def NewOIDC_def split: if_splits sum.splits
      intro: oidc.authenticator_axioms static.authenticator_axioms)

lemma run_from_open:
  assumes "Load (ps_order ps) (os_readFile ps) (os_getenv ps) (yaml_config ps) path = Inr cfg"
    and "Open (ps_order ps) its itt DS DT (ps_platform ps) (Config_Storage cfg) = Inr (stores, w0)"
  shows "run its itt DS DT ps path =
    (case BootstrapMeta (ps_orders ps) stores (AdminSub (Config_Bootstrap cfg)) w0 of
        (Inl e, w1) \<Rightarrow> (Inl (ServiceError e), Some w1)
      | (Inr _, w1) \<Rightarrow>
     (case LoadBootstrapFiles (fp_glob ps) (os_readBootstrap ps) (yaml_bootstrap ps) (Files (Config_Bootstrap cfg)) of
        Inl e \<Rightarrow> (Inl (ServiceError e), Some w1)
      | Inr files \<Rightarrow>
     (case Sync (ps_orders ps) stores files w1 of
        (Inl e, w2) \<Rightarrow> (Inl (ServiceError e), Some w2)
      | (Inr _, w2) \<Rightarrow>
     (case choose_authenticator ps (Config_Auth cfg) of
        Inl e \<Rightarrow> (Inl (ProviderError e), Some w2)
      | Inr authn \<Rightarrow> (Inr (New ps cfg stores authn), Some w2)))))"
  using assms by (simp add: run_def)

lemma Load_ok: "Load it rd env un path = Inr cfg \<Longrightarrow> config_ok cfg"
  by (auto simp: Load_def Parse_accepts_iff split: sum.splits)

lemma run_opened:
  assumes "run its itt DS DT ps path = (res, Some w)"
  obtains cfg stores w0 where
    "Load (ps_order ps) (os_readFile ps) (os_getenv ps) (yaml_config ps) path = Inr cfg"
    "Open (ps_order ps) its itt DS DT (ps_platform ps) (Config_Storage cfg) = Inr (stores, w0)"
  using assms by (auto simp: run_def split: sum.splits)

lemma consistent_no_tenant: "consistent (s, t) \<Longrightarrow> consistent (s, no_tenant)"
  by (simp add: consistent_def tenant_ok_def finite_tenant_def valid_scopes_def provisioned_def no_tenant_def)

context drivers
begin

lemma opened_shared_ok: "any.good w \<Longrightarrow> any.invW w \<and> shared_ok (abs_any_shared (fst w)) \<and> world_consistent (any.absW w)"
  by (simp add: good_world_def world_consistent_def consistent_def)

text \<open>The state of the stores is good whenever the process has them open, also when it ends with an error.\<close>

lemma bootstrap_good:
  assumes "serves (any_shared its DS) (any_tenant itt DT) tids stores" and "any.good w"
  shows "any.good (snd (BootstrapMeta ord stores sub w))" "any.good (snd (Sync ord stores files w))"
  using any.BootstrapMeta_run(3)[OF assms(1)] any.Sync_run(3)[OF assms(1)]
    any.BootstrapMeta_consistent[OF assms(1)] any.Sync_consistent[OF assms(1)] opened_shared_ok[OF assms(2)]
  by (simp_all add: good_world_def)

lemma run_good:
  assumes run: "run its itt DS DT ps path = (res, Some w)"
    and opened: "\<And>cfg stores w0. Load (ps_order ps) (os_readFile ps) (os_getenv ps) (yaml_config ps) path = Inr cfg \<Longrightarrow>
      Open (ps_order ps) its itt DS DT (ps_platform ps) (Config_Storage cfg) = Inr (stores, w0) \<Longrightarrow> any.good w0"
  shows "any.good w"
proof -
  obtain cfg stores w0 where cfg: "Load (ps_order ps) (os_readFile ps) (os_getenv ps) (yaml_config ps) path = Inr cfg"
    "Open (ps_order ps) its itt DS DT (ps_platform ps) (Config_Storage cfg) = Inr (stores, w0)"
    by (rule run_opened[OF run])
  note serves = Open_run(4)[OF cfg(2)]
  note steps = bootstrap_good[OF serves]
  obtain r1 w1 where meta: "BootstrapMeta (ps_orders ps) stores (AdminSub (Config_Bootstrap cfg)) w0 = (r1, w1)"
    by (rule prod.exhaust)
  have w1: "any.good w1"
    using steps(1)[OF opened[OF cfg], of "ps_orders ps" "AdminSub (Config_Bootstrap cfg)"] by (simp add: meta)
  have sync: "any.good w2" if "Sync (ps_orders ps) stores files w1 = (r2, w2)" for files r2 w2
    using steps(2)[OF w1, of "ps_orders ps" files] by (simp add: that)
  show ?thesis
    using run w1 unfolding run_from_open[OF cfg] meta by (auto split: prod.splits sum.splits dest: sync)
qed

text \<open>When the stores are open, the start succeeds exactly if the bootstrap files do and the provider answers.\<close>

lemma run_result:
  assumes cfg: "Load (ps_order ps) (os_readFile ps) (os_getenv ps) (yaml_config ps) path = Inr cfg"
    and stores: "Open (ps_order ps) its itt DS DT (ps_platform ps) (Config_Storage cfg) = Inr (stores, w0)"
    and good: "any.good w0"
    and files: "LoadBootstrapFiles (fp_glob ps) (os_readBootstrap ps) (yaml_bootstrap ps) (Files (Config_Bootstrap cfg)) = Inr files"
    and authn: "choose_authenticator ps (Config_Auth cfg) = Inr authn"
  defines "start \<equiv> merge_world (any.absW w0) (meta_world (configured (Config_Storage cfg)) (AdminSub (Config_Bootstrap cfg)))"
  shows "if acceptable_all (configured (Config_Storage cfg)) (\<lambda>tid. aRoles (snd start tid)) files
    then \<exists>w. run its itt DS DT ps path = (Inr (New ps cfg stores authn), Some w) \<and> any.good w \<and> any.absW w = overlay_files files start
    else \<exists>e w. run its itt DS DT ps path = (Inl (ServiceError e), Some w) \<and> any.good w"
proof -
  let ?sub = "AdminSub (Config_Bootstrap cfg)"
  note serves = Open_run(4)[OF stores]
  have sub: "?sub \<noteq> ''''" using Load_ok[OF cfg] by (simp add: config_ok_def)
  note w0 = opened_shared_ok[OF good]
  note meta = any.BootstrapMeta_run[OF serves conjunct1[OF w0] conjunct1[OF conjunct2[OF w0]], where ord = "ps_orders ps" and sub = ?sub]
  obtain w1 where w1: "BootstrapMeta (ps_orders ps) stores ?sub w0 = (Inr (), w1)"
    using meta(1) sub by (cases "BootstrapMeta (ps_orders ps) stores ?sub w0") auto
  have abs1: "any.absW w1 = start" using meta(2)[OF sub] by (simp add: w1 start_def)
  have good1: "any.good w1" using bootstrap_good(1)[OF serves good, of "ps_orders ps" ?sub] by (simp add: w1)
  note w1_ok = opened_shared_ok[OF good1]
  note sync = any.Sync_run[OF serves conjunct1[OF w1_ok] conjunct1[OF conjunct2[OF w1_ok]], where ord = "ps_orders ps" and fs = files]
  have roles: "(\<lambda>tid. aRoles (abs_any_tenant (snd w1 tid))) = (\<lambda>tid. aRoles (snd start tid))"
    unfolding abs1[symmetric] by simp
  note good2 = bootstrap_good(2)[OF serves good1, of "ps_orders ps" files]
  show ?thesis
    unfolding run_from_open[OF cfg stores] w1 files authn
    using sync(1,2) good2 abs1 unfolding roles
    by (cases "Sync (ps_orders ps) stores files w1") (auto split: sum.splits)
qed

text \<open>
  A restart loses nothing: opened on storage that holds a good state, with UTF-8 only in its files,
  the stores stand for that state again, with nothing for a tenant that is no longer configured.
\<close>

lemma restart:
  assumes good: "any.good w" and stored: "holds pf cfg w" and utf8: "utf8_world (configured cfg) w"
  obtains stores w' where "Open it its itt DS DT pf cfg = Inr (stores, w')" and "any.good w'"
    and "any.absW w' = (abs_any_shared (fst w), \<lambda>tid. if tid \<in> configured cfg then abs_any_tenant (snd w tid) else no_tenant)"
proof -
  note w = opened_shared_ok[OF good]
  obtain stores w' where w': "Open it its itt DS DT pf cfg = Inr (stores, w')" "any.invW w'"
    "abs_any_shared (fst w') = abs_any_shared (fst w)"
    "\<And>tid. tid \<in> configured cfg \<Longrightarrow> abs_any_tenant (snd w' tid) = abs_any_tenant (snd w tid)"
    "\<And>tid. tid \<notin> configured cfg \<Longrightarrow> snd w' tid = no_store"
    by (rule Open_again[OF stored conjunct1[OF w] utf8, where it = it and its = its and itt = itt and DS = DS and DT = DT
        and aS = sharedDB.absD and aT = tenantDB.absD]) blast
  have abs: "any.absW w' = (abs_any_shared (fst w), \<lambda>tid. if tid \<in> configured cfg then abs_any_tenant (snd w tid) else no_tenant)"
    using w'(3-5) by (simp add: prod_eq_iff fun_eq_iff no_store_def fresh_tenant_ok)
  have known: "consistent (abs_any_shared (fst w), abs_any_tenant (snd w tid))" for tid
    using w by (simp add: world_consistent_def)
  have "world_consistent (any.absW w')"
    unfolding abs using known consistent_no_tenant[OF known] by (simp add: world_consistent_def)
  then have "any.good w'" using w'(2) by (simp add: good_world_def)
  then show ?thesis using that w'(1) abs by blast
qed

end

section \<open>The end of the process\<close>

text \<open>
  The rest of \<open>run\<close> waits for what comes first, the return of the listener or a signal, and after a
  signal for the shutdown of the server; \<open>main\<close> turns an error into exit code 1. The error of a call
  is \<open>None\<close> for Go's nil; the value of the flag \<^verbatim>\<open>-config\<close> is \<open>None\<close> when it is not given.
\<close>

datatype serve_error = ErrServerClosed | ServeFailed string

datatype wake = ListenReturned "serve_error option" | Signalled

definition await_end :: "wake \<Rightarrow> serve_error option \<Rightarrow> serve_error option" where
  "await_end first shutdown =
     (case first of
        ListenReturned err \<Rightarrow> err
      | Signalled \<Rightarrow> (if shutdown \<noteq> None \<and> shutdown \<noteq> Some ErrServerClosed then shutdown else None))"

definition main :: "map_order \<Rightarrow> map_order \<Rightarrow> 'sd sharedDB \<Rightarrow> 'td tenantDB \<Rightarrow> ('h, 'sd, 'td, 'raw) process
    \<Rightarrow> string option \<Rightarrow> wake \<Rightarrow> serve_error option \<Rightarrow> nat" where
  "main its itt DS DT ps flag first shutdown =
     (let configPath = (case flag of Some p \<Rightarrow> p | None \<Rightarrow> defaultConfigPath (os_getenv ps)) in
      case fst (run its itt DS DT ps configPath) of
        Inl _ \<Rightarrow> 1
      | Inr _ \<Rightarrow> (case await_end first shutdown of Some _ \<Rightarrow> 1 | None \<Rightarrow> 0))"

lemma main_exits_cleanly:
  "main its itt DS DT ps (Some path) first shutdown = 0 \<longleftrightarrow>
     (\<exists>srv. fst (run its itt DS DT ps path) = Inr srv)
     \<and> (first = ListenReturned None \<or> first = Signalled \<and> (\<forall>text. shutdown \<noteq> Some (ServeFailed text)))"
proof -
  have "await_end first shutdown = None \<longleftrightarrow>
      first = ListenReturned None \<or> first = Signalled \<and> (\<forall>text. shutdown \<noteq> Some (ServeFailed text))"
    by (cases shutdown; cases "the shutdown"; cases first) (auto simp: await_end_def)
  then show ?thesis by (auto simp: main_def split: sum.splits option.splits)
qed

section \<open>An example process\<close>

text \<open>A shared store and a tenant on files, a tenant on SQLite, everything fresh; no authentication.\<close>

definition demo_config :: Config where
  "demo_config = \<lparr>Server_Address = '''',
     Config_Auth = \<lparr>Enabled = Some False, Issuer = '''', Audience = '''', DefaultSub = ''''\<rparr>,
     Config_Bootstrap = \<lparr>AdminSub = ''root'', Files = []\<rparr>,
     Config_Storage = \<lparr>Storage_Shared = \<lparr>Driver = ''json'', DSN = ''shared.json''\<rparr>,
       Storage_Tenants = Some (fmap_of_list [(''t1'', \<lparr>Driver = ''json'', DSN = ''t1.json''\<rparr>),
         (''t2'', \<lparr>Driver = ''SQLite'', DSN = ''t2.db''\<rparr>)])\<rparr>\<rparr>"

definition no_rows :: tenant_tables where
  "no_rows = \<lparr>tt_roles = [], tt_user_roles = [], tt_role_permissions = [], tt_user_permissions = [],
     tt_role_restricted_ids = [], tt_user_restricted_ids = []\<rparr>"

definition demo_platform :: "(unit, shared_tables, tenant_tables) platform" where
  "demo_platform = \<lparr>pf_dir = (\<lambda>_. ''.''), pf_file = (\<lambda>_. NoFile), pf_faults = (\<lambda>_. []),
     pf_gorm = \<lparr>Gorm_Open = (\<lambda>_ _. Inr ()), Gorm_DB = (\<lambda>_. Inr ()), SetMaxOpenConns = (\<lambda>_ h. h),
       AutoMigrate_shared = (\<lambda>_. Inr \<lparr>st_resources = [], st_operations = [], st_users = []\<rparr>),
       AutoMigrate_tenant = (\<lambda>_. Inr no_rows)\<rparr>\<rparr>"

definition demo_process :: "(unit, shared_tables, tenant_tables, unit) process" where
  "demo_process = \<lparr>os_readFile = (\<lambda>_. Inr ''storage: ...''), os_getenv = (\<lambda>_. ''''),
     yaml_config = (\<lambda>_. Inr demo_config), ps_platform = demo_platform,
     fp_glob = (\<lambda>_. Inr []), os_readBootstrap = (\<lambda>_. Inr ()), yaml_bootstrap = (\<lambda>_. Inl (ErrIO ParseFile)),
     oidc_provider = (\<lambda>_. Inl ErrDB), ps_order = ascending, ps_orders = (\<lambda>_. ascending)\<rparr>"

lemma demo_storage: "map_get (Storage_Tenants (Config_Storage demo_config)) tid
    = (if tid = ''t1'' then Some \<lparr>Driver = ''json'', DSN = ''t1.json''\<rparr>
       else if tid = ''t2'' then Some \<lparr>Driver = ''SQLite'', DSN = ''t2.db''\<rparr> else None)"
  by (simp add: demo_config_def fmlookup_of_list)

lemma demo_drivers [simp]: "ToLower ''SQLite'' = ''sqlite''" "ToLower ''json'' = ''json''"
  by code_simp+

lemma demo_loaded:
  "Load (ps_order demo_process) (os_readFile demo_process) (os_getenv demo_process) (yaml_config demo_process) path
    = Inr (applyDefaults demo_config)"
proof -
  have tenants: "\<exists>tid db. map_get (Storage_Tenants (Config_Storage demo_config)) tid = Some db"
    by (intro exI[of _ "''t1''"]) (simp add: demo_storage)
  have "db_ok (Storage_Shared (Config_Storage demo_config))" "\<not> IsEnabled (Config_Auth demo_config)"
    "AdminSub (Config_Bootstrap demo_config) \<noteq> ''''"
    by (simp_all add: db_ok_def driver_ok_iff demo_config_def IsEnabled_def)
  moreover have "db_ok db" if "map_get (Storage_Tenants (Config_Storage demo_config)) tid = Some db" for tid db
    using that by (auto simp: demo_storage db_ok_def driver_ok_iff split: if_splits)
  ultimately have "config_ok (applyDefaults demo_config)"
    using tenants by (simp add: config_ok_def applyDefaults_keeps)
  then show ?thesis by (simp add: demo_process_def Load_def Parse_accepts_iff)
qed

lemma demo_open_parts:
  "openShared demo_platform (Storage_Shared (Config_Storage demo_config)) = Inr (FileStore fresh_shared)"
  "openTenant demo_platform \<lparr>Driver = ''json'', DSN = ''t1.json''\<rparr> = Inr (FileStore fresh_tenant)"
  "openTenant demo_platform \<lparr>Driver = ''SQLite'', DSN = ''t2.db''\<rparr> = Inr (SqlStore no_rows)"
  by (simp_all add: openShared_def openTenant_def openGorm_def demo_platform_def demo_config_def openJSONShared_def
      load_shared_def openJSONTenant_def load_tenant_def loadJSON_def fresh_shared_def fresh_tenant_def Let_def)

definition no_shared_rows :: shared_tables where
  "no_shared_rows = \<lparr>st_resources = [], st_operations = [], st_users = []\<rparr>"

lemma no_rows_ok:
  "shared_tables_ok no_shared_rows" "abs_shared_rows (shared_tables_view no_shared_rows) = no_shared"
  "tenant_tables_ok no_rows" "no_orphans (tenant_tables_view no_rows)" "abs_tenant_rows (tenant_tables_view no_rows) = no_tenant"
  by (simp_all add: no_shared_rows_def shared_tables_ok_def shared_tables_view_def abs_shared_rows_def no_shared_def
      no_rows_def tenant_tables_ok_def table_ok_def tenant_tables_view_def no_orphans_def no_tenant_def
      abs_tenant_rows_def assigned_def role_id_def perms_of_id_def ids_of_id_def user_perm_def user_id_set_def
      lookup_row_def fun_eq_iff)

text \<open>Fresh stores of any drivers hold nothing and are in order.\<close>

definition fresh_world :: "(shared_tables, tenant_tables) any_world \<Rightarrow> bool" where
  "fresh_world w \<longleftrightarrow> (fst w = FileStore fresh_shared \<or> fst w = SqlStore no_shared_rows)
     \<and> (\<forall>tid. snd w tid = FileStore fresh_tenant \<or> snd w tid = SqlStore no_rows)"

lemma fresh_world_good:
  assumes "fresh_world w"
  shows "memory.any.good w" "memory.any.absW w = (no_shared, \<lambda>_. no_tenant)"
proof -
  have s: "on_backend inv_shared shared_tables_ok (fst w)
      \<and> on_backend abs_shared (\<lambda>d. abs_shared_rows (shared_tables_view d)) (fst w) = no_shared"
    using assms by (auto simp: fresh_world_def fresh_shared_ok no_rows_ok)
  have t: "on_backend inv_tenant (\<lambda>d. tenant_tables_ok d \<and> no_orphans (tenant_tables_view d)) (snd w tid)
      \<and> on_backend abs_tenant (\<lambda>d. abs_tenant_rows (tenant_tables_view d)) (snd w tid) = no_tenant" for tid
    using assms by (auto simp: fresh_world_def fresh_tenant_ok no_rows_ok dest!: spec[of _ tid])
  show abs: "memory.any.absW w = (no_shared, \<lambda>_. no_tenant)" using s t by (cases w) simp
  show "memory.any.good w" using s t consistent_nothing unfolding good_world_def abs by (cases w) simp
qed

lemma demo_opened:
  obtains stores w where
    "Open (ps_order demo_process) its itt memory_shared memory_tenant (ps_platform demo_process) (Config_Storage demo_config) = Inr (stores, w)"
    and "memory.any.good w"
proof -
  have "\<exists>f. open_tenants demo_platform (range_map ascending (Storage_Tenants (Config_Storage demo_config))) fmempty = Inr f"
    by (rule open_tenants_succeeds) (auto simp: demo_storage demo_open_parts split: if_splits)
  then obtain stores w where w:
    "Open (ps_order demo_process) its itt memory_shared memory_tenant (ps_platform demo_process) (Config_Storage demo_config) = Inr (stores, w)"
    using demo_open_parts(1) by (auto simp: Open_def demo_process_def)
  note run = Open_run[OF w]
  have s: "fst w = FileStore fresh_shared" using run(1) demo_open_parts(1) by (simp add: demo_process_def)
  have t: "snd w tid = (if tid = ''t2'' then SqlStore no_rows else FileStore fresh_tenant)" for tid
    using run(2)[of tid] run(3)[of tid] demo_open_parts(2,3)
    by (cases "tid = ''t1''"; cases "tid = ''t2''") (simp_all add: demo_storage demo_process_def no_store_def configured_def)
  have "fresh_world w" by (simp add: fresh_world_def s t)
  then show ?thesis using that w fresh_world_good(1) by blast
qed

text \<open>The same two tenants on files only and on a database only, after the start.\<close>

definition demo_any_stores :: "(shared_tables, tenant_tables) any_stores" where
  "demo_any_stores = \<lparr>Stores_Shared = any_shared ascending memory_shared,
     Stores_tenants = Some (fmap_of_list [(''t1'', any_tenant ascending memory_tenant), (''t2'', any_tenant ascending memory_tenant)])\<rparr>"

definition on_files :: "(shared_tables, tenant_tables) any_world" where
  "on_files = snd (BootstrapMeta (\<lambda>_. ascending) demo_any_stores ''root'' (FileStore fresh_shared, \<lambda>_. FileStore fresh_tenant))"

definition on_database :: "(shared_tables, tenant_tables) any_world" where
  "on_database = snd (BootstrapMeta (\<lambda>_. ascending) demo_any_stores ''root'' (SqlStore no_shared_rows, \<lambda>_. SqlStore no_rows))"

lemma demo_any_serves:
  "serves (any_shared ascending memory_shared) (any_tenant ascending memory_tenant) {''t1'', ''t2''} demo_any_stores"
  by (auto simp: serves_def demo_any_stores_def Stores_Tenant_def fmlookup_of_list)

lemma demo_any_started:
  assumes "fresh_world w"
  defines "w' \<equiv> snd (BootstrapMeta (\<lambda>_. ascending) demo_any_stores ''root'' w)"
  shows "memory.any.good w'" "memory.any.absW w' = meta_world {''t1'', ''t2''} ''root''"
proof -
  note fresh = fresh_world_good[OF assms(1)]
  show "memory.any.good w'" unfolding w'_def by (rule memory.bootstrap_good(1)[OF demo_any_serves fresh(1)])
  note ok = memory.opened_shared_ok[OF fresh(1)]
  have "memory.any.absW w' = merge_world (no_shared, \<lambda>_. no_tenant) (meta_world {''t1'', ''t2''} ''root'')"
    using memory.any.BootstrapMeta_run(2)[OF demo_any_serves conjunct1[OF ok] conjunct1[OF conjunct2[OF ok]],
        where ord = "\<lambda>_. ascending" and sub = "''root''"]
    by (simp add: w'_def fresh(2))
  then show "memory.any.absW w' = meta_world {''t1'', ''t2''} ''root''"
    by (simp add: meta_world_def merge_shared_laws merge_tenant_laws)
qed

lemma on_files_ok: "memory.any.good on_files" "memory.any.absW on_files = meta_world {''t1'', ''t2''} ''root''"
  unfolding on_files_def by (rule demo_any_started; simp add: fresh_world_def)+

lemma on_database_ok:
  "memory.any.good on_database" "memory.any.absW on_database = meta_world {''t1'', ''t2''} ''root''"
  unfolding on_database_def by (rule demo_any_started; simp add: fresh_world_def)+

definition demo_any_server :: "(shared_tables, tenant_tables, unit) any_server" where
  "demo_any_server = \<lparr>sv_files = [], sv_stores = demo_any_stores, sv_authn = Static_Authenticate ''root'',
     sv_glob = (\<lambda>_. Inr []), sv_readFile = (\<lambda>_. Inr ()), sv_unmarshal = (\<lambda>_. Inl (ErrIO ParseFile)),
     sv_order = ascending, sv_orders = (\<lambda>_. ascending)\<rparr>"

lemma demo_any_server_serves:
  "serves (any_shared ascending memory_shared) (any_tenant ascending memory_tenant) {''t1'', ''t2''} (sv_stores demo_any_server)"
  by (simp add: demo_any_server_def demo_any_serves)

end
