(* ===== verification/Policy.thy ===== *)
theory Policy
  imports Admin
begin

text \<open>
  What the administrative operations mean for the permissions of users: the effective scope and
  the accessible record IDs after an operation, in terms of those before it.
\<close>

section \<open>Roles\<close>

text \<open>Everyone's assignment to a role, taken away.\<close>

definition without_role :: "string \<Rightarrow> tenantA \<Rightarrow> tenantA" where
  "without_role role a = a\<lparr>aAssign := (\<lambda>sub. aAssign a sub - {role})\<rparr>"

lemma effective_cong:
  "aUserPerm a sub p = aUserPerm b sub p \<Longrightarrow> role_scopes a sub p = role_scopes b sub p
   \<Longrightarrow> effective a sub p = effective b sub p"
  by (simp add: effective_def split: option.splits)

lemma DeleteRole_spec:
  "DeleteRole spec_tenant role a = (if role \<notin> aRoles a then (Inl ErrNotFound, a)
     else (Inr (), a\<lparr>aRoles := aRoles a - {role}, aAssign := (\<lambda>sub. aAssign a sub - {role}),
       aRolePerm := (aRolePerm a)(role := Map.empty), aRoleIDs := (aRoleIDs a)(role := (\<lambda>_. {}))\<rparr>))"
  by (simp add: admin_defs spec_defs eff_simps)

lemma DeleteRole_effect:
  assumes "role \<in> aRoles a"
  shows "effective (snd (DeleteRole spec_tenant role a)) sub p = effective (without_role role a) sub p"
    "accessible (snd (DeleteRole spec_tenant role a)) sub p = accessible (without_role role a) sub p"
proof -
  let ?a = "snd (DeleteRole spec_tenant role a)"
  have scopes: "role_scopes ?a sub p = role_scopes (without_role role a) sub p"
    using assms by (auto simp: DeleteRole_spec role_scopes_def without_role_def)
  show "effective ?a sub p = effective (without_role role a) sub p"
    by (rule effective_cong[OF _ scopes]) (use assms in \<open>simp add: DeleteRole_spec without_role_def\<close>)
  let ?b = "without_role role a"
  have roles: "restricted_roles ?a sub p = restricted_roles ?b sub p"
    using assms by (auto simp: DeleteRole_spec restricted_roles_def without_role_def)
  have "role \<notin> restricted_roles ?b sub p" by (simp add: restricted_roles_def without_role_def)
  then have "aRoleIDs ?a r p = aRoleIDs ?b r p" if "r \<in> restricted_roles ?b sub p" for r
    using assms that by (auto simp: DeleteRole_spec without_role_def)
  moreover have "aUserPerm ?a sub p = aUserPerm ?b sub p" "aUserIDs ?a sub p = aUserIDs ?b sub p"
    using assms by (simp_all add: DeleteRole_spec without_role_def)
  ultimately show "accessible ?a sub p = accessible ?b sub p" unfolding accessible_def roles by simp
qed

lemma RenameRole_spec:
  "RenameRole spec_tenant role newName a = (if newName = '''' then (Inl ErrValidation, a)
     else if role \<notin> aRoles a then (Inl ErrNotFound, a)
     else if newName \<in> aRoles a then (Inl ErrConflict, a)
     else (Inr (), a\<lparr>aRoles := insert newName (aRoles a - {role}),
       aAssign := (\<lambda>sub. rename_in role newName (aAssign a sub)),
       aRolePerm := (aRolePerm a)(newName := aRolePerm a role, role := Map.empty),
       aRoleIDs := (aRoleIDs a)(newName := aRoleIDs a role, role := (\<lambda>_. {}))\<rparr>))"
  by (simp add: admin_defs spec_defs eff_simps)

text \<open>Renaming a role changes nobody's permissions.\<close>

lemma RenameRole_effect:
  assumes ok: "tenant_ok a" and run: "fst (RenameRole spec_tenant role newName a) = Inr ()"
  shows "effective (snd (RenameRole spec_tenant role newName a)) sub p = effective a sub p"
    "accessible (snd (RenameRole spec_tenant role newName a)) sub p = accessible a sub p"
proof -
  let ?a = "snd (RenameRole spec_tenant role newName a)"
  have names: "role \<in> aRoles a" "newName \<notin> aRoles a" "newName \<noteq> role" "newName \<noteq> ''''"
    using run by (auto simp: RenameRole_spec split: if_splits)
  have fresh: "newName \<notin> aAssign a sub" using tenant_okD(3)[OF ok, of sub] names(2) by blast
  have moved: "x \<in> rename_in role newName (aAssign a sub) \<longleftrightarrow>
      x = newName \<and> role \<in> aAssign a sub \<or> x \<noteq> role \<and> x \<in> aAssign a sub" for x
    using fresh names by (auto simp: rename_in_def)
  have assign: "aAssign ?a sub = rename_in role newName (aAssign a sub)" and
    perms: "aRolePerm ?a x = (if x = role then Map.empty else if x = newName then aRolePerm a role else aRolePerm a x)" and
    ids: "aRoleIDs ?a x = (if x = role then (\<lambda>_. {}) else if x = newName then aRoleIDs a role else aRoleIDs a x)" and
    user: "aUserPerm ?a = aUserPerm a" "aUserIDs ?a = aUserIDs a" for x
    using names by (simp_all add: RenameRole_spec)
  have over: "(\<exists>x \<in> rename_in role newName (aAssign a sub). Q x) \<longleftrightarrow> (\<exists>x \<in> aAssign a sub. Q (if x = role then newName else x))" for Q
    using fresh names unfolding rename_in_def by (cases "role \<in> aAssign a sub") auto
  have scopes: "role_scopes ?a sub p = role_scopes a sub p"
    unfolding role_scopes_def assign over perms using names fresh by (auto split: if_splits)
  show "effective ?a sub p = effective a sub p"
    by (rule effective_cong[OF _ scopes]) (simp add: user)
  have restricted: "x \<in> restricted_roles ?a sub p \<longleftrightarrow>
      x \<in> rename_in role newName (aAssign a sub) \<and> aRolePerm a (if x = newName then role else x) p = Some ScopeRestricted" for x
    using moved[of x] names(3) by (simp add: restricted_roles_def assign perms)
  have "(\<Union>x \<in> restricted_roles ?a sub p. aRoleIDs ?a x p) = (\<Union>x \<in> restricted_roles a sub p. aRoleIDs a x p)"
  proof (rule set_eqI)
    fix i
    have "i \<in> (\<Union>x \<in> restricted_roles ?a sub p. aRoleIDs ?a x p) \<longleftrightarrow> (\<exists>x \<in> rename_in role newName (aAssign a sub).
        aRolePerm a (if x = newName then role else x) p = Some ScopeRestricted \<and> i \<in> aRoleIDs ?a x p)"
      using restricted by blast
    also have "\<dots> \<longleftrightarrow> (\<exists>x \<in> aAssign a sub. aRolePerm a x p = Some ScopeRestricted \<and> i \<in> aRoleIDs a x p)"
      unfolding over by (rule bex_cong[OF refl]) (use names(3) fresh in \<open>auto simp: ids split: if_splits\<close>)
    also have "\<dots> \<longleftrightarrow> i \<in> (\<Union>x \<in> restricted_roles a sub p. aRoleIDs a x p)"
      by (auto simp: restricted_roles_def)
    finally show "i \<in> (\<Union>x \<in> restricted_roles ?a sub p. aRoleIDs ?a x p)
      \<longleftrightarrow> i \<in> (\<Union>x \<in> restricted_roles a sub p. aRoleIDs a x p)" .
  qed
  then show "accessible ?a sub p = accessible a sub p" by (simp add: accessible_def user)
qed

text \<open>A role that is deleted and created again starts with nothing.\<close>

lemma recreated_role:
  assumes "role \<in> aRoles a" and "role \<noteq> ''''"
  defines "b \<equiv> snd (CreateRole spec_tenant role (snd (DeleteRole spec_tenant role a)))"
  shows "role \<in> aRoles b" "aRolePerm b role = Map.empty" "aRoleIDs b role = (\<lambda>_. {})" "role \<notin> aAssign b sub"
  using assms by (simp_all add: b_def DeleteRole_spec CreateRole_def spec_CreateRole_def)

text \<open>A permission that is removed and set again comes without the record IDs it had.\<close>

lemma reset_role_permission:
  assumes "role \<in> aRoles a" and "aRolePerm a role p \<noteq> None" and "aOps s p \<noteq> None" and "Valid sc"
  defines "b \<equiv> snd (RemoveRolePermission spec_tenant role p a)"
  shows "fst (SetRolePermission spec_shared spec_tenant role p sc (s, b)) = Inr ()"
    "aRoleIDs (snd (snd (SetRolePermission spec_shared spec_tenant role p sc (s, b)))) role p = {}"
  using assms by (auto simp: b_def SetRolePermission_spec RemoveRolePermission_def spec_RemoveRolePermission_def
      requireRole_def)

section \<open>User permissions\<close>

text \<open>A user permission decides alone, for this user and this operation only.\<close>

lemma SetUserPermission_effect:
  assumes "fst (SetUserPermission spec_shared spec_tenant sub p sc (s, a)) = Inr ()"
  shows "effective (snd (snd (SetUserPermission spec_shared spec_tenant sub p sc (s, a)))) sub' p'
    = (if sub' = sub \<and> p' = p then Some sc else effective a sub' p')"
proof (cases "sub' = sub \<and> p' = p")
  case True
  then show ?thesis using assms by (auto simp: SetUserPermission_spec effective_def split: if_splits)
next
  case False
  have "effective (snd (snd (SetUserPermission spec_shared spec_tenant sub p sc (s, a)))) sub' p' = effective a sub' p'"
    by (rule effective_cong) (use assms False in
      \<open>auto simp: SetUserPermission_spec role_scopes_def split: if_splits\<close>)
  with False show ?thesis by auto
qed

text \<open>Taking it away again leaves what the roles grant.\<close>

lemma RemoveUserPermission_effect:
  assumes "fst (RemoveUserPermission spec_tenant sub p a) = Inr ()"
  shows "effective (snd (RemoveUserPermission spec_tenant sub p a)) sub p = widest (role_scopes a sub p)"
  using assms
  by (auto simp: RemoveUserPermission_def spec_RemoveUserPermission_def effective_def role_scopes_def split: if_splits)

end
