(* ===== verification/Steady.thy ===== *)
theory Steady
  imports ApiCorrect
begin

text \<open>
  What a store needs so that no service function or handler ever breaks it or fails with an
  internal error: every method keeps the invariant of the store and fails only with the errors that
  the API has a status for. This asks nothing of the results, so it also holds of a store that
  others change between two calls.
\<close>

section \<open>Steady operations\<close>

named_theorems steady_rules \<open>rules for operations that keep an invariant\<close>

definition client_faults :: "err set" where
  "client_faults = {ErrNotFound, ErrConflict, ErrValidation}"

text \<open>\<open>steady iv E Q m\<close>: \<open>m\<close> keeps \<open>iv\<close>, fails only with errors in \<open>E\<close>, and its results satisfy \<open>Q\<close>.\<close>

definition steady :: "('s \<Rightarrow> bool) \<Rightarrow> err set \<Rightarrow> ('a \<Rightarrow> bool) \<Rightarrow> ('a, 's) op \<Rightarrow> bool" where
  "steady iv E Q m \<longleftrightarrow> (\<forall>s. iv s \<longrightarrow> iv (snd (m s))
     \<and> (case fst (m s) of Inl e \<Rightarrow> e \<in> E | Inr x \<Rightarrow> Q x))"

abbreviation calm :: "('s \<Rightarrow> bool) \<Rightarrow> ('a, 's) op \<Rightarrow> bool" where
  "calm iv \<equiv> steady iv client_faults (\<lambda>_. True)"

lemma steadyI:
  assumes "\<And>s. iv s \<Longrightarrow> iv (snd (m s))" and "\<And>s e. iv s \<Longrightarrow> fst (m s) = Inl e \<Longrightarrow> e \<in> E"
    and "\<And>s x. iv s \<Longrightarrow> fst (m s) = Inr x \<Longrightarrow> Q x"
  shows "steady iv E Q m"
  using assms by (simp add: steady_def split: sum.split)

lemma steadyD:
  assumes "steady iv E Q m" and "iv s"
  shows "iv (snd (m s))" "fst (m s) = Inl e \<Longrightarrow> e \<in> E" "fst (m s) = Inr x \<Longrightarrow> Q x"
  using assms by (auto simp: steady_def split: sum.splits)

lemma steady_mono: "steady iv E Q m \<Longrightarrow> E \<subseteq> E' \<Longrightarrow> (\<And>x. Q x \<Longrightarrow> Q' x) \<Longrightarrow> steady iv E' Q' m"
  by (rule steadyI) (auto dest: steadyD)

lemma steady_total: "steady iv {} Q m \<Longrightarrow> steady iv E (\<lambda>_. True) m"
  by (rule steady_mono) auto

lemma steady_ret [steady_rules]: "Q x \<Longrightarrow> steady iv E Q (ret x)"
  by (rule steadyI) (auto simp: ret_apply)

lemma steady_throw [steady_rules]: "e \<in> E \<Longrightarrow> steady iv E Q (throw e)"
  by (rule steadyI) (auto simp: throw_apply)

lemma steady_andThen:
  assumes "steady iv E P m" and "\<And>x. P x \<Longrightarrow> steady iv E Q (f x)"
  shows "steady iv E Q (andThen m f)"
proof -
  have "iv (snd (andThen m f s)) \<and> (case fst (andThen m f s) of Inl e \<Rightarrow> e \<in> E | Inr x \<Rightarrow> Q x)" if s: "iv s" for s
  proof -
    obtain r s1 where run: "m s = (r, s1)" by force
    note D = steadyD[OF assms(1) s, unfolded run fst_conv snd_conv]
    show ?thesis using D steadyD[OF assms(2) D(1)]
      by (cases r) (auto simp: andThen_apply run split: sum.split)
  qed
  then show ?thesis by (simp add: steady_def)
qed

lemmas calm_andThen [steady_rules] = steady_andThen[where P = "\<lambda>_. True"]

lemma steady_if [steady_rules]:
  "(b \<Longrightarrow> steady iv E Q m) \<Longrightarrow> (\<not> b \<Longrightarrow> steady iv E Q m') \<Longrightarrow> steady iv E Q (if b then m else m')"
  by simp

lemma steady_Let [steady_rules]: "steady iv E Q (f x) \<Longrightarrow> steady iv E Q (Let x f)"
  by simp

lemma steady_forEach [steady_rules]:
  "(\<And>x. x \<in> set xs \<Longrightarrow> steady iv E (\<lambda>_. True) (f x)) \<Longrightarrow> steady iv E (\<lambda>_. True) (forEach f xs)"
  by (induction xs) (auto intro!: steady_rules)

lemma steady_split [steady_rules]:
  "(\<And>a b. x = (a, b) \<Longrightarrow> steady iv E Q (f a b)) \<Longrightarrow> steady iv E Q (case x of (a, b) \<Rightarrow> f a b)"
  by (cases x) simp

lemma steady_liftR: "r \<in> Inl ` E \<union> Inr ` {x. Q x} \<Longrightarrow> steady iv E Q (liftR r)"
  by (rule steadyI) (auto simp: liftR_apply)

lemma steady_onFst [steady_rules]: "steady iv E Q m \<Longrightarrow> steady (both iv iv') E Q (onFst m)"
  by (rule steadyI) (auto simp: onFst_apply both_def dest: steadyD)

lemma steady_onSnd [steady_rules]: "steady iv' E Q m \<Longrightarrow> steady (both iv iv') E Q (onSnd m)"
  by (rule steadyI) (auto simp: onSnd_apply both_def dest: steadyD)

lemma steady_at_shared [steady_rules]: "steady iv E Q m \<Longrightarrow> steady (all_inv iv iv') E Q (at_shared m)"
  by (rule steadyI) (auto simp: at_shared_def onFst_apply all_inv_def dest: steadyD)

lemma steady_at_tenant [steady_rules]:
  assumes "steady (both iv iv') E Q m"
  shows "steady (all_inv iv iv') E Q (at_tenant tid m)"
proof -
  have "all_inv iv iv' (snd (at_tenant tid m w))
      \<and> (case fst (at_tenant tid m w) of Inl e \<Rightarrow> e \<in> E | Inr x \<Rightarrow> Q x)" if "all_inv iv iv' w" for w
  proof -
    obtain s ts r s1 t1 where w: "w = (s, ts)" "m (s, ts tid) = (r, s1, t1)" by (metis surj_pair)
    have "both iv iv' (s, ts tid)" using that by (simp add: w all_inv_def)
    then show ?thesis using steadyD[OF assms, of "(s, ts tid)"] that
      by (auto simp: w at_tenant_def all_inv_def split: sum.split)
  qed
  then show ?thesis by (simp add: steady_def)
qed

text \<open>A method that refines its specification is steady if the specification fails as it may.\<close>

lemma refines_steady:
  assumes "refinesR iv \<alpha> R m sp" and "\<And>a e. fst (sp a) = Inl e \<Longrightarrow> e \<in> E"
    and "\<And>s x y. iv s \<Longrightarrow> R x y \<Longrightarrow> fst (sp (\<alpha> s)) = Inr y \<Longrightarrow> Q x"
  shows "steady iv E Q m"
proof (rule steadyI)
  fix s assume s: "iv s"
  note D = refinesRD[OF assms(1) s]
  show "iv (snd (m s))" by (rule D(3))
  show "e \<in> E" if "fst (m s) = Inl e" for e
    using D(1) that assms(2)[of "\<alpha> s" e] by (cases "fst (sp (\<alpha> s))") auto
  show "Q x" if "fst (m s) = Inr x" for x
    using D(1) that assms(3)[OF s, of x] by (cases "fst (sp (\<alpha> s))") auto
qed

section \<open>Steady stores\<close>

locale steady_shared =
  fixes S :: "'s Shared"
    and ivS :: "'s \<Rightarrow> bool"
  assumes EnsureUser: "steady ivS {} (\<lambda>_. True) (Shared_EnsureUser S sub)"
    and ListUsers: "calm ivS (Shared_ListUsers S)"
    and CreateResource: "calm ivS (Shared_CreateResource S name)"
    and EnsureResource: "calm ivS (Shared_EnsureResource S name)"
    and DeleteResource: "calm ivS (Shared_DeleteResource S name)"
    and ListResources: "calm ivS (Shared_ListResources S)"
    and CreateOperation: "calm ivS (Shared_CreateOperation S name res)"
    and EnsureOperation: "calm ivS (Shared_EnsureOperation S name res)"
    and DeleteOperation: "calm ivS (Shared_DeleteOperation S name)"
    and ListOperations: "calm ivS (Shared_ListOperations S)"
    and OperationExists: "calm ivS (Shared_OperationExists S name)"
begin

lemmas shared_methods =
  EnsureUser[THEN steady_total] ListUsers CreateResource EnsureResource DeleteResource ListResources
  CreateOperation EnsureOperation DeleteOperation ListOperations OperationExists

lemma shared_services:
  "calm ivS (EnsureUser S sub)" "calm ivS (ListUsers S)" "calm ivS (CreateResource S name)"
  "calm ivS (DeleteResource S name)" "calm ivS (ListResources S)" "calm ivS (CreateOperation S name)"
  "calm ivS (EnsureOperation S name)" "calm ivS (DeleteOperation S name)" "calm ivS (ListOperations S)"
  "calm ivS (requireOperation S name)"
  by (auto simp: admin_defs Let_def client_faults_def shared_methods[unfolded client_faults_def]
      intro!: steady_rules shared_methods[unfolded client_faults_def])

lemma provisioning: "sub \<noteq> '''' \<Longrightarrow> steady ivS {} (\<lambda>_. True) (EnsureUser S sub)"
  by (simp add: EnsureUser_def EnsureUser)

end

text \<open>The queries that authorization rests on must not fail at all.\<close>

locale steady_tenant =
  fixes T :: "'t Tenant"
    and ivT :: "'t \<Rightarrow> bool"
  assumes CreateRole: "calm ivT (Tenant_CreateRole T name)"
    and EnsureRole: "calm ivT (Tenant_EnsureRole T name)"
    and RoleExists: "calm ivT (Tenant_RoleExists T name)"
    and RenameRole: "calm ivT (Tenant_RenameRole T name name')"
    and DeleteRole: "calm ivT (Tenant_DeleteRole T name)"
    and ListRoles: "calm ivT (Tenant_ListRoles T)"
    and AssignRole: "calm ivT (Tenant_AssignRole T sub role)"
    and UnassignRole: "calm ivT (Tenant_UnassignRole T sub role)"
    and UserRoles: "steady ivT {} (\<lambda>rs. distinct (elems rs)) (Tenant_UserRoles T sub)"
    and SetRolePermission: "calm ivT (Tenant_SetRolePermission T role p sc)"
    and RemoveRolePermission: "calm ivT (Tenant_RemoveRolePermission T role p)"
    and RolePermissions: "calm ivT (Tenant_RolePermissions T role)"
    and HasRolePermission: "calm ivT (Tenant_HasRolePermission T role p)"
    and SetUserPermission: "calm ivT (Tenant_SetUserPermission T sub p sc)"
    and RemoveUserPermission: "calm ivT (Tenant_RemoveUserPermission T sub p)"
    and UserPermissions: "steady ivT {} (\<lambda>_. True) (Tenant_UserPermissions T sub)"
    and HasUserPermission: "calm ivT (Tenant_HasUserPermission T sub p)"
    and AddRoleRestrictedIDs: "calm ivT (Tenant_AddRoleRestrictedIDs T role p ids)"
    and RemoveRoleRestrictedIDs: "calm ivT (Tenant_RemoveRoleRestrictedIDs T role p ids)"
    and RoleRestrictedIDs: "steady ivT {} (\<lambda>_. True) (Tenant_RoleRestrictedIDs T roles p)"
    and AddUserRestrictedIDs: "calm ivT (Tenant_AddUserRestrictedIDs T sub p ids)"
    and RemoveUserRestrictedIDs: "calm ivT (Tenant_RemoveUserRestrictedIDs T sub p ids)"
    and UserRestrictedIDs: "steady ivT {} (\<lambda>_. True) (Tenant_UserRestrictedIDs T sub p)"
    and RoleGrants: "distinct roles \<Longrightarrow> steady ivT {} (\<lambda>_. True) (Tenant_RoleGrants T roles)"
begin

lemmas tenant_methods =
  CreateRole EnsureRole RoleExists RenameRole DeleteRole ListRoles AssignRole UnassignRole
  UserRoles[THEN steady_total] SetRolePermission RemoveRolePermission RolePermissions HasRolePermission
  SetUserPermission RemoveUserPermission HasUserPermission AddRoleRestrictedIDs RemoveRoleRestrictedIDs
  AddUserRestrictedIDs RemoveUserRestrictedIDs

lemma tenant_services:
  "calm ivT (CreateRole T name)" "calm ivT (EnsureRole T name)" "calm ivT (GetRole T name)"
  "calm ivT (RenameRole T name name')" "calm ivT (DeleteRole T name)" "calm ivT (ListRoles T)"
  "calm ivT (RolePermissions T name)" "calm ivT (UnassignRole T sub name)" "calm ivT (UserRoles T sub)"
  "calm ivT (RemoveRolePermission T name p)" "calm ivT (RemoveUserPermission T sub p)"
  "calm ivT (UpdateRoleRestrictedIDs T name p add remove)"
  "calm ivT (UpdateUserRestrictedIDs T sub p add remove)"
  by (auto simp: admin_defs client_faults_def tenant_methods[unfolded client_faults_def]
      intro!: steady_rules tenant_methods[unfolded client_faults_def])

lemma resolve_total: "steady ivT {} (\<lambda>_. True) (resolve T sub)"
  unfolding resolve_def
  by (intro steady_andThen[OF UserPermissions] steady_Let steady_andThen[OF UserRoles] steady_if
      steady_andThen[OF RoleGrants] steady_ret) simp_all

lemma record_ids_total: "steady ivT {} (\<lambda>_. True) (record_ids_loop T sub eff ps out)"
proof (induction ps arbitrary: out)
  case (Cons p ps)
  then show ?case
    by (cases "fmlookup eff p") (auto intro!: steady_andThen UserRestrictedIDs RoleRestrictedIDs)
qed (simp add: steady_ret)

lemma queries_total:
  "steady ivT {} (\<lambda>_. True) (Authorize T sub p)" "steady ivT {} (\<lambda>_. True) (EffectiveOperations it T sub)"
  "steady ivT {} (\<lambda>_. True) (MetaOperations it T sub)" "steady ivT {} (\<lambda>_. True) (RecordIDs T sub ps)"
  by (auto simp: Authorize_def EffectiveOperations_def MetaOperations_def RecordIDs_def
      intro!: calm_andThen resolve_total record_ids_total steady_ret)

lemmas queries = queries_total[THEN steady_total]

end

section \<open>Handlers\<close>

text \<open>A handler that keeps the invariant and answers with one of the codes \<open>C\<close>.\<close>

definition proper :: "(('s, 't) world \<Rightarrow> bool) \<Rightarrow> nat set \<Rightarrow> ('s, 't) handler \<Rightarrow> bool" where
  "proper iv C h \<longleftrightarrow> (\<forall>w. iv w \<longrightarrow> iv (snd (h w)) \<and> status (fst (h w)) \<in> C)"

lemma properI:
  "(\<And>w. iv w \<Longrightarrow> iv (snd (h w)) \<and> status (fst (h w)) \<in> C) \<Longrightarrow> proper iv C h"
  by (simp add: proper_def del: split_paired_All)

lemma properD: "proper iv C h \<Longrightarrow> iv w \<Longrightarrow> iv (snd (h w)) \<and> status (fst (h w)) \<in> C"
  by (simp add: proper_def del: split_paired_All)

lemma proper_mono: "proper iv C h \<Longrightarrow> C \<subseteq> C' \<Longrightarrow> proper iv C' h"
  by (rule properI) (auto dest: properD)

lemma answer_proper: "status r \<in> C \<Longrightarrow> proper iv C (answer r)"
  by (rule properI) (simp add: answer_def)

lemma run_proper:
  assumes "steady iv E (\<lambda>_. True) m" and "\<And>e. e \<in> E \<Longrightarrow> status (err e) \<in> C" and "\<And>x. proper iv C (f x)"
  shows "proper iv C (\<lambda>w. case m w of (Inl e, w1) \<Rightarrow> (err e, w1) | (Inr x, w1) \<Rightarrow> f x w1)"
proof (rule properI)
  fix w assume w: "iv w"
  obtain r w1 where run: "m w = (r, w1)" by (cases "m w")
  note D = steadyD(1,2)[OF assms(1) w, unfolded run fst_conv snd_conv]
  show "iv (snd (case m w of (Inl e, w1) \<Rightarrow> (err e, w1) | (Inr x, w1) \<Rightarrow> f x w1))
    \<and> status (fst (case m w of (Inl e, w1) \<Rightarrow> (err e, w1) | (Inr x, w1) \<Rightarrow> f x w1)) \<in> C"
    using D assms(2) properD[OF assms(3) D(1)] by (cases r) (simp_all add: run)
qed

lemma respond_proper:
  assumes "calm iv m" and "\<And>x. status (ok x) \<in> ordinary"
  shows "proper iv ordinary (respond ok m)"
  unfolding respond_def
  by (rule run_proper[OF assms(1), where f = "\<lambda>x w. (ok x, w)"])
    (auto simp: client_faults_def httpStatus_def assms(2) intro: properI)

lemma with_body_proper: "(\<And>x. proper iv ordinary (h x)) \<Longrightarrow> proper iv ordinary (with_body dec rq h)"
  by (auto simp: with_body_def answer_proper split: sum.split)

text \<open>Both stores together: the services that use both, and synchronisation.\<close>

locale steady_stores = steady_shared S ivS + steady_tenant T ivT
  for S :: "'s Shared" and ivS and T :: "'t Tenant" and ivT
begin

abbreviation ivW where "ivW \<equiv> all_inv ivS ivT"

lemma both_services:
  "calm (both ivS ivT) (AssignRole S T sub name)" "calm (both ivS ivT) (SetRolePermission S T name p sc)"
  "calm (both ivS ivT) (SetUserPermission S T sub p sc)"
  by (auto simp: AssignRole_def SetRolePermission_def SetUserPermission_def client_faults_def
      intro!: steady_rules shared_services[unfolded client_faults_def] tenant_methods[unfolded client_faults_def])

lemma validate_steady: "calm iv (liftR (PermissionSpec_validate spec))"
  by (rule steady_liftR) (simp add: PermissionSpec_validate_def client_faults_def)

lemma sync_tenant_steady: "calm (both ivS ivT) (sync_tenant ord S T tb)"
  unfolding sync_tenant_def sync_role_def sync_user_def sync_role_permission_def sync_user_permission_def
  by (intro steady_rules validate_steady shared_services tenant_services both_services TrueI)

lemma Sync_steady:
  assumes "serves S T tids stores"
  shows "calm ivW (Sync ord stores files)"
proof -
  have tenants: "calm ivW (case Stores_Tenant stores tid of None \<Rightarrow> throw ErrValidation
      | Some tenant \<Rightarrow> at_tenant tid (sync_tenant ord S tenant tb))" for tid ord tb
    using servesD(2)[OF assms, of tid]
    by (auto simp: client_faults_def intro!: steady_throw steady_at_tenant sync_tenant_steady[unfolded client_faults_def])
  show ?thesis
    unfolding Sync_def syncFile_def servesD(1)[OF assms]
    by (intro steady_rules tenants shared_methods shared_services TrueI)
qed

lemma endpoint_proper:
  assumes "serves S T tids (sv_stores srv)"
  shows "rt \<noteq> PostSync \<Longrightarrow> proper ivW ordinary (endpoint srv rt T tid sub rq)"
    and "proper ivW (insert 500 ordinary) (endpoint srv PostSync T tid sub rq)"
proof -
  note ops = steady_at_shared[OF shared_services(2)] steady_at_shared[OF shared_services(3)]
    steady_at_shared[OF shared_services(4)] steady_at_shared[OF shared_services(5)]
    steady_at_shared[OF shared_services(6)] steady_at_shared[OF shared_services(8)]
    steady_at_shared[OF shared_services(9)]
  note pair = both_services[THEN steady_at_tenant]
  have one: "calm ivT m \<Longrightarrow> calm ivW (at_tenant tid (onSnd m))" for m :: "('b, 't) op"
    by (intro steady_rules)
  have ids: "proper ivW ordinary (handleMyRecordIDs T tid sub rq)"
    unfolding handleMyRecordIDs_def Let_def
    by (auto intro!: answer_proper respond_proper one queries)
  show "rt \<noteq> PostSync \<Longrightarrow> proper ivW ordinary (endpoint srv rt T tid sub rq)"
    by (cases rt) (auto simp: handler_defs ids servesD(1)[OF assms]
        intro!: answer_proper respond_proper with_body_proper ops pair one queries tenant_services)
  show "proper ivW (insert 500 ordinary) (endpoint srv PostSync T tid sub rq)"
    by (auto simp: handleSync_def split: sum.split
        intro!: answer_proper proper_mono[OF respond_proper] Sync_steady[OF assms])
qed

lemma requireMeta_proper:
  "proper ivW C h \<Longrightarrow> 403 \<in> C \<Longrightarrow> proper ivW C (requireMeta T tid sub ops h)"
proof (induction ops)
  case (Cons p ops)
  have "steady ivW {} (\<lambda>_. True) (at_tenant tid (onSnd (Authorize T sub p)))"
    by (intro steady_at_tenant steady_onSnd queries_total)
  then have "proper ivW C (\<lambda>w. case at_tenant tid (onSnd (Authorize T sub p)) w of
      (Inl e, w1) \<Rightarrow> (writeError 500, w1)
    | (Inr allowed, w1) \<Rightarrow> (if \<not> allowed then answer (writeError 403) else requireMeta T tid sub ops h) w1)"
    by (rule run_proper) (use Cons in \<open>auto intro: answer_proper\<close>)
  moreover have "requireMeta T tid sub (p # ops) h = (\<lambda>w. case at_tenant tid (onSnd (Authorize T sub p)) w of
      (Inl e, w1) \<Rightarrow> (writeError 500, w1)
    | (Inr allowed, w1) \<Rightarrow> (if \<not> allowed then answer (writeError 403) else requireMeta T tid sub ops h) w1)"
    by (rule ext) (auto simp: answer_def split: prod.split sum.split)
  ultimately show ?case by (simp only:)
qed simp

text \<open>Every request is answered, and with an internal error only if the bootstrap files cannot be loaded.\<close>

lemma serve_proper:
  assumes serves: "serves S T tids (sv_stores srv)" and authn: "authenticator (sv_authn srv)"
  shows "proper ivW (if rt = PostSync then insert 500 ordinary else ordinary) (serve srv rt rq)" (is "proper _ ?C _")
proof (cases "sv_authn srv rq")
  case (Inl e)
  then show ?thesis by (auto simp: serve_def withAuth_def intro!: answer_proper)
next
  case (Inr sub)
  have "sub \<noteq> ''''" using authenticator.verified_subject[OF authn Inr] .
  then have ensure: "steady ivW {} (\<lambda>_. True) (at_shared (EnsureUser S sub))"
    by (intro steady_at_shared provisioning)
  have "proper ivW ?C (endpoint srv rt T tid sub rq)" for tid
    using endpoint_proper[OF serves] by simp
  then have "proper ivW ?C (requireMeta T tid sub (required rt) (endpoint srv rt T tid sub rq))" for tid
    by (rule requireMeta_proper) simp
  then have next_: "proper ivW ?C (withTenant srv rq (\<lambda>tid T. requireMeta T tid sub (required rt) (endpoint srv rt T tid sub rq)))"
    using servesD(2)[OF serves] by (auto simp: withTenant_def Let_def simp del: requireMeta.simps intro!: answer_proper)
  have "proper ivW ?C (withAuth srv rq (\<lambda>sub. withTenant srv rq (\<lambda>tid T.
      requireMeta T tid sub (required rt) (endpoint srv rt T tid sub rq))))"
    unfolding withAuth_def Inr servesD(1)[OF serves] sum.case by (rule run_proper[OF ensure _ next_]) simp
  then show ?thesis by (auto simp: serve_def intro!: answer_proper)
qed

end

section \<open>Stores that keep the contracts are steady\<close>

sublocale shared_store \<subseteq> steady: steady_shared S invS
proof unfold_locales
  fix sub :: string
  show "steady invS {} (\<lambda>_. True) (Shared_EnsureUser S sub)"
    by (rule refines_steady[OF EnsureUser]) (simp_all add: spec_defs eff_simps)
qed (rule refines_steady, (rule EnsureUser ListUsers CreateResource EnsureResource DeleteResource ListResources
      CreateOperation EnsureOperation DeleteOperation ListOperations OperationExists),
    auto simp: spec_defs eff_simps client_faults_def split: if_splits)+

sublocale tenant_store \<subseteq> steady: steady_tenant T invT
proof unfold_locales
  fix role p :: string and ids :: "string list"
  show "calm invT (Tenant_RemoveRoleRestrictedIDs T role p ids)"
  proof (rule steadyI)
    fix t assume t: "invT t"
    note D = RemoveRoleRestrictedIDs_state[OF t, of role p ids]
    show "invT (snd (Tenant_RemoveRoleRestrictedIDs T role p ids t))" using D by blast
    show "e \<in> client_faults" if "fst (Tenant_RemoveRoleRestrictedIDs T role p ids t) = Inl e" for e
      using D that by (auto simp: client_faults_def)
  qed simp
next
  fix sub p :: string and roles :: "string list"
  show "steady invT {} (\<lambda>rs. distinct (elems rs)) (Tenant_UserRoles T sub)"
    by (rule refines_steady[OF UserRoles]) (auto simp: spec_defs eff_simps)
  show "steady invT {} (\<lambda>_. True) (Tenant_UserPermissions T sub)"
    by (rule refines_steady[OF UserPermissions]) (auto simp: spec_defs eff_simps)
  show "steady invT {} (\<lambda>_. True) (Tenant_RoleRestrictedIDs T roles p)"
    by (rule refines_steady[OF RoleRestrictedIDs]) (auto simp: spec_defs eff_simps)
  show "steady invT {} (\<lambda>_. True) (Tenant_UserRestrictedIDs T sub p)"
    by (rule refines_steady[OF UserRestrictedIDs]) (auto simp: spec_defs eff_simps)
  show "distinct roles \<Longrightarrow> steady invT {} (\<lambda>_. True) (Tenant_RoleGrants T roles)"
    by (rule refines_steady[OF RoleGrants]) (auto simp: spec_defs eff_simps)
qed (rule refines_steady, (rule CreateRole EnsureRole RoleExists RenameRole DeleteRole ListRoles AssignRole
      UnassignRole SetRolePermission RemoveRolePermission RolePermissions HasRolePermission SetUserPermission
      RemoveUserPermission HasUserPermission AddRoleRestrictedIDs AddUserRestrictedIDs RemoveUserRestrictedIDs),
    auto simp: spec_defs eff_simps client_faults_def split: if_splits)+

context shared_store
begin

lemmas steady_shared_store = steady.steady_shared_axioms

end

context tenant_store
begin

lemmas steady_tenant_store = steady.steady_tenant_axioms

end

lemma steady_from_contracts:
  assumes "shared_store S ivS abS" and "tenant_store T ivT abT"
  shows "steady_stores S ivS T ivT"
  by (intro steady_stores.intro shared_store.steady_shared_store[OF assms(1)] tenant_store.steady_tenant_store[OF assms(2)])

end
