(* ===== verification/Concurrency.thy ===== *)
theory Concurrency
  imports JsonStores
begin

text \<open>
  Requests run concurrently. Each store method holds the mutex of its store (or is a database
  transaction), so it is atomic, but a service function of \<^verbatim>\<open>internal/service/admin.go\<close> that makes
  several calls is not. A thread is a sequence of atomic calls with what follows each; \<open>sched\<close> lets
  any thread make its next call. The theory shows that every schedule leaves the store of a tenant in
  order, and a schedule under which a property of single requests fails.
\<close>

section \<open>Threads\<close>

datatype 't thread =
    Finished "err + unit"
  | Step "'t \<Rightarrow> 't thread \<times> 't"

text \<open>One atomic call; an error ends the thread, as \<^verbatim>\<open>if err != nil { return err }\<close> does.\<close>

definition call :: "('x, 't) op \<Rightarrow> ('x \<Rightarrow> 't thread) \<Rightarrow> 't thread" where
  "call m k = Step (\<lambda>t. case m t of
     (Inl e, t1) \<Rightarrow> (Finished (Inl e), t1)
   | (Inr x, t1) \<Rightarrow> (k x, t1))"

inductive sched :: "'t thread list \<times> 't \<Rightarrow> 't thread list \<times> 't \<Rightarrow> bool" where
  scheduled: "i < length ths \<Longrightarrow> ths ! i = Step f \<Longrightarrow> f t = (th', t') \<Longrightarrow> sched (ths, t) (ths[i := th'], t')"

inductive_cases schedE: "sched (ths, t) c"

abbreviation schedules :: "'t thread list \<times> 't \<Rightarrow> 't thread list \<times> 't \<Rightarrow> bool" where
  "schedules \<equiv> sched\<^sup>*\<^sup>*"

text \<open>A thread that runs alone.\<close>

primrec alone :: "'t thread \<Rightarrow> 't \<Rightarrow> (err + unit) \<times> 't" where
  "alone (Finished r) = (\<lambda>t. (r, t))"
| "alone (Step f) = (\<lambda>t. case map_prod alone id (f t) of (m, t1) \<Rightarrow> m t1)"

lemma alone_call: "alone (call m k) = andThen m (\<lambda>x. alone (k x))"
  by (rule ext) (simp add: call_def andThen_apply split: prod.split sum.split)

lemma alone_ret: "alone (Finished (Inr ())) = ret ()" "alone (Finished (Inl e)) = throw e"
  by (auto simp: ret_def throw_def)

section \<open>Service functions as threads\<close>

definition update_role_ids :: "'t Tenant \<Rightarrow> string \<Rightarrow> string \<Rightarrow> string list \<Rightarrow> string list \<Rightarrow> 't thread" where
  "update_role_ids T roleName operation add remove =
     call (Tenant_HasRolePermission T roleName operation) (\<lambda>ok.
     if \<not> ok then Finished (Inl ErrNotFound)
     else call (Tenant_AddRoleRestrictedIDs T roleName operation add) (\<lambda>_.
          call (Tenant_RemoveRoleRestrictedIDs T roleName operation remove) (\<lambda>_. Finished (Inr ()))))"

definition remove_role_permission :: "'t Tenant \<Rightarrow> string \<Rightarrow> string \<Rightarrow> 't thread" where
  "remove_role_permission T roleName operation =
     call (Tenant_RemoveRolePermission T roleName operation) (\<lambda>_. Finished (Inr ()))"

definition update_user_ids :: "'t Tenant \<Rightarrow> string \<Rightarrow> string \<Rightarrow> string list \<Rightarrow> string list \<Rightarrow> 't thread" where
  "update_user_ids T sub operation add remove =
     call (Tenant_HasUserPermission T sub operation) (\<lambda>ok.
     if \<not> ok then Finished (Inl ErrNotFound)
     else call (Tenant_AddUserRestrictedIDs T sub operation add) (\<lambda>_.
          call (Tenant_RemoveUserRestrictedIDs T sub operation remove) (\<lambda>_. Finished (Inr ()))))"

lemma andThen_ret_right: "andThen m ret = m"
  by (rule ext) (simp add: andThen_apply ret_apply split: prod.split sum.split)

text \<open>Alone they are the functions of \<open>Admin\<close>.\<close>

lemma update_role_ids_alone:
  "alone (update_role_ids T role p add remove) = UpdateRoleRestrictedIDs T role p add remove"
  by (simp add: update_role_ids_def UpdateRoleRestrictedIDs_def alone_call alone_ret andThen_ret_right
      if_distrib[of alone] del: alone.simps cong: if_cong)

lemma update_user_ids_alone:
  "alone (update_user_ids T sub p add remove) = UpdateUserRestrictedIDs T sub p add remove"
  by (simp add: update_user_ids_def UpdateUserRestrictedIDs_def alone_call alone_ret andThen_ret_right
      if_distrib[of alone] del: alone.simps cong: if_cong)

lemma remove_role_permission_alone:
  "alone (remove_role_permission T role p) = RemoveRolePermission T role p"
  by (simp add: remove_role_permission_def RemoveRolePermission_def alone_call alone_ret andThen_ret_right del: alone.simps)

section \<open>Every schedule keeps the store in order\<close>

text \<open>Threads that reach a tenant only through the methods of its store, with role lists free of repetitions.\<close>

inductive tenant_thread :: "'t Tenant \<Rightarrow> 't thread \<Rightarrow> bool" for T where
  finished: "tenant_thread T (Finished r)"
| CreateRole: "(\<And>x. tenant_thread T (k x)) \<Longrightarrow> tenant_thread T (call (Tenant_CreateRole T a) k)"
| EnsureRole: "(\<And>x. tenant_thread T (k x)) \<Longrightarrow> tenant_thread T (call (Tenant_EnsureRole T a) k)"
| RoleExists: "(\<And>x. tenant_thread T (k x)) \<Longrightarrow> tenant_thread T (call (Tenant_RoleExists T a) k)"
| RenameRole: "(\<And>x. tenant_thread T (k x)) \<Longrightarrow> tenant_thread T (call (Tenant_RenameRole T a b) k)"
| DeleteRole: "(\<And>x. tenant_thread T (k x)) \<Longrightarrow> tenant_thread T (call (Tenant_DeleteRole T a) k)"
| ListRoles: "(\<And>x. tenant_thread T (k x)) \<Longrightarrow> tenant_thread T (call (Tenant_ListRoles T) k)"
| AssignRole: "(\<And>x. tenant_thread T (k x)) \<Longrightarrow> tenant_thread T (call (Tenant_AssignRole T a b) k)"
| UnassignRole: "(\<And>x. tenant_thread T (k x)) \<Longrightarrow> tenant_thread T (call (Tenant_UnassignRole T a b) k)"
| UserRoles: "(\<And>x. tenant_thread T (k x)) \<Longrightarrow> tenant_thread T (call (Tenant_UserRoles T a) k)"
| SetRolePermission: "(\<And>x. tenant_thread T (k x)) \<Longrightarrow> tenant_thread T (call (Tenant_SetRolePermission T a b c) k)"
| RemoveRolePermission: "(\<And>x. tenant_thread T (k x)) \<Longrightarrow> tenant_thread T (call (Tenant_RemoveRolePermission T a b) k)"
| RolePermissions: "(\<And>x. tenant_thread T (k x)) \<Longrightarrow> tenant_thread T (call (Tenant_RolePermissions T a) k)"
| HasRolePermission: "(\<And>x. tenant_thread T (k x)) \<Longrightarrow> tenant_thread T (call (Tenant_HasRolePermission T a b) k)"
| SetUserPermission: "(\<And>x. tenant_thread T (k x)) \<Longrightarrow> tenant_thread T (call (Tenant_SetUserPermission T a b c) k)"
| RemoveUserPermission: "(\<And>x. tenant_thread T (k x)) \<Longrightarrow> tenant_thread T (call (Tenant_RemoveUserPermission T a b) k)"
| UserPermissions: "(\<And>x. tenant_thread T (k x)) \<Longrightarrow> tenant_thread T (call (Tenant_UserPermissions T a) k)"
| HasUserPermission: "(\<And>x. tenant_thread T (k x)) \<Longrightarrow> tenant_thread T (call (Tenant_HasUserPermission T a b) k)"
| AddRoleRestrictedIDs: "(\<And>x. tenant_thread T (k x)) \<Longrightarrow> tenant_thread T (call (Tenant_AddRoleRestrictedIDs T a b c) k)"
| RemoveRoleRestrictedIDs: "(\<And>x. tenant_thread T (k x)) \<Longrightarrow> tenant_thread T (call (Tenant_RemoveRoleRestrictedIDs T a b c) k)"
| RoleRestrictedIDs: "(\<And>x. tenant_thread T (k x)) \<Longrightarrow> tenant_thread T (call (Tenant_RoleRestrictedIDs T a b) k)"
| AddUserRestrictedIDs: "(\<And>x. tenant_thread T (k x)) \<Longrightarrow> tenant_thread T (call (Tenant_AddUserRestrictedIDs T a b c) k)"
| RemoveUserRestrictedIDs: "(\<And>x. tenant_thread T (k x)) \<Longrightarrow> tenant_thread T (call (Tenant_RemoveUserRestrictedIDs T a b c) k)"
| UserRestrictedIDs: "(\<And>x. tenant_thread T (k x)) \<Longrightarrow> tenant_thread T (call (Tenant_UserRestrictedIDs T a b) k)"
| RoleGrants: "distinct a \<Longrightarrow> (\<And>x. tenant_thread T (k x)) \<Longrightarrow> tenant_thread T (call (Tenant_RoleGrants T a) k)"

lemma service_threads:
  "tenant_thread T (update_role_ids T role p add remove)" "tenant_thread T (update_user_ids T sub p add remove)"
  "tenant_thread T (remove_role_permission T role p)"
  by (auto simp: update_role_ids_def update_user_ids_def remove_role_permission_def intro!: tenant_thread.intros split: if_split)

context tenant_store
begin

lemmas keeps =
  CreateRole[THEN refinesRD(3)] EnsureRole[THEN refinesRD(3)] RoleExists[THEN refinesRD(3)]
  RenameRole[THEN refinesRD(3)] DeleteRole[THEN refinesRD(3)] ListRoles[THEN refinesRD(3)]
  AssignRole[THEN refinesRD(3)] UnassignRole[THEN refinesRD(3)] UserRoles[THEN refinesRD(3)]
  SetRolePermission[THEN refinesRD(3)] RemoveRolePermission[THEN refinesRD(3)]
  RolePermissions[THEN refinesRD(3)] HasRolePermission[THEN refinesRD(3)]
  SetUserPermission[THEN refinesRD(3)] RemoveUserPermission[THEN refinesRD(3)]
  UserPermissions[THEN refinesRD(3)] HasUserPermission[THEN refinesRD(3)]
  AddRoleRestrictedIDs[THEN refinesRD(3)] RoleRestrictedIDs[THEN refinesRD(3)]
  AddUserRestrictedIDs[THEN refinesRD(3)] RemoveUserRestrictedIDs[THEN refinesRD(3)]
  UserRestrictedIDs[THEN refinesRD(3)] 
  RemoveRoleRestrictedIDs_state[THEN conjunct1]

lemma keeps_grants: "distinct roles \<Longrightarrow> invT t \<Longrightarrow> invT (snd (Tenant_RoleGrants T roles t))"
  by (rule refinesRD(3)[OF RoleGrants])

lemma call_step:
  assumes "call m k = Step f" and "f t = (th', t')" and "invT (snd (m t))" and "\<And>x. tenant_thread T (k x)"
  shows "invT t' \<and> tenant_thread T th'"
  using assms by (cases "m t"; cases "fst (m t)") (auto simp: call_def intro: tenant_thread.finished)

lemma thread_step:
  assumes "tenant_thread T th" and "th = Step f" and "f t = (th', t')" and t: "invT t"
  shows "invT t' \<and> tenant_thread T th'"
  using assms(1-3)
proof cases
  case finished
  then show ?thesis using assms(2) by simp
next
  case (RoleGrants roles k)
  note grants = keeps_grants[OF RoleGrants(2) t]
  show ?thesis
    by (rule call_step[OF trans[OF sym[OF RoleGrants(1)] assms(2)] assms(3)
        grants RoleGrants(3)])
qed ((rule call_step[OF trans[OF sym assms(2)] assms(3)], assumption, rule keeps, rule t, blast)+)

lemma schedules_keep:
  assumes "schedules (ths, t) (ths', t')" and "\<forall>th \<in> set ths. tenant_thread T th" and "invT t"
  shows "invT t' \<and> (\<forall>th \<in> set ths'. tenant_thread T th)"
  using assms
proof (induction "(ths', t')" arbitrary: ths' t' rule: rtranclp_induct)
  case (step c)
  obtain ths1 t1 where c: "c = (ths1, t1)" by force
  have IH: "invT t1" "\<forall>th \<in> set ths1. tenant_thread T th" using step.hyps(3)[OF c step.prems] by simp_all
  obtain i f th' where i: "i < length ths1" "ths1 ! i = Step f" "f t1 = (th', t')" "ths' = ths1[i := th']"
    using step.hyps(2) unfolding c by (auto elim: schedE)
  have "tenant_thread T (ths1 ! i)" using IH(2) i(1) by simp
  from thread_step[OF this i(2,3) IH(1)] show ?case
    using IH(2) i(4) set_update_subset_insert[of ths1 i th'] by auto
qed simp

end

section \<open>A race\<close>

text \<open>
  Between the check of \<open>UpdateRoleRestrictedIDs\<close> and its writes, another request removes the
  permission. Both requests succeed, and the role keeps record IDs for a permission it does not have.
\<close>

context tenant_store
begin

lemma race:
  assumes t: "invT t" and role: "role \<in> aRoles (absT t)" and perm: "aRolePerm (absT t) role p \<noteq> None"
  obtains t' where "schedules ([update_role_ids T role p add remove, remove_role_permission T role p], t)
      ([Finished (Inr ()), Finished (Inr ())], t')"
    and "invT t'" and "aRolePerm (absT t') role p = None" and "aRoleIDs (absT t') role p = set add - set remove"
    and "role \<in> aRoles (absT t')"
proof -
  let ?remove = "remove_role_permission T role p"
  let ?rest = "call (Tenant_AddRoleRestrictedIDs T role p add) (\<lambda>_.
      call (Tenant_RemoveRoleRestrictedIDs T role p remove) (\<lambda>_. Finished (Inr ())))"
  obtain r1 t1 where h: "Tenant_HasRolePermission T role p t = (r1, t1)" by force
  note h' = refinesD[OF HasRolePermission t, of role p, unfolded h fst_conv snd_conv]
  have h1: "r1 = Inr True" "absT t1 = absT t" "invT t1"
    using h' role perm by (auto simp: spec_defs eff_simps split: option.splits)
  obtain r2 t2 where d: "Tenant_RemoveRolePermission T role p t1 = (r2, t2)" by force
  note d' = refinesD[OF RemoveRolePermission h1(3), of role p, unfolded d fst_conv snd_conv h1(2)]
  have d1: "r2 = Inr ()" "aRoles (absT t2) = aRoles (absT t)" "aRolePerm (absT t2) role p = None" "aRoleIDs (absT t2) role p = {}"
    using d'(1,2) role perm by (simp_all add: spec_defs eff_simps)
  obtain r3 t3 where a: "Tenant_AddRoleRestrictedIDs T role p add t2 = (r3, t3)" by force
  note a' = refinesD[OF AddRoleRestrictedIDs d'(3), of role p add, unfolded a fst_conv snd_conv]
  have a1: "r3 = Inr ()" "aRoles (absT t3) = aRoles (absT t)" "aRolePerm (absT t3) role p = None" "aRoleIDs (absT t3) role p = set add"
    using a'(1,2) role d1 by (simp_all add: spec_defs eff_simps)
  obtain r4 t4 where m: "Tenant_RemoveRoleRestrictedIDs T role p remove t3 = (r4, t4)" by force
  have m': "r4 = fst (spec_RemoveRoleRestrictedIDs role p remove (absT t3))"
    "absT t4 = snd (spec_RemoveRoleRestrictedIDs role p remove (absT t3))" "invT t4"
    using RemoveRoleRestrictedIDs[OF a'(3), of remove role p] role a1(2) by (simp_all add: refines_at_def m sum.rel_eq)
  have m1: "r4 = Inr ()" "aRoles (absT t4) = aRoles (absT t)" "aRolePerm (absT t4) role p = None"
    "aRoleIDs (absT t4) role p = set add - set remove"
    using m'(1,2) role a1 by (simp_all add: spec_defs eff_simps)
  have "sched ([update_role_ids T role p add remove, ?remove], t) ([?rest, ?remove], t1)"
    using scheduled[of 0 "[update_role_ids T role p add remove, ?remove]"] h h1(1)
    by (simp add: update_role_ids_def call_def)
  moreover have "sched ([?rest, ?remove], t1) ([?rest, Finished (Inr ())], t2)"
    using scheduled[of 1 "[?rest, ?remove]"] d d1(1) by (simp add: remove_role_permission_def call_def)
  moreover have "sched ([?rest, Finished (Inr ())], t2)
      ([call (Tenant_RemoveRoleRestrictedIDs T role p remove) (\<lambda>_. Finished (Inr ())), Finished (Inr ())], t3)"
    using scheduled[of 0 "[?rest, Finished (Inr ())]"] a a1(1) by (simp add: call_def)
  moreover have "sched ([call (Tenant_RemoveRoleRestrictedIDs T role p remove) (\<lambda>_. Finished (Inr ())), Finished (Inr ())], t3)
      ([Finished (Inr ()), Finished (Inr ())], t4)"
    using scheduled[of 0 "[call (Tenant_RemoveRoleRestrictedIDs T role p remove) (\<lambda>_. Finished (Inr ())), Finished (Inr ())]"] m m1(1)
    by (simp add: call_def)
  ultimately have "schedules ([update_role_ids T role p add remove, ?remove], t) ([Finished (Inr ()), Finished (Inr ())], t4)"
    by (meson converse_rtranclp_into_rtranclp rtranclp.rtrancl_refl)
  then show ?thesis using that m'(3) m1 role by simp
qed

end

end
