(* ===== verification/Interference.thy ===== *)
theory Interference
  imports Steady Concurrency
begin

text \<open>
  A request among others, for every function of the program at once. The functions are written
  against the interfaces \<open>Shared\<close> and \<open>Tenant\<close>, so they also run on a store whose state may be
  changed before each call: such a store carries the changes that other requests make
  between the calls of this one. Stores of different tenants do not share state, so every
  interleaving of a request with others is such a run.
\<close>

section \<open>Stores that others use\<close>

text \<open>The state, and what others do to it before the first call, the second one, and so on.\<close>

type_synonym 's contested = "'s \<times> ('s \<Rightarrow> 's) list"

definition found :: "'s contested \<Rightarrow> 's" where
  "found w = (case snd w of [] \<Rightarrow> fst w | e # _ \<Rightarrow> e (fst w))"

definition interfered :: "('a, 's) op \<Rightarrow> ('a, 's contested) op" where
  "interfered m = (\<lambda>w. case m (found w) of (r, s1) \<Rightarrow> (r, (s1, tl (snd w))))"

definition interfered_shared :: "'s Shared \<Rightarrow> 's contested Shared" where
  "interfered_shared S = \<lparr>
     Shared_EnsureUser = (\<lambda>a. interfered (Shared_EnsureUser S a)),
     Shared_ListUsers = interfered (Shared_ListUsers S),
     Shared_CreateResource = (\<lambda>a. interfered (Shared_CreateResource S a)),
     Shared_EnsureResource = (\<lambda>a. interfered (Shared_EnsureResource S a)),
     Shared_DeleteResource = (\<lambda>a. interfered (Shared_DeleteResource S a)),
     Shared_ListResources = interfered (Shared_ListResources S),
     Shared_CreateOperation = (\<lambda>a b. interfered (Shared_CreateOperation S a b)),
     Shared_EnsureOperation = (\<lambda>a b. interfered (Shared_EnsureOperation S a b)),
     Shared_DeleteOperation = (\<lambda>a. interfered (Shared_DeleteOperation S a)),
     Shared_ListOperations = interfered (Shared_ListOperations S),
     Shared_OperationExists = (\<lambda>a. interfered (Shared_OperationExists S a))\<rparr>"

definition interfered_tenant :: "'t Tenant \<Rightarrow> 't contested Tenant" where
  "interfered_tenant T = \<lparr>
     Tenant_CreateRole = (\<lambda>a. interfered (Tenant_CreateRole T a)),
     Tenant_EnsureRole = (\<lambda>a. interfered (Tenant_EnsureRole T a)),
     Tenant_RoleExists = (\<lambda>a. interfered (Tenant_RoleExists T a)),
     Tenant_RenameRole = (\<lambda>a b. interfered (Tenant_RenameRole T a b)),
     Tenant_DeleteRole = (\<lambda>a. interfered (Tenant_DeleteRole T a)),
     Tenant_ListRoles = interfered (Tenant_ListRoles T),
     Tenant_AssignRole = (\<lambda>a b. interfered (Tenant_AssignRole T a b)),
     Tenant_UnassignRole = (\<lambda>a b. interfered (Tenant_UnassignRole T a b)),
     Tenant_UserRoles = (\<lambda>a. interfered (Tenant_UserRoles T a)),
     Tenant_SetRolePermission = (\<lambda>a b c. interfered (Tenant_SetRolePermission T a b c)),
     Tenant_RemoveRolePermission = (\<lambda>a b. interfered (Tenant_RemoveRolePermission T a b)),
     Tenant_RolePermissions = (\<lambda>a. interfered (Tenant_RolePermissions T a)),
     Tenant_HasRolePermission = (\<lambda>a b. interfered (Tenant_HasRolePermission T a b)),
     Tenant_SetUserPermission = (\<lambda>a b c. interfered (Tenant_SetUserPermission T a b c)),
     Tenant_RemoveUserPermission = (\<lambda>a b. interfered (Tenant_RemoveUserPermission T a b)),
     Tenant_UserPermissions = (\<lambda>a. interfered (Tenant_UserPermissions T a)),
     Tenant_HasUserPermission = (\<lambda>a b. interfered (Tenant_HasUserPermission T a b)),
     Tenant_AddRoleRestrictedIDs = (\<lambda>a b c. interfered (Tenant_AddRoleRestrictedIDs T a b c)),
     Tenant_RemoveRoleRestrictedIDs = (\<lambda>a b c. interfered (Tenant_RemoveRoleRestrictedIDs T a b c)),
     Tenant_RoleRestrictedIDs = (\<lambda>a b. interfered (Tenant_RoleRestrictedIDs T a b)),
     Tenant_AddUserRestrictedIDs = (\<lambda>a b c. interfered (Tenant_AddUserRestrictedIDs T a b c)),
     Tenant_RemoveUserRestrictedIDs = (\<lambda>a b c. interfered (Tenant_RemoveUserRestrictedIDs T a b c)),
     Tenant_UserRestrictedIDs = (\<lambda>a b. interfered (Tenant_UserRestrictedIDs T a b)),
     Tenant_RoleGrants = (\<lambda>a. interfered (Tenant_RoleGrants T a))\<rparr>"

definition interfered_stores :: "('s, 't) Stores \<Rightarrow> ('s contested, 't contested) Stores" where
  "interfered_stores stores = \<lparr>Stores_Shared = interfered_shared (Stores_Shared stores),
     Stores_tenants = map_option (fmmap interfered_tenant) (Stores_tenants stores)\<rparr>"

definition interfered_server :: "('s, 't, 'raw) Server \<Rightarrow> ('s contested, 't contested, 'raw) Server" where
  "interfered_server srv = \<lparr>sv_files = sv_files srv, sv_stores = interfered_stores (sv_stores srv),
     sv_authn = sv_authn srv, sv_glob = sv_glob srv, sv_readFile = sv_readFile srv,
     sv_unmarshal = sv_unmarshal srv, sv_order = sv_order srv, sv_orders = sv_orders srv\<rparr>"

lemma interfered_server_simps [simp]:
  "sv_stores (interfered_server srv) = interfered_stores (sv_stores srv)"
  "sv_authn (interfered_server srv) = sv_authn srv"
  by (simp_all add: interfered_server_def)

lemma interfered_serves:
  assumes "serves S T tids stores"
  shows "serves (interfered_shared S) (interfered_tenant T) tids (interfered_stores stores)"
proof -
  have "Stores_Tenant (interfered_stores stores) tid = map_option interfered_tenant (Stores_Tenant stores tid)" for tid
    by (cases "Stores_tenants stores") (simp_all add: Stores_Tenant_def interfered_stores_def)
  then show ?thesis using servesD[OF assms] by (simp add: serves_def interfered_stores_def)
qed

lemma interfered_apply: "interfered m w = (fst (m (found w)), (snd (m (found w)), tl (snd w)))"
  by (simp add: interfered_def case_prod_beta)

section \<open>Others that keep the invariant\<close>

text \<open>What a request relies on: whatever the others do, they leave the store in order.\<close>

definition rely :: "('s \<Rightarrow> bool) \<Rightarrow> 's contested \<Rightarrow> bool" where
  "rely iv w \<longleftrightarrow> iv (fst w) \<and> (\<forall>e \<in> set (snd w). \<forall>s. iv s \<longrightarrow> iv (e s))"

lemma rely_found: "rely iv w \<Longrightarrow> iv (found w)"
  by (cases "snd w") (auto simp: rely_def found_def)

lemma interfered_steady [steady_rules]: "steady iv E Q m \<Longrightarrow> steady (rely iv) E Q (interfered m)"
proof (rule steadyI)
  fix w assume m: "steady iv E Q m" and w: "rely iv w"
  note D = steadyD[OF m rely_found[OF w]]
  show "rely iv (snd (interfered m w))"
    using D(1) w by (cases "snd w") (auto simp: rely_def interfered_apply)
  show "e \<in> E" if "fst (interfered m w) = Inl e" for e using D(2) that by (simp add: interfered_apply)
  show "Q x" if "fst (interfered m w) = Inr x" for x using D(3) that by (simp add: interfered_apply)
qed

context steady_shared
begin

lemma interfered_steady_shared: "steady_shared (interfered_shared S) (rely ivS)"
  by unfold_locales (simp_all add: interfered_shared_def interfered_steady shared_methods EnsureUser)

end

context steady_tenant
begin

lemma interfered_steady_tenant: "steady_tenant (interfered_tenant T) (rely ivT)"
  by unfold_locales (simp_all add: interfered_tenant_def interfered_steady tenant_methods UserRoles UserPermissions
      RoleRestrictedIDs UserRestrictedIDs RoleGrants)

end

text \<open>Among others too, a request is answered properly and leaves the stores in order.\<close>

context steady_stores
begin

lemma interfered_steady_stores:
  "steady_stores (interfered_shared S) (rely ivS) (interfered_tenant T) (rely ivT)"
  by (intro steady_stores.intro interfered_steady_shared interfered_steady_tenant)

lemma serve_interfered:
  assumes "serves S T tids (sv_stores srv)" and "authenticator (sv_authn srv)"
  shows "proper (all_inv (rely ivS) (rely ivT)) (if rt = PostSync then insert 500 ordinary else ordinary)
    (serve (interfered_server srv) rt rq)"
  by (rule steady_stores.serve_proper[OF interfered_steady_stores, of tids])
    (simp_all add: assms interfered_serves)

end

interpretation json_steady: steady_stores "json_shared its" inv_shared "json_tenant itt" inv_tenant for its itt
  by (rule steady_from_contracts[OF js.shared_store_axioms jt.tenant_store_axioms])

interpretation concurrent_json: steady_stores "interfered_shared (json_shared its)" "rely inv_shared"
    "interfered_tenant (json_tenant itt)" "rely inv_tenant" for its itt
  by (rule json_steady.interfered_steady_stores)

section \<open>Without others it is the sequential program\<close>

definition undisturbed :: "('s \<Rightarrow> bool) \<Rightarrow> 's contested \<Rightarrow> bool" where
  "undisturbed iv w \<longleftrightarrow> iv (fst w) \<and> snd w = []"

lemma undisturbed_refines:
  "refinesR iv \<alpha> R m sp \<Longrightarrow> refinesR (undisturbed iv) (\<lambda>w. \<alpha> (fst w)) R (interfered m) sp"
  by (auto simp: refinesR_def refines_at_def undisturbed_def interfered_apply found_def)

lemma undisturbedD: "undisturbed iv w \<Longrightarrow> iv (fst w)"
  by (simp add: undisturbed_def)

context shared_store
begin

lemma undisturbed_shared: "shared_store (interfered_shared S) (undisturbed invS) (\<lambda>w. absS (fst w))"
  by unfold_locales
    (simp_all add: interfered_shared_def undisturbed_refines finite_absS undisturbedD
      EnsureUser ListUsers CreateResource EnsureResource DeleteResource ListResources
      CreateOperation EnsureOperation DeleteOperation ListOperations OperationExists)

end

context tenant_store
begin

lemma undisturbed_tenant: "tenant_store (interfered_tenant T) (undisturbed invT) (\<lambda>w. absT (fst w))"
proof unfold_locales
  fix w :: "'t contested" and ids role p assume w: "undisturbed invT w"
  have found: "found w = fst w" and inv: "invT (fst w)" using w by (simp_all add: undisturbed_def found_def)
  show "ids \<noteq> [] \<or> role \<in> aRoles (absT (fst w)) \<Longrightarrow>
      refines_at (undisturbed invT) (\<lambda>w. absT (fst w)) (=)
        (Tenant_RemoveRoleRestrictedIDs (interfered_tenant T) role p ids) (spec_RemoveRoleRestrictedIDs role p ids) w"
    using RemoveRoleRestrictedIDs[OF inv, of ids role p] w
    by (simp add: interfered_tenant_def refines_at_def interfered_apply found undisturbed_def)
  show "undisturbed invT (snd (Tenant_RemoveRoleRestrictedIDs (interfered_tenant T) role p ids w))
      \<and> absT (fst (snd (Tenant_RemoveRoleRestrictedIDs (interfered_tenant T) role p ids w)))
        = snd (spec_RemoveRoleRestrictedIDs role p ids (absT (fst w)))
      \<and> fst (Tenant_RemoveRoleRestrictedIDs (interfered_tenant T) role p ids w) \<in> {Inr (), Inl ErrNotFound}"
    using RemoveRoleRestrictedIDs_state[OF inv, of role p ids] w
    by (simp add: interfered_tenant_def interfered_apply found undisturbed_def)
qed (simp_all add: interfered_tenant_def undisturbed_refines finite_absT undisturbedD
      CreateRole EnsureRole RoleExists RenameRole DeleteRole ListRoles AssignRole UnassignRole UserRoles
      SetRolePermission RemoveRolePermission RolePermissions HasRolePermission SetUserPermission
      RemoveUserPermission UserPermissions HasUserPermission AddRoleRestrictedIDs RoleRestrictedIDs
      AddUserRestrictedIDs RemoveUserRestrictedIDs UserRestrictedIDs RoleGrants)

end

text \<open>So a request that meets no interference is answered as the sequential server answers it.\<close>

lemma fmmap_same: "map_option (fmmap (\<lambda>_. c)) (map_option (fmmap g) m) = map_option (fmmap (\<lambda>_. c)) m"
  by (cases m) (simp_all add: fmap.map_comp comp_def)

lemma reference_interfered [simp]: "reference_server (interfered_server srv) = reference_server srv"
  by (simp add: reference_server_def interfered_server_def reference_stores_def interfered_stores_def fmmap_same)

lemma serve_undisturbed:
  assumes "shared_store S ivS abS" and "tenant_store T ivT abT" and "serves S T tids (sv_stores srv)"
    and "good_world ivS ivT abS abT (s, ts)"
  shows "nil_as_empty rt (fst (serve (interfered_server srv) rt rq ((s, []), \<lambda>tid. (ts tid, []))))
    = nil_as_empty rt (fst (serve srv rt rq (s, ts)))"
proof -
  have admin: "administration S ivS abS T ivT abT"
    by (simp add: administration_def authorization_def assms(1,2))
  have admin': "administration (interfered_shared S) (undisturbed ivS) (\<lambda>w. abS (fst w))
      (interfered_tenant T) (undisturbed ivT) (\<lambda>w. abT (fst w))"
    by (simp add: administration_def authorization_def assms(1,2) shared_store.undisturbed_shared tenant_store.undisturbed_tenant)
  let ?w = "((s, []), \<lambda>tid. (ts tid, []))"
  have same: "all_abs (\<lambda>w. abS (fst w)) (\<lambda>w. abT (fst w)) ?w = all_abs abS abT (s, ts)" by (simp add: all_abs_def)
  have w: "good_world (undisturbed ivS) (undisturbed ivT) (\<lambda>w. abS (fst w)) (\<lambda>w. abT (fst w)) ?w"
    using assms(4) same by (simp add: good_world_def all_inv_def undisturbed_def)
  have serves': "serves (interfered_shared S) (interfered_tenant T) tids (sv_stores (interfered_server srv))"
    using assms(3) by (simp add: interfered_serves)
  show ?thesis
    using answers_alikeD(1)[OF administration.serve_alike[OF admin' serves'] w, of rt rq]
      answers_alikeD(1)[OF administration.serve_alike[OF admin assms(3)] assms(4), of rt rq]
    by (simp add: same)
qed

section \<open>Schedules are interference\<close>

text \<open>A thread that runs among others.\<close>

primrec under :: "'t thread \<Rightarrow> 't contested \<Rightarrow> (err + unit) \<times> 't contested" where
  "under (Finished r) = (\<lambda>w. (r, w))"
| "under (Step f) = (\<lambda>w. case map_prod under id (f (found w)) of (m, t1) \<Rightarrow> m (t1, tl (snd w)))"

lemma under_call: "under (call m k) = andThen (interfered m) (\<lambda>x. under (k x))"
  by (rule ext) (simp add: call_def interfered_def andThen_apply split: prod.split sum.split)

lemma under_finished: "under (Finished (Inr ())) = ret ()" "under (Finished (Inl e)) = throw e"
  by (auto simp: ret_def throw_def)

text \<open>The threads of \<open>Concurrency\<close> among others are the functions of \<open>Admin\<close> on contested stores.\<close>

lemma service_threads_under:
  "under (update_role_ids T role p add remove) = UpdateRoleRestrictedIDs (interfered_tenant T) role p add remove"
  "under (update_user_ids T sub p add remove) = UpdateUserRestrictedIDs (interfered_tenant T) sub p add remove"
  "under (remove_role_permission T role p) = RemoveRolePermission (interfered_tenant T) role p"
  by (simp_all add: update_role_ids_def update_user_ids_def remove_role_permission_def UpdateRoleRestrictedIDs_def
      UpdateUserRestrictedIDs_def RemoveRolePermission_def interfered_tenant_def under_call under_finished andThen_ret_right
      if_distrib[of under] del: under.simps cong: if_cong)

lemma under_found:
  "found w = found w' \<Longrightarrow> tl (snd w) = tl (snd w') \<Longrightarrow> fst (under th w) = fst (under th w')"
  by (cases th) simp_all

context tenant_store
begin

text \<open>What a thread returns in a schedule, it returns under some interference that keeps the store in order.\<close>

lemma schedule_interference:
  assumes "schedules (ths, t) (ths', t')" and "\<forall>th \<in> set ths. tenant_thread T th" and "invT t"
    and "i < length ths" and "ths' ! i = Finished r"
  shows "\<exists>es. rely invT (t, es) \<and> fst (under (ths ! i) (t, es)) = r"
  using assms
proof (induction "(ths, t)" arbitrary: ths t rule: converse_rtranclp_induct)
  case base
  then show ?case by (intro exI[of _ "[]"]) (simp add: rely_def)
next
  case (step c)
  obtain ths1 t1 where c: "c = (ths1, t1)" by force
  obtain j f th' where j: "j < length ths" "ths ! j = Step f" "f t = (th', t1)" "ths1 = ths[j := th']"
    using step.hyps(1) unfolding c by (auto elim: schedE)
  have keep: "invT t1" "\<forall>th \<in> set ths1. tenant_thread T th"
    using schedules_keep[OF r_into_rtranclp[where r = sched, OF step.hyps(1)[unfolded c]] step.prems(1,2)] by simp_all
  obtain es where es: "rely invT (t1, es)" "fst (under (ths1 ! i) (t1, es)) = r"
    using step.hyps(3)[OF c keep(2,1)] step.prems(3,4) j(4) by auto
  show ?case
  proof (cases "j = i")
    case True
    then have "fst (under (ths ! i) (t, (\<lambda>s. s) # es)) = r" using es(2) j by (simp add: found_def)
    then show ?thesis using es(1) step.prems(2) by (intro exI[of _ "(\<lambda>s. s) # es"]) (simp add: rely_def)
  next
    case False
    let ?es = "(\<lambda>_. found (t1, es)) # tl es"
    have "fst (under (ths ! i) (t, ?es)) = fst (under (ths ! i) (t1, es))"
      by (rule under_found) (simp_all add: found_def)
    moreover have "set (tl es) \<subseteq> set es" by (cases es) auto
    then have "rely invT (t, ?es)" using es(1) step.prems(2) rely_found[OF es(1)] by (auto simp: rely_def)
    ultimately show ?thesis using es(2) False j(4) by (intro exI[of _ ?es]) simp
  qed
qed

end

end
