(* ===== verification/ConcurrentAuthz.thy ===== *)
theory ConcurrentAuthz
  imports Interference
begin

text \<open>
  Authorization while permissions change. \<open>Authorize\<close> reads the overrides, the roles and the grants
  of a user in three calls. Its answer is the one for what each call found; so it is right whenever
  the overrides and roles do not change in between, it may be wrong for every state there was when
  they do, and a user who is barred throughout is never let in.
\<close>

section \<open>Authorization among others\<close>

definition full_grant :: "RoleGrant list \<Rightarrow> string \<Rightarrow> bool" where
  "full_grant gs p \<longleftrightarrow> (\<exists>g \<in> set gs. grant_Operation g = p \<and> grant_Scope g = ScopeFull)"

text \<open>The outcome of the loop over the grants, for scopes of any text.\<close>

lemma full_after_grants:
  "(case fmlookup (fold merge_grant gs eff) p of None \<Rightarrow> False | Some r \<Rightarrow> res_scope r = ScopeFull)
   \<longleftrightarrow> (case fmlookup eff p of None \<Rightarrow> full_grant gs p
        | Some r \<Rightarrow> res_scope r = ScopeFull \<or> \<not> fromUser r \<and> full_grant gs p)"
proof (induction gs arbitrary: eff)
  case (Cons g gs)
  then show ?case
    by (cases "fmlookup eff (grant_Operation g)"; cases "grant_Operation g = p")
      (auto simp: full_grant_def merge_grant_def split: option.splits if_splits)
qed (auto simp: full_grant_def split: option.split)

lemma effective_full:
  "effective a sub p = Some ScopeFull \<longleftrightarrow> (case aUserPerm a sub p of Some sc \<Rightarrow> sc = ScopeFull
     | None \<Rightarrow> \<exists>r \<in> aAssign a sub. aRolePerm a r p = Some ScopeFull)"
  by (auto simp: effective_def widest_def role_scopes_def scopes_distinct split: option.split)

text \<open>The state that \<open>Authorize\<close> decides on: what its three queries each find.\<close>

definition mixed :: "tenantA \<Rightarrow> tenantA \<Rightarrow> tenantA \<Rightarrow> tenantA" where
  "mixed a1 a2 a3 = a3\<lparr>aUserPerm := aUserPerm a1, aAssign := aAssign a2\<rparr>"

lemma mixed_simps [simp]:
  "aUserPerm (mixed a1 a2 a3) = aUserPerm a1" "aAssign (mixed a1 a2 a3) = aAssign a2"
  "aRolePerm (mixed a1 a2 a3) = aRolePerm a3"
  by (simp_all add: mixed_def)

context tenant_store
begin

lemma Authorize_snapshots:
  fixes sub :: string
  assumes "rely invT (t, [e1, e2, e3])"
  defines "t1 \<equiv> e1 t"
  defines "t2 \<equiv> e2 (snd (Tenant_UserPermissions T sub t1))"
  defines "t3 \<equiv> e3 (snd (Tenant_UserRoles T sub t2))"
  shows "fst (Authorize (interfered_tenant T) sub p (t, [e1, e2, e3]))
      = Inr (effective (mixed (absT t1) (absT t2) (absT t3)) sub p = Some ScopeFull)"
    "absT (snd (Tenant_UserPermissions T sub t1)) = absT t1" "absT (snd (Tenant_UserRoles T sub t2)) = absT t2"
    "invT t1" "invT t2" "invT t3" "invT (snd (Tenant_UserRoles T sub t2))"
proof -
  have keep: "invT (e1 s)" "invT (e2 s)" "invT (e3 s)" if "invT s" for s using assms(1) that by (simp_all add: rely_def)
  show i1: "invT t1" using assms(1) by (simp add: t1_def rely_def)
  obtain r1 u1 where ups: "Tenant_UserPermissions T sub t1 = (r1, u1)" by force
  have r1: "r1 = Inr (list_permissions (aUserPerm (absT t1) sub))" "absT u1 = absT t1" "invT u1"
    using refines_run[OF UserPermissions i1 ups] by (auto simp: spec_UserPermissions_def gets_apply)
  then show "absT (snd (Tenant_UserPermissions T sub t1)) = absT t1" by (simp add: ups)
  have t2: "t2 = e2 u1" by (simp add: t2_def ups)
  then show i2: "invT t2" by (simp add: keep(2) r1)
  obtain r2 u2 where rls: "Tenant_UserRoles T sub t2 = (r2, u2)" by force
  let ?roles = "sorted_list_of_set (aAssign (absT t2) sub)"
  obtain sl where r2: "r2 = Inr sl" "elems sl = ?roles" "absT u2 = absT t2" "invT u2"
    using UserRoles_run[OF i2 rls] by metis
  then show "absT (snd (Tenant_UserRoles T sub t2)) = absT t2" "invT (snd (Tenant_UserRoles T sub t2))" by (simp_all add: rls)
  have t3: "t3 = e3 u2" by (simp add: t3_def rls)
  then show i3: "invT t3" by (simp add: keep(3) r2)
  obtain r3 u3 where grs: "Tenant_RoleGrants T ?roles t3 = (r3, u3)" by force
  have "distinct ?roles" by simp
  from refinesRD[OF RoleGrants[OF this] i3] grs
  obtain gs where gs: "r3 = Inr gs" "mset gs = mset (grants_of (absT t3) ?roles)"
    by (cases r3) (auto simp: spec_RoleGrants_def gets_apply permuted_def)
  have fin: "finite (aAssign (absT t2) sub)" "finite (dom (aUserPerm (absT t1) sub))"
    using finite_tenantD[OF finite_absT] i1 i2 by simp_all
  let ?base = "user_layer (list_permissions (aUserPerm (absT t1) sub))"
  have base: "fmlookup ?base p = map_option (\<lambda>sc. \<lparr>res_scope = sc, fromUser = True, res_roles = []\<rparr>) (aUserPerm (absT t1) sub p)"
    by (rule fmlookup_user_layer) (rule fin(2))
  have gset: "set gs = {role_grant r q s |r q s. r \<in> aAssign (absT t2) sub \<and> aRolePerm (absT t3) r q = Some s}"
    using mset_eq_setD[OF gs(2)] set_grants_of[OF finite_absT[OF i3], of ?roles] fin(1) by simp
  have full: "full_grant gs p \<longleftrightarrow> (\<exists>r \<in> aAssign (absT t2) sub. aRolePerm (absT t3) r p = Some ScopeFull)"
    (is "_ \<longleftrightarrow> ?some")
  proof
    show "full_grant gs p \<Longrightarrow> ?some" by (auto simp: full_grant_def gset)
    assume ?some
    then obtain r where "r \<in> aAssign (absT t2) sub" "aRolePerm (absT t3) r p = Some ScopeFull" by blast
    then show "full_grant gs p" unfolding full_grant_def gset by (intro bexI[of _ "role_grant r p ScopeFull"]) auto
  qed
  have run: "fst (resolve (interfered_tenant T) sub (t, [e1, e2, e3])) = Inr (if ?roles = [] then ?base else fold merge_grant gs ?base)"
    using ups rls grs r1 r2 gs
    by (simp add: resolve_def eff_simps interfered_tenant_def interfered_apply found_def t1_def[symmetric] t2[symmetric] t3[symmetric] Let_def)
  have none: "full_grant gs p = False" if "?roles = []"
    using that full fin(1) by (auto simp: sorted_list_of_set_eq_Nil_iff)
  have "fst (Authorize (interfered_tenant T) sub p (t, [e1, e2, e3]))
      = Inr (case fmlookup (fold merge_grant (if ?roles = [] then [] else gs) ?base) p of None \<Rightarrow> False | Some r \<Rightarrow> res_scope r = ScopeFull)"
    using run by (cases "resolve (interfered_tenant T) sub (t, [e1, e2, e3])") (simp add: Authorize_def eff_simps split: if_splits)
  then show "fst (Authorize (interfered_tenant T) sub p (t, [e1, e2, e3]))
      = Inr (effective (mixed (absT t1) (absT t2) (absT t3)) sub p = Some ScopeFull)"
    unfolding full_after_grants base effective_full mixed_simps
    using full none by (auto simp: full_grant_def split: option.split)
qed

text \<open>
  A role is taken from a user and then allowed more. A query that has read the roles before and reads
  the grants after finds the user allowed, which they were at no time.
\<close>

lemma Authorize_race:
  assumes t: "invT t" and role: "role \<in> aRoles (absT t)" "role \<in> aAssign (absT t) sub"
    and user: "aUserPerm (absT t) sub p = None" and never: "effective (absT t) sub p \<noteq> Some ScopeFull"
  defines "revoke \<equiv> \<lambda>t. snd (UnassignRole T sub role t)"
    and "grant \<equiv> \<lambda>t. snd (Tenant_SetRolePermission T role p ScopeFull t)"
  shows "fst (Authorize (interfered_tenant T) sub p (t, [\<lambda>s. s, \<lambda>s. s, \<lambda>s. grant (revoke s)])) = Inr True"
    "effective (absT (revoke t)) sub p \<noteq> Some ScopeFull"
    "effective (absT (grant (revoke t))) sub p \<noteq> Some ScopeFull"
proof -
  have revoke: "absT (revoke s) = snd (spec_UnassignRole sub role (absT s))" "invT (revoke s)" if "invT s" for s
    using refinesD[OF UnassignRole that] by (simp_all add: revoke_def UnassignRole_def)
  have grant: "absT (grant s) = snd (spec_SetRolePermission role p ScopeFull (absT s))" "invT (grant s)" if "invT s" for s
    using refinesD[OF SetRolePermission that] by (simp_all add: grant_def)
  have rely: "rely invT (t, [\<lambda>s. s, \<lambda>s. s, \<lambda>s. grant (revoke s)])"
    using t by (simp add: rely_def revoke(2) grant(2))
  note S = Authorize_snapshots(1)[OF rely, of sub p] Authorize_snapshots(2,3,7)[OF rely, of sub]
  let ?u = "snd (Tenant_UserRoles T sub (snd (Tenant_UserPermissions T sub t)))"
  have u: "absT ?u = absT t" "absT (snd (Tenant_UserPermissions T sub t)) = absT t" "invT ?u"
    using S(2,3,4) by simp_all
  have "aRolePerm (absT (grant (revoke ?u))) role p = Some ScopeFull"
    using role by (simp add: grant(1) revoke u spec_defs eff_simps)
  then have "effective (mixed (absT t) (absT t) (absT (grant (revoke ?u)))) sub p = Some ScopeFull"
    using role(2) user by (auto simp: effective_full)
  then show "fst (Authorize (interfered_tenant T) sub p (t, [\<lambda>s. s, \<lambda>s. s, \<lambda>s. grant (revoke s)])) = Inr True"
    using S(1) u(2) by simp
  show "effective (absT (revoke t)) sub p \<noteq> Some ScopeFull" "effective (absT (grant (revoke t))) sub p \<noteq> Some ScopeFull"
    using never user role t by (auto simp: effective_full grant(1) revoke spec_defs eff_simps)
qed

end

section \<open>Who is barred stays out\<close>

text \<open>
  A user whom neither an override nor a role in \<open>R\<close> lets do \<open>p\<close>, and who has no role outside \<open>R\<close>.
  If the others leave it at that, none of their changes lets a request through that needs \<open>p\<close>.
\<close>

definition barred :: "string set \<Rightarrow> string \<Rightarrow> string \<Rightarrow> tenantA \<Rightarrow> bool" where
  "barred R sub p a \<longleftrightarrow> aUserPerm a sub p \<noteq> Some ScopeFull \<and> aAssign a sub \<subseteq> R
     \<and> (\<forall>r \<in> R. aRolePerm a r p \<noteq> Some ScopeFull)"

context tenant_store
begin

lemma query_steady:
  assumes "refinesR invT absT Rel m (gets f)" and "\<And>a x. P a \<Longrightarrow> finite_tenant a \<Longrightarrow> Rel x (f a) \<Longrightarrow> Q x"
  shows "steady (\<lambda>t. invT t \<and> P (absT t)) {} Q m"
proof (rule steadyI)
  fix t assume t: "invT t \<and> P (absT t)"
  note D = refinesRD[OF assms(1) conjunct1[OF t]]
  show "invT (snd (m t)) \<and> P (absT (snd (m t)))" using D(2,3) t by (simp add: gets_apply)
  show "e \<in> {}" if "fst (m t) = Inl e" for e using D(1) that by (simp add: gets_apply)
  show "Q x" if "fst (m t) = Inr x" for x
    using D(1) that assms(2)[of "absT t" x] t finite_absT by (simp add: gets_apply)
qed

lemma barred_Authorize:
  "steady (rely (\<lambda>t. invT t \<and> barred R sub p (absT t))) {} (\<lambda>allowed. q = p \<longrightarrow> \<not> allowed)
     (Authorize (interfered_tenant T) sub q)"
proof -
  let ?iv = "\<lambda>t. invT t \<and> barred R sub p (absT t)"
  have ups: "steady ?iv {} (\<lambda>ups. \<forall>r. fmlookup (user_layer ups) p = Some r \<longrightarrow> res_scope r \<noteq> ScopeFull \<and> fromUser r)
      (Tenant_UserPermissions T sub)"
    by (rule query_steady[OF UserPermissions[unfolded spec_UserPermissions_def]])
      (auto simp: barred_def fmlookup_user_layer finite_tenantD)
  have rls: "steady ?iv {} (\<lambda>rs. distinct (elems rs) \<and> set (elems rs) \<subseteq> R) (Tenant_UserRoles T sub)"
    by (rule query_steady[OF UserRoles[unfolded spec_UserRoles_def]]) (auto simp: barred_def finite_tenantD)
  have grs: "steady ?iv {} (\<lambda>gs. \<not> full_grant gs p) (Tenant_RoleGrants T rs)" if "distinct rs" "set rs \<subseteq> R" for rs
  proof (rule query_steady[OF RoleGrants[OF that(1), unfolded spec_RoleGrants_def]])
    fix a gs assume "barred R sub p a" "finite_tenant a" "permuted gs (grants_of a rs)"
    then show "\<not> full_grant gs p"
      using that(2) set_grants_of[of a rs] mset_eq_setD[of gs "grants_of a rs"]
      by (auto simp: full_grant_def barred_def permuted_def)
  qed
  have shut: "\<not> (case fmlookup (fold merge_grant gs (user_layer ups)) p of None \<Rightarrow> False | Some r \<Rightarrow> res_scope r = ScopeFull)"
    if "\<forall>r. fmlookup (user_layer ups) p = Some r \<longrightarrow> res_scope r \<noteq> ScopeFull \<and> fromUser r" "\<not> full_grant gs p" for ups gs
    unfolding full_after_grants using that by (auto split: option.split)
  have "steady (rely ?iv) {} (\<lambda>eff. \<not> (case fmlookup eff p of None \<Rightarrow> False | Some r \<Rightarrow> res_scope r = ScopeFull))
      (resolve (interfered_tenant T) sub)"
    unfolding resolve_def interfered_tenant_def Tenant.select_convs
  proof (intro steady_andThen[OF interfered_steady[OF ups]] steady_Let steady_andThen[OF interfered_steady[OF rls]]
      steady_if steady_andThen[OF interfered_steady[OF grs]] steady_ret)
    fix ups rs assume ups: "\<forall>r. fmlookup (user_layer ups) p = Some r \<longrightarrow> res_scope r \<noteq> ScopeFull \<and> fromUser r"
    show "\<not> (case fmlookup (user_layer ups) p of None \<Rightarrow> False | Some r \<Rightarrow> res_scope r = ScopeFull)"
      using shut[OF ups, of "[]"] by (simp add: full_grant_def)
    show "\<not> (case fmlookup (fold merge_grant gs (user_layer ups)) p of None \<Rightarrow> False | Some r \<Rightarrow> res_scope r = ScopeFull)"
      if "\<not> full_grant gs p" for gs by (rule shut[OF ups that])
  qed auto
  then show ?thesis unfolding Authorize_def by (rule steady_andThen) (auto intro: steady_ret)
qed

text \<open>The middleware stops the request whatever the handler behind it.\<close>

lemma barred_requireMeta:
  assumes "p \<in> set ops" and "rely (\<lambda>t. invT t \<and> barred R sub p (absT t)) (snd w tid)"
  shows "fst (requireMeta (interfered_tenant T) tid sub ops h w) = writeError 403"
  using assms
proof (induction ops arbitrary: w)
  case (Cons q ops)
  obtain s ts where w: "w = (s, ts)" by (cases w)
  obtain r t1 where run: "Authorize (interfered_tenant T) sub q (ts tid) = (r, t1)"
    by (cases "Authorize (interfered_tenant T) sub q (ts tid)")
  note D = steadyD[OF barred_Authorize[of R sub p q], of "ts tid", unfolded run fst_conv snd_conv]
  obtain allowed where r: "r = Inr allowed" using D(2) Cons.prems(2) by (cases r) (auto simp: w)
  have t1: "rely (\<lambda>t. invT t \<and> barred R sub p (absT t)) t1" "q = p \<longrightarrow> \<not> allowed"
    using D(1,3) Cons.prems(2) r by (auto simp: w)
  have "fst (requireMeta (interfered_tenant T) tid sub ops h (s, ts(tid := t1))) = writeError 403" if "q \<noteq> p"
    using Cons.IH[of "(s, ts(tid := t1))"] Cons.prems(1) that t1(1) by simp
  then show ?case using t1(2) by (auto simp: w at_tenant_def onSnd_apply run r)
qed simp

end

lemma serve_barred:
  assumes S: "shared_store S ivS abS" and T: "tenant_store T ivT abT" and serves: "serves S T tids (sv_stores srv)"
    and authn: "authenticator (sv_authn srv)" "sv_authn srv rq = Inr sub"
    and p: "p \<in> set (required rt)" and s: "rely ivS (fst w)"
    and t: "rely (\<lambda>t. ivT t \<and> barred R sub p (abT t)) (snd w (rq_header rq HeaderTenantID))"
  shows "fst (serve (interfered_server srv) rt rq w)
    = writeError (let tid = rq_header rq HeaderTenantID in if tid = '''' then 400 else if tid \<notin> tids then 404 else 403)"
proof -
  have rt: "rt \<noteq> Healthz" using p by auto
  have ne: "sub \<noteq> ''''" using authenticator.verified_subject[OF authn] .
  have "steady (rely ivS) {} (\<lambda>_. True) (EnsureUser (interfered_shared S) sub)"
    by (rule steady_shared.provisioning[OF steady_shared.interfered_steady_shared[OF shared_store.steady_shared_store[OF S]] ne])
  from steadyD(2)[OF this s]
  obtain s1 where run: "EnsureUser (interfered_shared S) sub (fst w) = (Inr (), s1)"
    by (cases "EnsureUser (interfered_shared S) sub (fst w)"; cases "fst (EnsureUser (interfered_shared S) sub (fst w))") auto
  note stores = servesD[OF interfered_serves[OF serves]]
  note stop = tenant_store.barred_requireMeta[OF T p, of R sub "(s1, snd w)", unfolded snd_conv, OF t]
  show ?thesis
    using stop by (simp add: serve_def rt withAuth_def authn(2) stores at_shared_def onFst_apply run withTenant_def Let_def
        answer_def del: requireMeta.simps)
qed

end
