(* ===== verification/ConcurrentAdmin.thy ===== *)
theory ConcurrentAdmin
  imports Concurrency
begin

text \<open>
  All functions of \<^verbatim>\<open>internal/service/admin.go\<close> that change a store, as threads on the shared store and
  one tenant: the checks and calls of each in the order of the code, with the other requests in
  between. The theory shows what every interleaving of them keeps. The two halves of a function do
  rely on each other: \<open>AssignRole\<close> and \<open>SetUserPermission\<close> on the user they have provisioned, the
  updates of record IDs on the permission they have seen.
\<close>

section \<open>Every function of admin.go as a thread\<close>

datatype admin_request =
    EnsureUser_q string
  | CreateResource_q string | DeleteResource_q string
  | CreateOperation_q string | EnsureOperation_q string | DeleteOperation_q string
  | CreateRole_q string | EnsureRole_q string | RenameRole_q string string | DeleteRole_q string
  | AssignRole_q string string | UnassignRole_q string string
  | SetRolePermission_q string string Scope | RemoveRolePermission_q string string
  | SetUserPermission_q string string Scope | RemoveUserPermission_q string string
  | UpdateRoleIDs_q string string "string list" "string list"
  | UpdateUserIDs_q string string "string list" "string list"

text \<open>
  The functions that change a store, on the shared store and one tenant. Each call of a store
  method is a step; the checks between two calls belong to neither.
\<close>

definition call_last :: "('x, 't) op \<Rightarrow> 't thread" where
  "call_last m = call m (\<lambda>_. Finished (Inr ()))"

fun admin_thread :: "'s Shared \<Rightarrow> 't Tenant \<Rightarrow> admin_request \<Rightarrow> ('s \<times> 't) thread" where
  "admin_thread S T (EnsureUser_q sub) =
     (if sub = '''' then Finished (Inl ErrValidation) else call_last (onFst (Shared_EnsureUser S sub)))"
| "admin_thread S T (CreateResource_q name) =
     (if name = '''' then Finished (Inl ErrValidation) else call_last (onFst (Shared_CreateResource S name)))"
| "admin_thread S T (DeleteResource_q name) = call_last (onFst (Shared_DeleteResource S name))"
| "admin_thread S T (CreateOperation_q name) =
     (let resource = OperationResource name in
      if resource = '''' then Finished (Inl ErrValidation)
      else call_last (onFst (Shared_CreateOperation S name resource)))"
| "admin_thread S T (EnsureOperation_q name) =
     (let resource = OperationResource name in
      if resource = '''' then Finished (Inl ErrValidation)
      else call_last (onFst (Shared_EnsureOperation S name resource)))"
| "admin_thread S T (DeleteOperation_q name) = call_last (onFst (Shared_DeleteOperation S name))"
| "admin_thread S T (CreateRole_q name) =
     (if name = '''' then Finished (Inl ErrValidation) else call_last (onSnd (Tenant_CreateRole T name)))"
| "admin_thread S T (EnsureRole_q name) =
     (if name = '''' then Finished (Inl ErrValidation) else call_last (onSnd (Tenant_EnsureRole T name)))"
| "admin_thread S T (RenameRole_q name newName) =
     (if newName = '''' then Finished (Inl ErrValidation)
      else call_last (onSnd (Tenant_RenameRole T name newName)))"
| "admin_thread S T (DeleteRole_q name) = call_last (onSnd (Tenant_DeleteRole T name))"
| "admin_thread S T (AssignRole_q sub roleName) =
     (if sub = '''' then Finished (Inl ErrValidation)
      else call (onFst (Shared_EnsureUser S sub)) (\<lambda>_.
           call_last (onSnd (Tenant_AssignRole T sub roleName))))"
| "admin_thread S T (UnassignRole_q sub roleName) = call_last (onSnd (Tenant_UnassignRole T sub roleName))"
| "admin_thread S T (SetRolePermission_q roleName operation scope) =
     (if \<not> Valid scope then Finished (Inl ErrValidation)
      else call (onFst (Shared_OperationExists S operation)) (\<lambda>ok.
           if \<not> ok then Finished (Inl ErrNotFound)
           else call_last (onSnd (Tenant_SetRolePermission T roleName operation scope))))"
| "admin_thread S T (RemoveRolePermission_q roleName operation) =
     call_last (onSnd (Tenant_RemoveRolePermission T roleName operation))"
| "admin_thread S T (SetUserPermission_q sub operation scope) =
     (if \<not> Valid scope then Finished (Inl ErrValidation)
      else call (onFst (Shared_OperationExists S operation)) (\<lambda>ok.
           if \<not> ok then Finished (Inl ErrNotFound)
           else if sub = '''' then Finished (Inl ErrValidation)
           else call (onFst (Shared_EnsureUser S sub)) (\<lambda>_.
                call_last (onSnd (Tenant_SetUserPermission T sub operation scope)))))"
| "admin_thread S T (RemoveUserPermission_q sub operation) =
     call_last (onSnd (Tenant_RemoveUserPermission T sub operation))"
| "admin_thread S T (UpdateRoleIDs_q roleName operation add remove) =
     call (onSnd (Tenant_HasRolePermission T roleName operation)) (\<lambda>ok.
     if \<not> ok then Finished (Inl ErrNotFound)
     else call (onSnd (Tenant_AddRoleRestrictedIDs T roleName operation add)) (\<lambda>_.
          call_last (onSnd (Tenant_RemoveRoleRestrictedIDs T roleName operation remove))))"
| "admin_thread S T (UpdateUserIDs_q sub operation add remove) =
     call (onSnd (Tenant_HasUserPermission T sub operation)) (\<lambda>ok.
     if \<not> ok then Finished (Inl ErrNotFound)
     else call (onSnd (Tenant_AddUserRestrictedIDs T sub operation add)) (\<lambda>_.
          call_last (onSnd (Tenant_RemoveUserRestrictedIDs T sub operation remove))))"

text \<open>The functions of \<open>Admin\<close> that these threads are when they run alone.\<close>

fun admin_run :: "'s Shared \<Rightarrow> 't Tenant \<Rightarrow> admin_request \<Rightarrow> (unit, 's \<times> 't) op" where
  "admin_run S T (EnsureUser_q sub) = onFst (EnsureUser S sub)"
| "admin_run S T (CreateResource_q name) = onFst (CreateResource S name)"
| "admin_run S T (DeleteResource_q name) = onFst (DeleteResource S name)"
| "admin_run S T (CreateOperation_q name) = onFst (CreateOperation S name)"
| "admin_run S T (EnsureOperation_q name) = onFst (EnsureOperation S name)"
| "admin_run S T (DeleteOperation_q name) = onFst (DeleteOperation S name)"
| "admin_run S T (CreateRole_q name) = onSnd (CreateRole T name)"
| "admin_run S T (EnsureRole_q name) = onSnd (EnsureRole T name)"
| "admin_run S T (RenameRole_q name newName) = onSnd (RenameRole T name newName)"
| "admin_run S T (DeleteRole_q name) = onSnd (DeleteRole T name)"
| "admin_run S T (AssignRole_q sub role) = AssignRole S T sub role"
| "admin_run S T (UnassignRole_q sub role) = onSnd (UnassignRole T sub role)"
| "admin_run S T (SetRolePermission_q role p sc) = SetRolePermission S T role p sc"
| "admin_run S T (RemoveRolePermission_q role p) = onSnd (RemoveRolePermission T role p)"
| "admin_run S T (SetUserPermission_q sub p sc) = SetUserPermission S T sub p sc"
| "admin_run S T (RemoveUserPermission_q sub p) = onSnd (RemoveUserPermission T sub p)"
| "admin_run S T (UpdateRoleIDs_q role p add remove) = onSnd (UpdateRoleRestrictedIDs T role p add remove)"
| "admin_run S T (UpdateUserIDs_q sub p add remove) = onSnd (UpdateUserRestrictedIDs T sub p add remove)"

lemma onFst_simps:
  "onFst (throw e) = throw e" "onFst (ret x) = ret x" "onFst (andThen m f) = andThen (onFst m) (\<lambda>x. onFst (f x))"
  "onSnd (throw e) = throw e" "onSnd (ret x) = ret x" "onSnd (andThen m f) = andThen (onSnd m) (\<lambda>x. onSnd (f x))"
  by (auto simp: fun_eq_iff eff_simps onFst_apply onSnd_apply andThen_apply split: prod.split sum.split)

lemma andThen_ret_unit: "andThen m (\<lambda>_. ret ()) = m"
  by (rule ext) (simp add: andThen_apply ret_apply split: prod.split sum.split)

lemma andThen_throw: "andThen (throw e) f = throw e"
  by (simp add: fun_eq_iff eff_simps)

lemma alone_call_last: "alone (call_last m) = m"
  by (simp add: call_last_def alone_call alone_ret andThen_ret_unit andThen_ret_right del: alone.simps)

lemma admin_thread_alone: "alone (admin_thread S T q) = admin_run S T q"
  by (cases q)
    (simp_all add: alone_call alone_call_last alone_ret admin_defs Let_def onFst_simps if_distrib[of alone]
      andThen_ret_right if_distrib[of onFst] if_distrib[of onSnd] andThen_assoc andThen_throw andThen_ret if_distrib[of "\<lambda>m. andThen m _"]
      del: alone.simps cong: if_cong)

section \<open>What every interleaving keeps\<close>

text \<open>
  \<open>roles_ok\<close> is \<open>tenant_ok\<close> without the demand that record IDs have a permission: the race at the
  end of \<open>Concurrency\<close> shows that two requests together can break that part. \<open>interleaving_ok\<close> is
  what no number of requests can break.
\<close>

definition roles_ok :: "tenantA \<Rightarrow> bool" where
  "roles_ok a \<longleftrightarrow> finite_tenant a \<and> valid_scopes a
     \<and> (\<forall>sub. aAssign a sub \<subseteq> aRoles a)
     \<and> (\<forall>r p sc. aRolePerm a r p = Some sc \<longrightarrow> r \<in> aRoles a)
     \<and> (\<forall>r p. aRoleIDs a r p \<noteq> {} \<longrightarrow> r \<in> aRoles a)"

definition ids_ok :: "tenantA \<Rightarrow> bool" where
  "ids_ok a \<longleftrightarrow> (\<forall>r p. aRoleIDs a r p \<noteq> {} \<longrightarrow> aRolePerm a r p \<noteq> None)
     \<and> (\<forall>u p. aUserIDs a u p \<noteq> {} \<longrightarrow> aUserPerm a u p \<noteq> None)"

definition interleaving_ok :: "sharedA \<times> tenantA \<Rightarrow> bool" where
  "interleaving_ok st \<longleftrightarrow> shared_ok (fst st) \<and> roles_ok (snd st) \<and> provisioned (fst st) (snd st)"

lemma tenant_ok_parts: "tenant_ok a \<longleftrightarrow> roles_ok a \<and> ids_ok a"
proof -
  have "r \<in> aRoles a" if "tenant_ok a" "aRoleIDs a r p \<noteq> {}" for r p
    using tenant_ok_missing_role(2)[OF that(1), of r] that(2) by auto
  then show ?thesis unfolding roles_ok_def ids_ok_def by (auto simp: tenant_ok_def)
qed

lemma consistent_parts: "consistent st \<longleftrightarrow> interleaving_ok st \<and> ids_ok (snd st)"
  by (auto simp: consistent_def interleaving_ok_def tenant_ok_parts)

text \<open>
  What a request may rely on once it has seen it. Nobody ever removes a user; grants and overrides
  stay as long as no request withdraws them.
\<close>

datatype fact = Provisioned string | Granted string string | Overridden string string

fun fact_holds :: "bool \<Rightarrow> sharedA \<times> tenantA \<Rightarrow> fact \<Rightarrow> bool" where
  "fact_holds b st (Provisioned sub) \<longleftrightarrow> sub \<in> aUsers (fst st)"
| "fact_holds b st (Granted role p) \<longleftrightarrow> b \<and> aRolePerm (snd st) role p \<noteq> None"
| "fact_holds b st (Overridden sub p) \<longleftrightarrow> b \<and> aUserPerm (snd st) sub p \<noteq> None"

definition known :: "bool \<Rightarrow> sharedA \<times> tenantA \<Rightarrow> fact set" where
  "known b st = {f. fact_holds b st f}"

fun withdraws :: "admin_request \<Rightarrow> bool" where
  "withdraws (RenameRole_q a b) = True"
| "withdraws (DeleteRole_q a) = True"
| "withdraws (RemoveRolePermission_q a b) = True"
| "withdraws (RemoveUserPermission_q a b) = True"
| "withdraws _ = False"

definition in_order :: "bool \<Rightarrow> sharedA \<times> tenantA \<Rightarrow> bool" where
  "in_order b st \<longleftrightarrow> interleaving_ok st \<and> (b \<longrightarrow> ids_ok (snd st))"

section \<open>Steps of the specification\<close>

text \<open>
  A call that may start when the facts \<open>K\<close> are known keeps the order and all facts, and after it those
  in \<open>Q\<close> are known as well.
\<close>

definition moves :: "bool \<Rightarrow> fact set \<Rightarrow> ('x, sharedA \<times> tenantA) op \<Rightarrow> ('x \<Rightarrow> fact set) \<Rightarrow> bool" where
  "moves b K sp Q \<longleftrightarrow> (\<forall>st. in_order b st \<and> K \<subseteq> known b st \<longrightarrow>
     in_order b (snd (sp st)) \<and> known b st \<subseteq> known b (snd (sp st))
     \<and> (\<forall>x. fst (sp st) = Inr x \<longrightarrow> Q x \<subseteq> known b (snd (sp st))))"

lemma known_subset:
  "known b st \<subseteq> known b st' \<longleftrightarrow> aUsers (fst st) \<subseteq> aUsers (fst st')
     \<and> (b \<longrightarrow> (\<forall>r p. aRolePerm (snd st) r p \<noteq> None \<longrightarrow> aRolePerm (snd st') r p \<noteq> None)
            \<and> (\<forall>u p. aUserPerm (snd st) u p \<noteq> None \<longrightarrow> aUserPerm (snd st') u p \<noteq> None))"
  (is "?l \<longleftrightarrow> ?r")
proof
  assume l: ?l
  then have "fact_holds b st f \<Longrightarrow> fact_holds b st' f" for f by (auto simp: known_def)
  from this[of "Provisioned _"] this[of "Granted _ _"] this[of "Overridden _ _"] show ?r by auto
next
  assume r: ?r
  show ?l
  proof
    fix f assume "f \<in> known b st"
    then show "f \<in> known b st'" using r by (cases f) (auto simp: known_def)
  qed
qed

lemma known_iff:
  "Provisioned sub \<in> known b st \<longleftrightarrow> sub \<in> aUsers (fst st)"
  "Granted role p \<in> known b st \<longleftrightarrow> b \<and> aRolePerm (snd st) role p \<noteq> None"
  "Overridden sub p \<in> known b st \<longleftrightarrow> b \<and> aUserPerm (snd st) sub p \<noteq> None"
  by (simp_all add: known_def)

lemma moves_shared:
  assumes "shared_step m" and "\<And>s x. fst (m s) = Inr x \<Longrightarrow> Q x \<subseteq> Provisioned ` aUsers (snd (m s))"
  shows "moves b K (onFst m) Q"
proof -
  have "Q x \<subseteq> known b (snd (m (fst st)), snd st)" if "fst (m (fst st)) = Inr x" for st x
    using assms(2)[OF that] by (auto simp: known_iff)
  then show ?thesis using assms(1)
    by (auto simp: moves_def in_order_def interleaving_ok_def shared_step_def onFst_apply known_subset
        intro: provisioned_mono)
qed

lemma shared_step_spec:
  "sub \<noteq> '''' \<Longrightarrow> shared_step (spec_EnsureUser sub)"
  "shared_step (spec_CreateResource name)" "shared_step (spec_DeleteResource name)"
  "OperationResource p \<noteq> '''' \<Longrightarrow> shared_step (spec_CreateOperation p (OperationResource p))"
  "OperationResource p \<noteq> '''' \<Longrightarrow> shared_step (spec_EnsureOperation p (OperationResource p))"
  "shared_step (spec_DeleteOperation p)" "shared_step (spec_OperationExists p)"
  by (auto simp: shared_step_def shared_ok_def finite_shared_def spec_defs eff_simps
      intro!: finite_dom_delete split: if_splits)

lemma moves_EnsureUser: "sub \<noteq> '''' \<Longrightarrow> moves b K (onFst (spec_EnsureUser sub)) (\<lambda>_. {Provisioned sub})"
  by (rule moves_shared[OF shared_step_spec(1)]) (auto simp: spec_defs eff_simps)

lemma moves_shared_only: "shared_step m \<Longrightarrow> moves b K (onFst m) (\<lambda>_. {})"
  by (rule moves_shared) simp_all

text \<open>A step of the tenant: what it must keep there.\<close>

lemma moves_tenant:
  assumes "\<And>s t. roles_ok t \<Longrightarrow> roles_ok (snd (m t))"
    and "\<And>s t. roles_ok t \<Longrightarrow> provisioned s t \<Longrightarrow> (b \<Longrightarrow> ids_ok t) \<Longrightarrow> K \<subseteq> known b (s, t) \<Longrightarrow>
       (b \<longrightarrow> ids_ok (snd (m t))) \<and> provisioned s (snd (m t)) \<and> known b (s, t) \<subseteq> known b (s, snd (m t))
       \<and> (\<forall>x. fst (m t) = Inr x \<longrightarrow> Q x \<subseteq> known b (s, snd (m t)))"
  shows "moves b K (onSnd m) Q"
  unfolding moves_def
proof (intro allI impI)
  fix st assume a: "in_order b st \<and> K \<subseteq> known b st"
  then have "roles_ok (snd st)" "provisioned (fst st) (snd st)" "b \<Longrightarrow> ids_ok (snd st)" "K \<subseteq> known b (fst st, snd st)"
    by (simp_all add: in_order_def interleaving_ok_def)
  from assms(1)[OF this(1)] assms(2)[OF this]
  show "in_order b (snd (onSnd m st)) \<and> known b st \<subseteq> known b (snd (onSnd m st))
     \<and> (\<forall>x. fst (onSnd m st) = Inr x \<longrightarrow> Q x \<subseteq> known b (snd (onSnd m st)))"
    using a by (simp add: onSnd_apply in_order_def interleaving_ok_def)
qed

lemma moves_tenant_step:
  assumes "\<And>t. roles_ok t \<Longrightarrow> roles_ok (snd (m t))" and "\<And>t. no_new_users t (snd (m t))"
    and "\<And>t. b \<Longrightarrow> ids_ok t \<Longrightarrow> ids_ok (snd (m t))"
    and "\<And>s t. known b (s, t) \<subseteq> known b (s, snd (m t))"
  shows "moves b K (onSnd m) (\<lambda>_. {})"
  using assms by (intro moves_tenant) (auto intro: provisioned_no_new)

lemma roles_okD:
  assumes "roles_ok t"
  shows "finite_tenant t" "valid_scopes t" "aAssign t sub \<subseteq> aRoles t" "aRolePerm t r p = Some sc \<Longrightarrow> r \<in> aRoles t"
    "aRoleIDs t r p \<noteq> {} \<Longrightarrow> r \<in> aRoles t"
  using assms unfolding roles_ok_def by blast+

lemma roles_ok_steps:
  assumes "roles_ok t"
  shows "roles_ok (snd (spec_CreateRole name t))" "roles_ok (snd (spec_EnsureRole name t))"
    "roles_ok (snd (spec_DeleteRole name t))" "roles_ok (snd (spec_RenameRole name newName t))"
    "roles_ok (snd (spec_AssignRole sub name t))" "roles_ok (snd (spec_UnassignRole sub name t))"
    "Valid sc \<Longrightarrow> roles_ok (snd (spec_SetRolePermission name p sc t))"
    "roles_ok (snd (spec_RemoveRolePermission name p t))"
    "Valid sc \<Longrightarrow> roles_ok (snd (spec_SetUserPermission sub p sc t))"
    "roles_ok (snd (spec_RemoveUserPermission sub p t))"
    "roles_ok (snd (spec_AddRoleRestrictedIDs name p ids t))" "roles_ok (snd (spec_RemoveRoleRestrictedIDs name p ids t))"
    "roles_ok (snd (spec_AddUserRestrictedIDs sub p ids t))" "roles_ok (snd (spec_RemoveUserRestrictedIDs sub p ids t))"
  using assms
  by (auto simp: roles_ok_def finite_tenant_def valid_scopes_def rename_in_def spec_defs eff_simps)

text \<open>The calls that neither give a user a first entry nor take a permission away.\<close>

lemma moves_plain:
  "moves b K (onSnd (spec_CreateRole name)) (\<lambda>_. {})" "moves b K (onSnd (spec_EnsureRole name)) (\<lambda>_. {})"
  "moves b K (onSnd (spec_UnassignRole sub name)) (\<lambda>_. {})"
  "Valid sc \<Longrightarrow> moves b K (onSnd (spec_SetRolePermission name p sc)) (\<lambda>_. {})"
  "moves b K (onSnd (spec_RemoveRoleRestrictedIDs name p ids)) (\<lambda>_. {})"
  "moves b K (onSnd (spec_RemoveUserRestrictedIDs sub p ids)) (\<lambda>_. {})"
  by (rule moves_tenant_step; (erule roles_ok_steps, assumption | erule roles_ok_steps)?;
      auto simp: known_subset no_new_users_def ids_ok_def spec_defs eff_simps; metis empty_iff option.distinct(1))+

text \<open>The calls that take permissions away, when nobody relies on them.\<close>

lemma moves_withdrawal:
  "moves False K (onSnd (spec_DeleteRole name)) (\<lambda>_. {})" "moves False K (onSnd (spec_RenameRole name newName)) (\<lambda>_. {})"
  "moves False K (onSnd (spec_RemoveRolePermission name p)) (\<lambda>_. {})"
  "moves False K (onSnd (spec_RemoveUserPermission sub p)) (\<lambda>_. {})"
  by (rule moves_tenant_step; (erule roles_ok_steps, assumption | erule roles_ok_steps)?;
      auto simp: known_subset no_new_users_def rename_in_def spec_defs eff_simps)+

text \<open>The calls that rest on what an earlier call has seen.\<close>

lemma moves_after:
  "Provisioned sub \<in> K \<Longrightarrow> moves b K (onSnd (spec_AssignRole sub name)) (\<lambda>_. {})"
  "Provisioned sub \<in> K \<Longrightarrow> Valid sc \<Longrightarrow> moves b K (onSnd (spec_SetUserPermission sub p sc)) (\<lambda>_. {})"
  "(b \<Longrightarrow> Granted name p \<in> K) \<Longrightarrow> moves b K (onSnd (spec_AddRoleRestrictedIDs name p ids)) (\<lambda>_. {})"
  "(b \<Longrightarrow> Overridden sub p \<in> K) \<Longrightarrow> moves b K (onSnd (spec_AddUserRestrictedIDs sub p ids)) (\<lambda>_. {})"
  by (rule moves_tenant; (erule roles_ok_steps, assumption | erule roles_ok_steps)?;
      auto simp:  known_subset known_iff provisioned_def ids_ok_def
        spec_defs eff_simps dest: subsetD)+

lemma moves_checks:
  "moves b K (onSnd (spec_HasRolePermission name p)) (\<lambda>ok. if b \<and> ok then {Granted name p} else {})"
  "moves b K (onSnd (spec_HasUserPermission sub p)) (\<lambda>ok. if b \<and> ok then {Overridden sub p} else {})"
  by (rule moves_tenant; (erule roles_ok_steps, assumption | erule roles_ok_steps)?;
      auto simp: known_subset known_iff spec_defs eff_simps split: if_splits)+


section \<open>Requests among each other\<close>

text \<open>
  A thread is safe when each of its calls keeps what is good and known, whatever the others, which do
  so as well, have done before it. What a call has seen to be known may be relied on later.
\<close>

primrec safe :: "('w \<Rightarrow> bool) \<Rightarrow> ('w \<Rightarrow> 'f set) \<Rightarrow> 'w thread \<Rightarrow> 'f set \<Rightarrow> bool" where
  "safe good kn (Finished r) = (\<lambda>K. True)"
| "safe good kn (Step f) = (\<lambda>K. \<forall>w. good w \<and> K \<subseteq> kn w \<longrightarrow>
     good (snd (f w)) \<and> kn w \<subseteq> kn (snd (f w)) \<and> fst (map_prod (safe good kn) id (f w)) (kn (snd (f w))))"

lemma safe_mono: "safe good kn th K \<Longrightarrow> K \<subseteq> K' \<Longrightarrow> safe good kn th K'"
  by (cases th) auto

lemma safe_call:
  assumes "\<And>w. good w \<Longrightarrow> K \<subseteq> kn w \<Longrightarrow> good (snd (m w)) \<and> kn w \<subseteq> kn (snd (m w))
      \<and> (\<forall>x. fst (m w) = Inr x \<longrightarrow> safe good kn (k x) (kn (snd (m w))))"
  shows "safe good kn (call m k) K"
  unfolding call_def safe.simps
proof (intro allI impI)
  fix w assume "good w \<and> K \<subseteq> kn w"
  with assms[of w] show "good (snd (case m w of (Inl e, t1) \<Rightarrow> (Finished (Inl e), t1) | (Inr x, t1) \<Rightarrow> (k x, t1)))
      \<and> kn w \<subseteq> kn (snd (case m w of (Inl e, t1) \<Rightarrow> (Finished (Inl e), t1) | (Inr x, t1) \<Rightarrow> (k x, t1)))
      \<and> fst (map_prod (safe good kn) id (case m w of (Inl e, t1) \<Rightarrow> (Finished (Inl e), t1) | (Inr x, t1) \<Rightarrow> (k x, t1)))
          (kn (snd (case m w of (Inl e, t1) \<Rightarrow> (Finished (Inl e), t1) | (Inr x, t1) \<Rightarrow> (k x, t1))))"
    by (cases "m w"; cases "fst (m w)") auto
qed

lemma safe_schedule:
  assumes "schedules (ths, w) (ths', w')" and "good w" and "\<forall>th \<in> set ths. safe good kn th (kn w)"
  shows "good w' \<and> (\<forall>th \<in> set ths'. safe good kn th (kn w'))"
  using assms
proof (induction "(ths', w')" arbitrary: ths' w' rule: rtranclp_induct)
  case (step c)
  obtain ths1 w1 where c: "c = (ths1, w1)" by force
  have IH: "good w1" "\<forall>th \<in> set ths1. safe good kn th (kn w1)" using step.hyps(3)[OF c step.prems] by simp_all
  obtain i f th' where i: "i < length ths1" "ths1 ! i = Step f" "f w1 = (th', w')" "ths' = ths1[i := th']"
    using step.hyps(2) unfolding c by (auto elim: schedE)
  have "safe good kn (Step f) (kn w1)" using IH(2) i(1,2) nth_mem by metis
  then have "good (snd (f w1)) \<and> kn w1 \<subseteq> kn (snd (f w1)) \<and> safe good kn (fst (f w1)) (kn (snd (f w1)))"
    using IH(1) by simp
  then have now: "good w'" "kn w1 \<subseteq> kn w'" "safe good kn th' (kn w')" using i(3) by simp_all
  have "safe good kn th (kn w')" if "th \<in> set ths'" for th
    using that IH(2) i(4) now safe_mono[OF _ now(2)] set_update_subset_insert[of ths1 i th'] by blast
  then show ?case using now(1) by blast
qed simp

context administration
begin

abbreviation good_pair :: "bool \<Rightarrow> 's \<times> 't \<Rightarrow> bool" where
  "good_pair b w \<equiv> both invS invT w \<and> in_order b (map_prod absS absT w)"

abbreviation known_pair :: "bool \<Rightarrow> 's \<times> 't \<Rightarrow> fact set" where
  "known_pair b w \<equiv> known b (map_prod absS absT w)"

lemma safe_refined:
  assumes "refines invP absP m sp" and "moves b K sp Q" and "\<And>x. safe (good_pair b) (known_pair b) (k x) (Q x)"
  shows "safe (good_pair b) (known_pair b) (call m k) K"
proof (rule safe_call)
  fix w assume "good_pair b w" "K \<subseteq> known_pair b w"
  then show "good_pair b (snd (m w)) \<and> known_pair b w \<subseteq> known_pair b (snd (m w))
      \<and> (\<forall>x. fst (m w) = Inr x \<longrightarrow> safe (good_pair b) (known_pair b) (k x) (known_pair b (snd (m w))))"
    using refinesD[OF assms(1), of w] assms(2)[unfolded moves_def, rule_format, of "absP w"] safe_mono[OF assms(3)]
    by simp
qed

lemma safe_last:
  assumes "\<And>w. invP w \<Longrightarrow> invP (snd (m w)) \<and> absP (snd (m w)) = snd (sp (absP w))" and "moves b K sp Q"
  shows "safe (good_pair b) (known_pair b) (call_last m) K"
  unfolding call_last_def
proof (rule safe_call)
  fix w assume "good_pair b w" "K \<subseteq> known_pair b w"
  then show "good_pair b (snd (m w)) \<and> known_pair b w \<subseteq> known_pair b (snd (m w))
      \<and> (\<forall>x. fst (m w) = Inr x \<longrightarrow> safe (good_pair b) (known_pair b) (Finished (Inr ())) (known_pair b (snd (m w))))"
    using assms(1)[of w] assms(2)[unfolded moves_def, rule_format, of "absP w"] by simp
qed

lemma safe_last_refined:
  assumes "refines invP absP m sp" and "moves b K sp Q"
  shows "safe (good_pair b) (known_pair b) (call_last m) K"
  by (rule safe_last[OF _ assms(2)]) (use refinesD[OF assms(1)] in blast)

lemma safe_remove_ids:
  "safe (good_pair b) (known_pair b) (call_last (onSnd (Tenant_RemoveRoleRestrictedIDs T role p ids))) K"
proof (rule safe_last[OF _ moves_plain(5)])
  fix w assume "invP w"
  then show "invP (snd (onSnd (Tenant_RemoveRoleRestrictedIDs T role p ids) w))
      \<and> absP (snd (onSnd (Tenant_RemoveRoleRestrictedIDs T role p ids) w))
        = snd (onSnd (spec_RemoveRoleRestrictedIDs role p ids) (absP w))"
    using RemoveRoleRestrictedIDs_state[of "snd w" role p ids] by (cases w) (simp add: onSnd_apply)
qed

lemmas safe_calls =
  safe_last_refined[OF refines_onFst[OF CreateResource] moves_shared_only[OF shared_step_spec(2)]]
  safe_last_refined[OF refines_onFst[OF DeleteResource] moves_shared_only[OF shared_step_spec(3)]]
  safe_last_refined[OF refines_onFst[OF CreateOperation] moves_shared_only[OF shared_step_spec(4)]]
  safe_last_refined[OF refines_onFst[OF EnsureOperation] moves_shared_only[OF shared_step_spec(5)]]
  safe_last_refined[OF refines_onFst[OF DeleteOperation] moves_shared_only[OF shared_step_spec(6)]]
  safe_last_refined[OF refines_onSnd[OF CreateRole] moves_plain(1)]
  safe_last_refined[OF refines_onSnd[OF EnsureRole] moves_plain(2)]
  safe_last_refined[OF refines_onSnd[OF UnassignRole] moves_plain(3)]
  safe_last_refined[OF refines_onSnd[OF SetRolePermission] moves_plain(4)]
  safe_remove_ids
  safe_last_refined[OF refines_onSnd[OF RemoveUserRestrictedIDs] moves_plain(6)]
  safe_last_refined[OF refines_onSnd[OF AssignRole] moves_after(1)]
  safe_last_refined[OF refines_onSnd[OF SetUserPermission] moves_after(2)]
  safe_last_refined[OF refines_onFst[OF EnsureUser] moves_EnsureUser]
  safe_refined[OF refines_onFst[OF EnsureUser] moves_EnsureUser]
  safe_refined[OF refines_onFst[OF OperationExists] moves_shared_only[OF shared_step_spec(7)]]
  safe_refined[OF refines_onSnd[OF HasRolePermission] moves_checks(1)]
  safe_refined[OF refines_onSnd[OF HasUserPermission] moves_checks(2)]
  safe_refined[OF refines_onSnd[OF AddRoleRestrictedIDs] moves_after(3)]
  safe_refined[OF refines_onSnd[OF AddUserRestrictedIDs] moves_after(4)]

lemmas safe_withdrawals =
  safe_last_refined[OF refines_onSnd[OF DeleteRole] moves_withdrawal(1)]
  safe_last_refined[OF refines_onSnd[OF RenameRole] moves_withdrawal(2)]
  safe_last_refined[OF refines_onSnd[OF RemoveRolePermission] moves_withdrawal(3)]
  safe_last_refined[OF refines_onSnd[OF RemoveUserPermission] moves_withdrawal(4)]

lemma admin_thread_safe:
  assumes "b \<Longrightarrow> \<not> withdraws q"
  shows "safe (good_pair b) (known_pair b) (admin_thread S T q) K"
  using assms by (cases q; cases b) (auto simp: Let_def intro!: safe_calls safe_withdrawals)

theorem requests_interleaved:
  assumes "schedules (map (admin_thread S T) qs, w) (ths', w')" and "good_pair b w" and "\<forall>q \<in> set qs. b \<longrightarrow> \<not> withdraws q"
  shows "good_pair b w'"
proof -
  have "\<forall>th \<in> set (map (admin_thread S T) qs). safe (good_pair b) (known_pair b) th (known_pair b w)"
    using assms(3) admin_thread_safe by auto
  from safe_schedule[OF assms(1,2) this] show ?thesis by blast
qed

end

end
