(* ===== verification/Spec2Isabelle.thy ===== *)
theory Spec2Isabelle
  imports Startup Policy ConcurrentAuthz ConcurrentAdmin
begin

text \<open>
  Sforza is an authorization service written in Go: a REST server that answers which operations a
  user may perform in a tenant, on which records, and lets administrators change that. A permission
  is an operation with a scope \<open>FULL\<close>, \<open>EMPTY\<close> or \<open>RESTRICTED\<close> (to listed record IDs), granted to a
  role or set for a user directly. This development models the program from the start of the process
  to the answer of a request, with both of its storage drivers, and proves what makes it correct.

  \<^bold>\<open>The parts and the theories that model them.\<close> Names are those of the source; a store type prefixes
  its methods (\<open>jsonTenant_DeleteRole\<close> is \<^verbatim>\<open>func (t *jsonTenant) DeleteRole\<close>).

  \<^item> \<open>Prelude\<close>: operations \<open>'s \<Rightarrow> (err + 'a) \<times> 's\<close> with explicit state and errors (\<open>ret\<close>, \<open>throw\<close>,
    \<open>andThen\<close>, \<open>forEach\<close>, and \<open>onFst\<close>/\<open>onSnd\<close> for functions that use two stores), their refinement
    \<open>refines\<close>, and the shared rules and collections. \<open>Utf8\<close>: byte strings read as UTF-8. \<open>GoLib\<close>: what
    is used of Go's library (\<^verbatim>\<open>slices\<close>, \<^verbatim>\<open>sort\<close>, \<^verbatim>\<open>strings\<close>, maps whose \<open>range\<close> visits the keys in any
    order).
  \<^item> \<open>Model\<close>: \<^verbatim>\<open>internal/model\<close> and the sentinel errors. \<open>StoreSpec\<close>: the interfaces \<open>Shared\<close> and
    \<open>Tenant\<close> of \<^verbatim>\<open>store.go\<close> as records of methods, their abstract states \<open>sharedA\<close> and \<open>tenantA\<close>, and
    the locales \<open>shared_store\<close> and \<open>tenant_store\<close>, which say that every method refines its
    specification.
  \<^item> \<open>JsonFile\<close>, \<open>JsonShared\<close>, \<open>JsonTenant\<close>: \<^verbatim>\<open>json.go\<close>, the data in memory, the file, and saves that may
    fail at each step. \<open>Gorm\<close>, \<open>GormShared\<close>, \<open>GormTenant\<close>: \<^verbatim>\<open>gorm.go\<close>, each method as the statements it
    sends. The ORM and the database are a parameter, a record of tables with a transaction; the
    locales \<open>shared_database\<close> and \<open>tenant_database\<close> state what the code relies on, and \<open>MemoryDb\<close> is an
    engine that meets them.
  \<^item> \<open>Authz\<close>, \<open>Admin\<close>, \<open>Sync\<close>: \<^verbatim>\<open>internal/service\<close>. \<open>Overlay\<close> is the declarative meaning of
    bootstrap files, \<open>Policy\<close> what administration does to effective permissions.
  \<^item> \<open>Auth\<close>, \<open>Config\<close>: \<^verbatim>\<open>internal/auth\<close>, \<^verbatim>\<open>internal/config\<close>. \<open>Api\<close>: the routing table, middlewares and
    handlers of \<^verbatim>\<open>internal/api\<close>; \<open>ApiCorrect\<close>: what holds of it over any stores that keep their
    contracts. \<open>JsonStores\<close> puts it on the JSON stores.
  \<^item> \<open>Backend\<close>, \<open>Drivers\<close>: \<open>Open\<close> of \<^verbatim>\<open>store.go\<close> and stores that are a file or a database each.
    \<open>Startup\<close>: \<^verbatim>\<open>cmd/sforza/main.go\<close>, from the start of the process to its exit code.
  \<^item> \<open>Concurrency\<close>: service functions as threads whose store calls interleave, and their schedules.
    \<open>ConcurrentAdmin\<close>: all functions of \<^verbatim>\<open>admin.go\<close> that change a store as threads on both stores, and
    what every interleaving of them keeps. \<open>Steady\<close>: what every function, handler and middleware needs
    of the stores to keep them in order and fail properly (the locales \<open>steady_shared\<close>, \<open>steady_tenant\<close> and \<open>steady_stores\<close>).
    \<open>Interference\<close>: stores that others change before each call, on which the same definitions
    become requests among others. \<open>ConcurrentAuthz\<close>: authorization while permissions change.

  A request goes through \<open>serve\<close>: the route, \<open>withAuth\<close>, \<open>withTenant\<close>, \<open>requireMeta\<close> and a handler, which
  calls a service function, which calls methods of the shared store and of one tenant's store. The
  state of the whole system is a \<open>world\<close>, the shared store's state and one state for each tenant.

  \<^bold>\<open>What the lemmas show.\<close> The stores refine their specification (C17, C18), so all services and the
  whole server behave as on the abstract states (C5, C19), where their meaning is stated: who may do
  what (C1 to C3, C7 to C9, C40), what stays invariant (C4, C16), which errors occur (C6, C10, C21,
  C22, C28, C37), what bootstrapping does (C10 to C15), what administration does to permissions
  (C23 to C29), and what survives a restart and what does not (C22, C32, C38, C39). C30, C31 and C33 to
  C36 are about concurrency: what no interleaving of administrative requests can break and what one
  can, how requests among others are answered, and what authorization guarantees then. C22, C29, C31,
  C32 and C36 state behaviour that the comments of the code do not lead one to expect, as does
  \<open>OperationResource_prefix_of_colon\<close>.

  \<^bold>\<open>Concurrency.\<close> A store call is atomic. Between two calls of a request the others may change the
  stores in any way that their own calls can, which the contracts restrict to keeping the
  invariant of each store. The state of a store used by others is therefore paired with the list of
  the changes made before the coming calls, and the theorems hold for all such lists (\<open>rely\<close>). Stores
  share no state, so an interleaving of whole requests is determined by what happens to each store
  between the calls.
  \<open>serve_undisturbed\<close> shows that with no changes this is the sequential program, and
  \<open>schedule_interference\<close> that what a thread returns in a schedule it returns under some list.

  \<^bold>\<open>Conventions.\<close> The text of error messages is dropped, the sentinel an error wraps is kept. Nil and
  empty maps are two values (writing to a nil map panics, the value \<open>GoPanic\<close>, which the router's
  recoverer turns into status 500). Nil and empty slices are two where a response shows which it is, the
  roles of a user (\<open>slice\<close>): for a user without roles the JSON store may return nil, which is
  encoded as \<^verbatim>\<open>null\<close>, and the SQL store never does. So responses to that one route are compared with
  nil read as empty (\<open>nil_as_empty\<close>). Elsewhere they are one value: \<open>RecordIDs\<close> makes the nil of
  \<open>UserRestrictedIDs\<close> empty before anyone sees it, and a nil list in the file is written as an empty
  array instead of \<^verbatim>\<open>null\<close>, which reads back alike. The body of a response is the value given to the
  encoder. Strings are bytes; in a JSON file every byte that is not part of valid UTF-8 is replaced
  (\<open>coerce_utf8\<close>), on writing and on reading, as \<^verbatim>\<open>encoding/json\<close> does. A map's order of iteration is
  a parameter, and the theorems hold for every order. JSON files and bodies are trees: the text
  form, duplicate keys and the case-insensitive match of field names are not modelled, nor are null
  entries for roles and users in a file edited by hand. \<open>js_dir\<close> is \<^verbatim>\<open>filepath.Dir\<close> of the store's path;
  \<open>js_faults\<close> lists the outcomes of the coming saves. A method of a JSON store is one atomic step, as
  its mutex makes it; a method of an SQL store is a sequence of statements, run without others in
  between (in a real database statements of two methods may interleave outside transactions). Every
  loop of the modelled code goes over a finite list or map, and binary search halves its range, so all
  definitions are total and no fuel is used.

  \<^bold>\<open>Hypotheses on code that is not here.\<close> A store in order (\<open>inv_shared\<close>, \<open>inv_tenant\<close>, and so \<open>json_good\<close>
  and \<open>drivers_good\<close>) is one whose coming saves succeed (\<open>saves_succeed\<close>, and \<open>holds\<close> says so of the
  files after a restart). So wherever a theorem is about stores in order and these are files, it is
  about files that can be written; what happens when a save fails is the subject of C21 and C22. A
  store in order holds in its file what it holds in memory if its names are UTF-8; C39 has that as a
  hypothesis and C32 shows why. YAML decoding, the OIDC provider and its verifier, what reading a file
  gives, environment variables and path globbing are arguments without hypotheses. Databases are
  assumed to compare and sort strings by their bytes (SQLite's default; other collations, and keys
  longer than the columns, are outside), to enforce the unique indexes, and to undo a transaction
  that fails; statements that fail for other reasons are outside the contracts. Two stores
  configured on the same file or data source are outside.

  \<^bold>\<open>Not modelled.\<close> Logging; listening and the handling of connections by \<^verbatim>\<open>net/http\<close>, and the router's
  matching of paths (requests come with their route and parameters); \<^verbatim>\<open>internal/testutil\<close>, which is fixtures of the tests; the
  deployment files and the documentation.
\<close>

section \<open>The server\<close>

text \<open>
  C1. The decision of the middlewares. On the JSON stores a request to any route but
  \<^verbatim>\<open>/healthz\<close> is rejected with the status that \<open>decide\<close> gives (401, 400, 404 or 403), leaving the
  stores as they are apart from the provisioned caller; a request that is let through has the
  response and the effect of its handler on the specification stores. The response is the same value
  but for one route: for a user without roles \<^verbatim>\<open>GET /users/{sub}/roles\<close> may answer \<^verbatim>\<open>null\<close> where the
  specification has \<^verbatim>\<open>[]\<close> (\<open>nil_as_empty\<close>). As in all theorems about a running server, being good
  includes that no save fails.
\<close>

theorem serve_decides:
  assumes "json_serves its itt tids (sv_stores srv)" and "json_good w"
    and "authenticator (sv_authn srv)" and "rt \<noteq> Healthz"
  shows "case decide tids (sv_authn srv) rt rq (json_abs w) of
      Inl code \<Rightarrow> fst (serve srv rt rq w) = writeError code
        \<and> json_abs (snd (serve srv rt rq w)) = provisioned_by (sv_authn srv) rq (json_abs w)
    | Inr (sub, tid) \<Rightarrow>
        (nil_as_empty rt (fst (serve srv rt rq w)), json_abs (snd (serve srv rt rq w)))
          = endpoint (reference_server srv) rt spec_tenant tid sub rq (provision sub (json_abs w))"
  using json.serve_decision[OF assms, of rq]
  by (auto simp: prod_eq_iff split: sum.splits prod.splits)

theorem serve_decides_witness:
  "fst (serve demo_server PostRole demo_post demo_world)
     = fst (endpoint (reference_server demo_server) PostRole spec_tenant ''t1'' ''root'' demo_post
         (provision ''root'' (json_abs demo_world)))"
  using serve_decides[OF demo_setting, of PostRole demo_post] by (simp add: demo_decides[simplified] prod_eq_iff nil_as_empty_other)

text \<open>
  C2. Authorization is enforced. If a request changes the stores beyond provisioning its caller,
  then the caller was authenticated, the tenant of the request is configured, the route is not
  one that reads, and the caller held every required meta operation with scope \<open>FULL\<close> in that tenant.
\<close>

theorem change_needs_permission:
  assumes "json_serves its itt tids (sv_stores srv)" and "json_good w" and "authenticator (sv_authn srv)"
    and "json_abs (snd (serve srv rt rq w)) \<noteq> provisioned_by (sv_authn srv) rq (json_abs w)"
    and "json_abs (snd (serve srv rt rq w)) \<noteq> json_abs w"
  shows "\<exists>sub. sv_authn srv rq = Inr sub \<and> rq_header rq HeaderTenantID \<in> tids \<and> \<not> reads rt
     \<and> permitted (abs_tenant (snd w (rq_header rq HeaderTenantID))) sub (required rt)"
  by (rule json.serve_change[OF assms(1-3) assms(4,5)])

theorem change_needs_permission_witness:
  "\<exists>sub. sv_authn demo_server demo_post = Inr sub \<and> rq_header demo_post HeaderTenantID \<in> {''t1'', ''t2''}
     \<and> \<not> reads PostRole
     \<and> permitted (abs_tenant (snd demo_world (rq_header demo_post HeaderTenantID))) sub (required PostRole)"
proof (rule change_needs_permission[OF demo_setting])
  have "abs_tenant (snd demo_world ''t1'')
      \<noteq> abs_tenant (snd (snd (serve demo_server PostRole demo_post demo_world)) ''t1'')"
    unfolding demo_posted demo_parts(4) by (simp add: meta_tenant_def no_tenant_def AdminRole_def)
  then have "snd (json_abs (snd (serve demo_server PostRole demo_post demo_world))) \<noteq> snd (json_abs demo_world)"
    by (metis all_abs_parts(2))
  then show "json_abs (snd (serve demo_server PostRole demo_post demo_world)) \<noteq> json_abs demo_world"
    "json_abs (snd (serve demo_server PostRole demo_post demo_world))
      \<noteq> provisioned_by (sv_authn demo_server) demo_post (json_abs demo_world)"
    by (auto simp: provisioned_by_def)
qed

text \<open>
  C3. Isolation of tenants. Whatever the stores do, a request other than the bootstrap refresh
  leaves the state of every tenant but the one named in its header untouched.
\<close>

theorem tenants_isolated:
  assumes "rt \<noteq> PostSync" and "x \<noteq> rq_header rq HeaderTenantID"
  shows "snd (snd (serve srv rt rq w)) x = snd w x"
  by (rule serve_isolated[OF assms])

theorem tenants_isolated_witness:
  "snd (snd (serve demo_server PostRole demo_post demo_world)) ''t2'' = snd demo_world ''t2''"
  by (rule tenants_isolated) simp_all

text \<open>
  C4. The invariant of the running server. Every state that requests can lead to from a good state, as
  long as no save fails, is good: all files are in order and hold what memory holds if that is UTF-8,
  assignments and grants belong to existing roles, record IDs to existing grants, scopes are valid,
  operations carry their registered resource, and every user with an assignment or an override is
  provisioned.
\<close>

theorem reachable_states_good:
  assumes "json_serves its itt tids (sv_stores srv)" and "json_good start" and "reachable srv start w"
  shows "json_inv w \<and> world_consistent (json_abs w)"
  using json.reachable_good[OF assms(3,1,2)] by (simp only: good_world_def)

theorem reachable_states_good_witness:
  "json_inv (snd (serve demo_server PostRole demo_post demo_world))
     \<and> world_consistent (json_abs (snd (serve demo_server PostRole demo_post demo_world)))"
  by (rule reachable_states_good[OF demo_server_serves demo_good])
    (intro reachable.served[OF reachable.started] refl)

text \<open>
  C5. The server does not depend on the driver. On the JSON stores every request gets the response
  that the same server on the specification stores gives, and the states keep corresponding. On
  \<^verbatim>\<open>GET /users/{sub}/roles\<close> a body \<^verbatim>\<open>null\<close> counts as \<^verbatim>\<open>[]\<close>; on all other routes the responses are equal.
\<close>

theorem serve_refines_reference:
  assumes "json_serves its itt tids (sv_stores srv)" and "json_good w"
  shows "serve (reference_server srv) rt rq (json_abs w)
     = (nil_as_empty rt (fst (serve srv rt rq w)), json_abs (snd (serve srv rt rq w)))"
  using answers_alikeD[OF json.serve_alike[OF assms(1)] assms(2), of rt rq] by (simp add: prod_eq_iff)

theorem serve_refines_reference_witness:
  "serve (reference_server demo_server) GetUsers demo_post (json_abs demo_world)
     = (fst (serve demo_server GetUsers demo_post demo_world),
        json_abs (snd (serve demo_server GetUsers demo_post demo_world)))"
  using serve_refines_reference[OF demo_server_serves demo_good, of GetUsers demo_post] by (simp add: nil_as_empty_other)

text \<open>
  C6. No internal errors. As long as no save fails, no request other than the bootstrap
  refresh is answered with status 500: the status is one of 200, 201, 204, 400, 401, 403, 404, 409.
\<close>

theorem no_internal_error:
  assumes "json_serves its itt tids (sv_stores srv)" and "json_good w" and "authenticator (sv_authn srv)"
    and "rt \<noteq> PostSync"
  shows "status (fst (serve srv rt rq w)) \<in> {200, 201, 204, 400, 401, 403, 404, 409}"
  using json.serve_ordinary[OF assms] by (simp only: ordinary_def)

theorem no_internal_error_witness:
  "status (fst (serve demo_server (DeleteRole_r ''ghost'') demo_post demo_world)) \<in> {200, 201, 204, 400, 401, 403, 404, 409}"
  by (rule no_internal_error[OF demo_setting]) simp

section \<open>Permission resolution\<close>

text \<open>
  C7. \<open>Authorize\<close> says yes exactly when the effective scope of the operation is \<open>FULL\<close>, where a user
  permission decides alone and otherwise the widest scope of the user's roles counts. It leaves the
  store as it is.
\<close>

theorem Authorize_correct:
  assumes "inv_tenant t" and "valid_scopes (abs_tenant t)"
  shows "fst (Authorize (json_tenant it) sub p t) = Inr (effective (abs_tenant t) sub p = Some ScopeFull)
     \<and> abs_tenant (snd (Authorize (json_tenant it) sub p t)) = abs_tenant t"
  using json.Authorize_run[OF assms] by blast

theorem Authorize_correct_witness:
  "fst (Authorize (json_tenant ascending) ''root'' MetaRoleRead (snd demo_world ''t1'')) = Inr True"
  using Authorize_correct[OF demo_tenant(1) tenant_okD(2)[OF demo_tenant(2)], of ascending "''root''" MetaRoleRead]
  by (simp add: demo_parts(4) meta_tenant_effective meta_permissions_def IsMetaOperation_iff)

text \<open>
  C8. \<open>EffectiveOperations\<close> lists every operation that has an effective scope, with that scope, once
  and sorted by name, whatever order the runtime visits the resolved map in.
\<close>

theorem EffectiveOperations_correct:
  assumes "inv_tenant t" and "valid_scopes (abs_tenant t)"
  shows "\<exists>ops. fst (EffectiveOperations order (json_tenant it) sub t) = Inr ops
     \<and> sorted (map Operation ops) \<and> distinct (map Operation ops)
     \<and> set ops = {operation_scope p sc |p sc. effective (abs_tenant t) sub p = Some sc}"
proof -
  have run: "fst (EffectiveOperations order (json_tenant it) sub t)
      = Inr (list_permissions (effective (abs_tenant t) sub))"
    by (rule json.EffectiveOperations_run(1)[OF assms])
  have fin: "finite (dom (effective (abs_tenant t) sub))"
    by (rule finite_effective[OF jt.finite_absT[OF assms(1)]])
  show ?thesis using set_list_permissions[OF fin] fin
    by (intro exI[of _ "list_permissions (effective (abs_tenant t) sub)"])
      (simp add: run map_Operation_list_permissions)
qed

theorem EffectiveOperations_correct_witness:
  "\<exists>ops. fst (EffectiveOperations descending (json_tenant ascending) ''root'' (snd demo_world ''t1'')) = Inr ops
     \<and> sorted (map Operation ops) \<and> distinct (map Operation ops)
     \<and> set ops = {operation_scope p sc |p sc. effective (abs_tenant (snd demo_world ''t1'')) ''root'' p = Some sc}"
  by (rule EffectiveOperations_correct[OF demo_tenant(1) tenant_okD(2)[OF demo_tenant(2)]])

text \<open>
  C9. \<open>RecordIDs\<close> returns, for exactly the requested operations whose effective scope is
  \<open>RESTRICTED\<close>, the sorted list of the accessible IDs: the user's own when a user permission
  decides, otherwise the union over the roles that grant \<open>RESTRICTED\<close>.
\<close>

theorem RecordIDs_correct:
  assumes "inv_tenant t" and "valid_scopes (abs_tenant t)"
  shows "\<exists>out. fst (RecordIDs (json_tenant it) sub ps t) = Inr out
     \<and> (\<forall>p. fmlookup out p = (if p \<in> set ps \<and> effective (abs_tenant t) sub p = Some ScopeRestricted
          then Some (sorted_list_of_set (accessible (abs_tenant t) sub p)) else None))"
proof -
  obtain out t1 where "RecordIDs (json_tenant it) sub ps t = (Inr out, t1)"
    "\<And>p. fmlookup out p = (if p \<in> set ps \<and> effective (abs_tenant t) sub p = Some ScopeRestricted
       then Some (sorted_list_of_set (accessible (abs_tenant t) sub p)) else None)"
    using json.RecordIDs_run[OF assms] by metis
  then show ?thesis by simp
qed

theorem RecordIDs_correct_witness:
  "\<exists>out. fst (RecordIDs (json_tenant ascending) ''root'' [MetaRoleRead] (snd demo_world ''t1'')) = Inr out
     \<and> (\<forall>p. fmlookup out p = (if p \<in> set [MetaRoleRead] \<and>
            effective (abs_tenant (snd demo_world ''t1'')) ''root'' p = Some ScopeRestricted
          then Some (sorted_list_of_set (accessible (abs_tenant (snd demo_world ''t1'')) ''root'' p)) else None))"
  by (rule RecordIDs_correct[OF demo_tenant(1) tenant_okD(2)[OF demo_tenant(2)]])

section \<open>Bootstrap\<close>

text \<open>
  C10. \<open>Sync\<close> accepts a list of files exactly if every operation name has a resource, every tenant is
  configured, roles and users have names, scopes are valid, and every role a user gets is declared in
  the same tenant of the same file or exists already (and no save fails).
\<close>

theorem Sync_accepts:
  assumes "json_serves its itt tids stores" and "json_good w"
  shows "fst (Sync ord stores fs w) = Inr () \<longleftrightarrow>
    acceptable_all tids (\<lambda>tid. aRoles (abs_tenant (snd w tid))) fs"
  by (rule json.Sync_run(1)[OF assms(1) good_shared_ok[OF assms(2)]])

theorem Sync_accepts_witness:
  "fst (Sync (\<lambda>_. descending) demo_stores [demo_file] demo_world) = Inr ()"
  using Sync_accepts[OF demo_serves demo_good, of "\<lambda>_. descending" "[demo_file]"] demo_file_acceptable by blast

text \<open>
  C11. An accepted list of files is overlaid on the stores: each file denotes a partial store (its
  resources, the operations it lists or mentions, its users, roles, assignments, grants and IDs), sets
  are united, a scope that the file names replaces the one there was, and nothing else changes.
\<close>

theorem Sync_overlays:
  assumes "json_serves its itt tids stores" and "json_good w" and "fst (Sync ord stores fs w) = Inr ()"
  shows "json_abs (snd (Sync ord stores fs w)) = overlay_files fs (json_abs w)"
  by (rule json.Sync_run(2)[OF assms(1) good_shared_ok[OF assms(2)] assms(3)])

theorem Sync_overlays_witness:
  "json_abs (snd (Sync (\<lambda>_. ascending) demo_stores [demo_file] demo_world)) = overlay_files [demo_file] (json_abs demo_world)"
  by (rule Sync_overlays[OF demo_serves demo_good demo_synced])

text \<open>
  C12. The order in which the runtime visits the maps of the files decides neither whether \<open>Sync\<close>
  succeeds nor, when it does, what it leaves. A run that fails may stop at another point and with
  another error in another order.
\<close>

theorem Sync_order_independent:
  assumes "json_serves its itt tids stores" and "json_good w"
  shows "(fst (Sync ord' stores fs w) = Inr () \<longleftrightarrow> fst (Sync ord stores fs w) = Inr ())
    \<and> (fst (Sync ord stores fs w) = Inr () \<longrightarrow>
        json_abs (snd (Sync ord' stores fs w)) = json_abs (snd (Sync ord stores fs w)))"
  using json.Sync_run(1,2)[OF assms(1) good_shared_ok[OF assms(2)]] by metis

theorem Sync_order_independent_witness:
  "json_abs (snd (Sync (\<lambda>_. descending) demo_stores [demo_file] demo_world))
     = json_abs (snd (Sync (\<lambda>_. ascending) demo_stores [demo_file] demo_world))"
  using Sync_order_independent[OF demo_serves demo_good] demo_synced by blast

text \<open>C13. \<open>Sync\<close> is idempotent: running the same files again succeeds and changes nothing.\<close>

theorem Sync_idempotent:
  assumes "json_serves its itt tids stores" and "json_good w" and "fst (Sync ord stores fs w) = Inr ()"
  shows "fst (Sync ord' stores fs (snd (Sync ord stores fs w))) = Inr ()
    \<and> json_abs (snd (Sync ord' stores fs (snd (Sync ord stores fs w)))) = json_abs (snd (Sync ord stores fs w))"
  by (rule json.Sync_again[OF assms(1) good_shared_ok[OF assms(2)] assms(3)])

theorem Sync_idempotent_witness:
  "json_abs (snd (Sync (\<lambda>_. descending) demo_stores [demo_file] (snd (Sync (\<lambda>_. ascending) demo_stores [demo_file] demo_world))))
     = json_abs (snd (Sync (\<lambda>_. ascending) demo_stores [demo_file] demo_world))"
  using Sync_idempotent[OF demo_serves demo_good demo_synced] by blast

text \<open>
  C14. \<open>Sync\<close> is additive, also when it fails halfway: it removes no user, resource, operation, role,
  assignment or record ID, and a grant or override that was there is still there (its scope may be the
  one the file names).
\<close>

theorem Sync_additive:
  assumes "json_serves its itt tids stores" and "json_good w"
  shows "below (json_abs w) (json_abs (snd (Sync ord stores fs w)))"
  by (rule json.Sync_below[OF assms(1) good_shared_ok(1)[OF assms(2)]])

theorem Sync_additive_witness:
  "fst (Sync (\<lambda>_. ascending) demo_stores [demo_file, demo_file\<lparr>bf_Operations := [''nocolon'']\<rparr>] demo_world) \<noteq> Inr ()
   \<and> below (json_abs demo_world)
      (json_abs (snd (Sync (\<lambda>_. ascending) demo_stores [demo_file, demo_file\<lparr>bf_Operations := [''nocolon'']\<rparr>] demo_world)))"
proof
  let ?files = "[demo_file, demo_file\<lparr>bf_Operations := [''nocolon'']\<rparr>]"
  have "OperationResource ''nocolon'' = []" by code_simp
  then have "\<not> acceptable_all {''t1'', ''t2''} R ?files" for R by (simp add: acceptable_def)
  then show "fst (Sync (\<lambda>_. ascending) demo_stores ?files demo_world) \<noteq> Inr ()"
    using json.Sync_run(1)[OF demo_serves good_shared_ok[OF demo_good]] by blast
qed (rule Sync_additive[OF demo_serves demo_good])

text \<open>
  C15. After \<open>BootstrapMeta\<close> the administrator holds every meta operation with scope \<open>FULL\<close> in every
  configured tenant, except where a user override of the administrator's own decides.
\<close>

theorem BootstrapMeta_admin:
  assumes "json_serves its itt tids stores" and "json_good w" and "adminSub \<noteq> ''''"
    and "tid \<in> tids" and "IsMetaOperation p" and "aUserPerm (abs_tenant (snd w tid)) adminSub p = None"
  shows "fst (Authorize (json_tenant it) adminSub p (snd (snd (BootstrapMeta ord stores adminSub w)) tid)) = Inr True"
proof -
  let ?w = "snd (BootstrapMeta ord stores adminSub w)"
  note run = json.BootstrapMeta_run[OF assms(1) good_shared_ok[OF assms(2)], where ord = ord and sub = adminSub]
  have "abs_tenant (snd ?w tid) = merge_tenant (abs_tenant (snd w tid)) (meta_tenant adminSub)"
    using arg_cong[OF run(2)[OF assms(3)], of "\<lambda>a. snd a tid"] assms(4)
    by (simp add: merge_world_parts meta_world_def)
  then have eff: "effective (abs_tenant (snd ?w tid)) adminSub p = Some ScopeFull"
    using effective_admin assms(5,6) by simp
  have "world_consistent (json_abs ?w)"
    using json.BootstrapMeta_consistent[OF assms(1) good_shared_ok(1)[OF assms(2)]] assms(2)
    by (simp add: good_world_def)
  then have "valid_scopes (abs_tenant (snd ?w tid))"
    by (simp add: world_consistent_def consistent_def tenant_okD(2))
  from json.Authorize_run(1)[OF all_invD(2)[OF run(3)] this] show ?thesis by (simp add: eff)
qed

theorem BootstrapMeta_admin_witness:
  "fst (Authorize (json_tenant ascending) ''alice'' MetaUserRead
     (snd (snd (BootstrapMeta (\<lambda>_. ascending) demo_stores ''alice'' demo_world)) ''t1'')) = Inr True"
  by (rule BootstrapMeta_admin[OF demo_serves demo_good]) (simp_all add: IsMetaOperation_iff demo_parts(4))

text \<open>
  C16. Start-up keeps the invariant, also when it fails halfway: whatever \<open>BootstrapMeta\<close> and then
  \<open>Sync\<close> return, the state they leave is good.
\<close>

theorem startup_good:
  assumes "json_serves its itt tids stores" and "json_good w"
  shows "json_good (snd (BootstrapMeta ord stores adminSub w)) \<and> json_good (snd (Sync ord stores fs w))"
  using json.BootstrapMeta_consistent[OF assms(1)] json.Sync_consistent[OF assms(1)]
    json.BootstrapMeta_run(3)[OF assms(1) good_shared_ok[OF assms(2)]]
    json.Sync_run(3)[OF assms(1) good_shared_ok[OF assms(2)]] assms(2)
  by (simp add: good_world_def)

theorem startup_good_witness:
  "json_good (snd (BootstrapMeta (\<lambda>_. ascending) demo_stores '''' demo_world))"
  using startup_good[OF demo_serves demo_good] by blast

section \<open>The stores keep their contracts\<close>

text \<open>
  The JSON store of the shared data keeps the contract of the \<open>Shared\<close> interface: from every
  state in order, each method returns what the specification returns, ends in the corresponding
  state, and leaves the store and its file in order.
\<close>

theorem json_shared_contract: "shared_store (json_shared it) inv_shared abs_shared"
  by (rule js.shared_store_axioms)

text \<open>The JSON store of a tenant keeps the contract of the \<open>Tenant\<close> interface, all 24 methods of it.\<close>

theorem json_tenant_contract: "tenant_store (json_tenant it) inv_tenant abs_tenant"
  by (rule jt.tenant_store_axioms)

text \<open>
  The SQL store of the shared data keeps the same contract on every database whose tables and
  transactions behave as documented.
\<close>

theorem gorm_shared_contract:
  assumes "shared_database ok view D"
  shows "shared_store (gorm_shared D) ok (\<lambda>d. abs_shared_rows (view d))"
  by (rule shared_database.gorm_shared_store[OF assms])

theorem gorm_shared_contract_witness:
  "shared_store (gorm_shared memory_shared) shared_tables_ok (\<lambda>d. abs_shared_rows (shared_tables_view d))"
  by (rule gorm_shared_contract[OF mem_shared.shared_database_axioms])

text \<open>
  The SQL store of a tenant keeps the contract of the \<open>Tenant\<close> interface as long as no row refers
  to a role that is not there, and no method makes one that does.
\<close>

theorem gorm_tenant_contract:
  assumes "tenant_database ok view D"
  shows "tenant_store (gorm_tenant D) (\<lambda>d. ok d \<and> no_orphans (view d)) (\<lambda>d. abs_tenant_rows (view d))"
  by (rule tenant_database.gorm_tenant_store[OF assms])

theorem gorm_tenant_contract_witness:
  "tenant_store (gorm_tenant memory_tenant) (\<lambda>d. tenant_tables_ok d \<and> no_orphans (tenant_tables_view d))
     (\<lambda>d. abs_tenant_rows (tenant_tables_view d))"
  by (rule gorm_tenant_contract[OF mem_tenant.tenant_database_axioms])

text \<open>
  C17. Both JSON stores keep the contracts of their interfaces, \<open>Shared\<close> with 11 methods and \<open>Tenant\<close>
  with 24: from every state in order, which includes that the coming saves succeed, each method
  returns what the specification returns (up to what \<open>tenant_store\<close> leaves open: nil for an empty
  list of roles, the order of grants and record IDs, and the result of removing no IDs from a missing
  role), ends in the corresponding state, and leaves the store and its file in order.
\<close>

theorem json_contracts:
  "shared_store (json_shared its) inv_shared abs_shared \<and> tenant_store (json_tenant itt) inv_tenant abs_tenant"
  by (intro conjI json_shared_contract json_tenant_contract)

text \<open>
  C18. Both SQL stores keep the same contracts on every database whose tables and transactions behave
  as documented: the tenant's as long as no row refers to a role that is not there, and no
  method makes one that does.
\<close>

theorem gorm_contracts:
  assumes "shared_database okS viewS DS" and "tenant_database okT viewT DT"
  shows "shared_store (gorm_shared DS) okS (\<lambda>d. abs_shared_rows (viewS d))
    \<and> tenant_store (gorm_tenant DT) (\<lambda>d. okT d \<and> no_orphans (viewT d)) (\<lambda>d. abs_tenant_rows (viewT d))"
  by (intro conjI gorm_shared_contract gorm_tenant_contract assms)

theorem gorm_contracts_witness:
  "shared_store (gorm_shared memory_shared) shared_tables_ok (\<lambda>d. abs_shared_rows (shared_tables_view d))
    \<and> tenant_store (gorm_tenant memory_tenant) (\<lambda>d. tenant_tables_ok d \<and> no_orphans (tenant_tables_view d))
       (\<lambda>d. abs_tenant_rows (tenant_tables_view d))"
  by (rule gorm_contracts[OF mem_shared.shared_database_axioms mem_tenant.tenant_database_axioms])

text \<open>
  C19. The driver does not show. Two servers with the same configuration, each on any mix of files and
  databases, answer a request alike when their stores stand for the same data, and their stores
  stand for the same data afterwards. There is one exception: to \<^verbatim>\<open>GET /users/{sub}/roles\<close> for a user
  without roles a file may answer \<^verbatim>\<open>null\<close> where a database answers \<^verbatim>\<open>[]\<close>, so on this route the
  two are only equal with nil read as empty (\<open>nil_as_empty\<close>, the identity on all other routes).
\<close>

theorem drivers_alike:
  assumes "drivers okS viewS DS okT viewT DT" and "drivers okS' viewS' DS' okT' viewT' DT'"
    and "serves (any_shared its DS) (any_tenant itt DT) tids (sv_stores srv)"
    and "serves (any_shared its' DS') (any_tenant itt' DT') tids' (sv_stores srv')"
    and "drivers_good okS viewS okT viewT w" and "drivers_good okS' viewS' okT' viewT' w'"
    and "drivers_abs viewS viewT w = drivers_abs viewS' viewT' w'" and "reference_server srv = reference_server srv'"
  shows "nil_as_empty rt (fst (serve srv rt rq w)) = nil_as_empty rt (fst (serve srv' rt rq w'))
    \<and> drivers_abs viewS viewT (snd (serve srv rt rq w)) = drivers_abs viewS' viewT' (snd (serve srv' rt rq w'))"
  using drivers.serve_reference[OF assms(1,3,5), of rt rq] drivers.serve_reference[OF assms(2,4,6), of rt rq] assms(7,8)
  by simp

theorem drivers_alike_witness:
  "fst (serve demo_any_server PostRole demo_post on_files) = fst (serve demo_any_server PostRole demo_post on_database)"
  using drivers_alike[OF memory.drivers_axioms memory.drivers_axioms demo_any_server_serves demo_any_server_serves
      on_files_ok(1) on_database_ok(1), of PostRole demo_post] on_files_ok(2) on_database_ok(2)
  by (simp add: nil_as_empty_other)

section \<open>Persistence\<close>

text \<open>
  C20. The sorted lists of the JSON stores. On a sorted list without repetitions, the index that
  \<open>insertSorted\<close> inserts at and the one that \<open>removeString\<close> deletes at are in range, so neither slice
  operation panics; the results are sorted without repetitions and hold the old elements and the new
  one, or the old elements without the given one.
\<close>

theorem sorted_lists_in_bounds:
  assumes "ssorted xs"
  shows "fst (BinarySearch xs v) \<le> length xs \<and> Index xs v < int (length xs)
    \<and> ssorted (insertSorted xs v) \<and> set (insertSorted xs v) = insert v (set xs)
    \<and> ssorted (fst (removeString xs v)) \<and> set (fst (removeString xs v)) = set xs - {v}
    \<and> (snd (removeString xs v) \<longleftrightarrow> v \<in> set xs)"
proof -
  have "sorted xs" using assms by (simp add: ssorted_def)
  from BinarySearch_sorted(1)[OF this, of v "fst (BinarySearch xs v)" "snd (BinarySearch xs v)"] assms
  show ?thesis by (simp add: Index_bound)
qed

theorem sorted_lists_in_bounds_witness:
  "ssorted (insertSorted [''ann'', ''cid''] ''bob'') \<and> set (insertSorted [''ann'', ''cid''] ''bob'') = {''ann'', ''bob'', ''cid''}"
  using sorted_lists_in_bounds[of "[''ann'', ''cid'']" "''bob''"] by (auto simp: ssorted_def)

text \<open>
  C21. A save is atomic, whichever of its steps fails: afterwards the backing file is the new document
  if the save reports success and the old file if it reports an error, no temporary file is left
  over, and memory is untouched. It reports an error only for the step that failed.
\<close>

theorem saveJSON_atomic:
  "js_disk (snd (saveJSON raw s)) = (if fst (saveJSON raw s) = Inr () then Doc raw else js_disk s)
   \<and> js_temps (snd (saveJSON raw s)) = js_temps s \<and> js_data (snd (saveJSON raw s)) = js_data s
   \<and> (fst (saveJSON raw s) = Inr () \<or> (\<exists>step. next_fault s = Some step \<and> fst (saveJSON raw s) = Inl (ErrIO step)))"
  by (cases rule: saveJSON_cases[of raw s]) auto

text \<open>
  C22. A failed save is not made good. When the save of a new user fails, the user is in memory but not
  in the file, and every later \<open>EnsureUser\<close> of the same user succeeds without writing: the file still
  lacks the user, so the user is lost with the next restart.
\<close>

theorem failed_save_forgotten:
  assumes "wf_shared (js_data s)" and "sub \<notin> set (sh_Users (js_data s))"
    and "fst (jsonShared_EnsureUser sub s) = Inl e"
  shows "js_disk (snd (jsonShared_EnsureUser sub s)) = js_disk s
    \<and> sub \<in> set (sh_Users (js_data (snd (jsonShared_EnsureUser sub s))))
    \<and> jsonShared_EnsureUser sub (snd (jsonShared_EnsureUser sub s)) = (Inr (), snd (jsonShared_EnsureUser sub s))"
proof -
  let ?s1 = "s\<lparr>js_data := (js_data s)\<lparr>sh_Users := insertSorted (sh_Users (js_data s)) sub\<rparr>\<rparr>"
  have run: "jsonShared_EnsureUser sub s = saveJSON (marshal_shared (js_data ?s1)) ?s1"
    using assms(2) by (simp add: jsonShared_EnsureUser_def set_Users_def jsonShared_persist_def eff_simps)
  have "sub \<in> set (sh_Users (js_data ?s1))" using assms(1) by (simp add: wf_shared_def)
  then show ?thesis
    using assms(3) unfolding run
    by (cases rule: saveJSON_cases[of "marshal_shared (js_data ?s1)" ?s1])
      (simp_all add: jsonShared_EnsureUser_def eff_simps)
qed

theorem failed_save_forgotten_witness:
  "jsonShared_EnsureUser ''ann'' (snd (jsonShared_EnsureUser ''ann'' (fresh_shared\<lparr>js_faults := [Some RenameTemp]\<rparr>)))
     = (Inr (), snd (jsonShared_EnsureUser ''ann'' (fresh_shared\<lparr>js_faults := [Some RenameTemp]\<rparr>)))"
proof -
  let ?s = "fresh_shared\<lparr>js_faults := [Some RenameTemp]\<rparr>"
  have "fst (jsonShared_EnsureUser ''ann'' ?s) = Inl (ErrIO RenameTemp)"
    by (simp add: jsonShared_EnsureUser_def set_Users_def jsonShared_persist_def eff_simps fresh_shared_def saveJSON_def
        next_fault_def Let_def)
  then show ?thesis
    using failed_save_forgotten[of ?s "''ann''"] by (simp add: fresh_shared_def wf_shared_def)
qed

section \<open>What administration means for permissions\<close>

text \<open>
  C23. Deleting a role revokes it. On every store that keeps the contract, afterwards everyone has
  the permissions and the record IDs they had without that role.
\<close>

theorem DeleteRole_revokes:
  assumes "tenant_store T ivT abT" and "ivT t" and "role \<in> aRoles (abT t)"
  shows "fst (DeleteRole T role t) = Inr ()
    \<and> effective (abT (snd (DeleteRole T role t))) sub p = effective (without_role role (abT t)) sub p
    \<and> accessible (abT (snd (DeleteRole T role t))) sub p = accessible (without_role role (abT t)) sub p"
proof -
  have "refines ivT abT (DeleteRole T role) (DeleteRole spec_tenant role)"
    using tenant_store.DeleteRole[OF assms(1)] by (simp add: DeleteRole_def)
  note run = refinesD[OF this assms(2)]
  have "fst (DeleteRole T role t) = Inr ()" using run(1) assms(3) by (simp add: DeleteRole_spec)
  then show ?thesis using DeleteRole_effect[OF assms(3)] unfolding run(2) by blast
qed

theorem DeleteRole_revokes_witness:
  "effective (abs_tenant (snd (DeleteRole (json_tenant descending) AdminRole (snd demo_world ''t1'')))) ''root'' MetaRoleRead
     = effective (without_role AdminRole (meta_tenant ''root'')) ''root'' MetaRoleRead"
  using DeleteRole_revokes[OF jt.tenant_store_axioms demo_tenant(1), of AdminRole descending "''root''" MetaRoleRead]
  by (simp add: demo_parts(4))

text \<open>
  C24. Renaming a role changes nobody's permissions: the assignments, grants and record IDs move to the
  new name.
\<close>

theorem RenameRole_keeps_permissions:
  assumes "tenant_store T ivT abT" and "ivT t" and "tenant_ok (abT t)" and "fst (RenameRole T role newName t) = Inr ()"
  shows "effective (abT (snd (RenameRole T role newName t))) sub p = effective (abT t) sub p
    \<and> accessible (abT (snd (RenameRole T role newName t))) sub p = accessible (abT t) sub p"
proof -
  have "refines ivT abT (RenameRole T role newName) (RenameRole spec_tenant role newName)"
    using tenant_store.RenameRole[OF assms(1)] by (simp add: RenameRole_def refines_throw)
  note run = refinesD[OF this assms(2)]
  show ?thesis using RenameRole_effect[OF assms(3)] run(1) assms(4) unfolding run(2) by simp
qed

theorem RenameRole_keeps_permissions_witness:
  "effective (abs_tenant (snd (RenameRole (json_tenant ascending) AdminRole ''boss'' (snd demo_world ''t1'')))) ''root'' MetaRoleRead
     = effective (abs_tenant (snd demo_world ''t1'')) ''root'' MetaRoleRead"
proof (rule RenameRole_keeps_permissions[OF jt.tenant_store_axioms demo_tenant, THEN conjunct1])
  have "refines inv_tenant abs_tenant (RenameRole (json_tenant ascending) AdminRole ''boss'') (RenameRole spec_tenant AdminRole ''boss'')"
    using jt.RenameRole by (simp add: RenameRole_def)
  then show "fst (RenameRole (json_tenant ascending) AdminRole ''boss'' (snd demo_world ''t1'')) = Inr ()"
    by (simp add: demo_run(1) RenameRole_spec AdminRole_def)
qed

text \<open>
  C25. A name that is used again starts with nothing: a role that is deleted and created again has no
  grants, no record IDs and no members, and a grant that is removed and set again has no record IDs.
\<close>

theorem nothing_left_behind:
  assumes "shared_store S ivS abS" and "tenant_store T ivT abT" and "ivS s" and "ivT t"
    and "role \<in> aRoles (abT t)" and "role \<noteq> ''''" and "aRolePerm (abT t) role p \<noteq> None"
    and "aOps (abS s) p \<noteq> None" and "Valid sc"
  shows "(let t1 = snd (CreateRole T role (snd (DeleteRole T role t))) in
      role \<in> aRoles (abT t1) \<and> aRolePerm (abT t1) role = Map.empty \<and> (\<forall>q. aRoleIDs (abT t1) role q = {})
      \<and> (\<forall>sub. role \<notin> aAssign (abT t1) sub))
    \<and> (let t2 = snd (snd (SetRolePermission S T role p sc (s, snd (RemoveRolePermission T role p t)))) in
      aRolePerm (abT t2) role p = Some sc \<and> aRoleIDs (abT t2) role p = {})"
proof -
  have admin: "administration S ivS abS T ivT abT"
    by (simp add: administration_def authorization_def assms(1,2))
  have refs: "refines ivT abT (DeleteRole T role) (DeleteRole spec_tenant role)"
    "refines ivT abT (CreateRole T role) (CreateRole spec_tenant role)"
    "refines ivT abT (RemoveRolePermission T role p) (RemoveRolePermission spec_tenant role p)"
    using tenant_store.DeleteRole[OF assms(2)] tenant_store.CreateRole[OF assms(2)] tenant_store.RemoveRolePermission[OF assms(2)]
    by (simp_all add: DeleteRole_def CreateRole_def RemoveRolePermission_def refines_throw)
  note del = refinesD[OF refs(1) assms(4)]
  note create = refinesD[OF refs(2) del(3)]
  note rem = refinesD[OF refs(3) assms(4)]
  have both: "both ivS ivT (s, snd (RemoveRolePermission T role p t))" using assms(3) rem(3) by simp
  note set_again = refinesD(2)[OF administration.SetRolePermission_refines[OF admin] both, of role p sc]
  note gone = recreated_role[OF assms(5,6)]
  have "map_prod abS abT (snd (SetRolePermission S T role p sc (s, snd (RemoveRolePermission T role p t))))
      = snd (SetRolePermission spec_shared spec_tenant role p sc (abS s, snd (RemoveRolePermission spec_tenant role p (abT t))))"
    using set_again rem(2) by simp
  then have t2: "abT (snd (snd (SetRolePermission S T role p sc (s, snd (RemoveRolePermission T role p t)))))
      = snd (snd (SetRolePermission spec_shared spec_tenant role p sc (abS s, snd (RemoveRolePermission spec_tenant role p (abT t)))))"
    by (metis snd_map_prod)
  note reset = reset_role_permission[OF assms(5,7,8,9)]
  show ?thesis
    using gone reset unfolding Let_def t2 create(2) del(2)
    by (auto simp: SetRolePermission_spec split: if_splits)
qed

theorem nothing_left_behind_witness:
  "(let t1 = snd (CreateRole (json_tenant ascending) AdminRole (snd (DeleteRole (json_tenant ascending) AdminRole (snd demo_world ''t1'')))) in
      AdminRole \<in> aRoles (abs_tenant t1) \<and> aRolePerm (abs_tenant t1) AdminRole = Map.empty
      \<and> (\<forall>q. aRoleIDs (abs_tenant t1) AdminRole q = {}) \<and> (\<forall>sub. AdminRole \<notin> aAssign (abs_tenant t1) sub))
    \<and> (let t2 = snd (snd (SetRolePermission (json_shared ascending) (json_tenant ascending) AdminRole MetaRoleRead ScopeEmpty
          (fst demo_world, snd (RemoveRolePermission (json_tenant ascending) AdminRole MetaRoleRead (snd demo_world ''t1''))))) in
      aRolePerm (abs_tenant t2) AdminRole MetaRoleRead = Some ScopeEmpty \<and> aRoleIDs (abs_tenant t2) AdminRole MetaRoleRead = {})"
proof (rule nothing_left_behind[OF js.shared_store_axioms jt.tenant_store_axioms demo_parts(1,2)])
  have "abs_shared (fst demo_world) = fst (meta_world {''t1'', ''t2''} ''root'')"
    using demo_world_ok(2) by (metis all_abs_parts(1))
  then show "aOps (abs_shared (fst demo_world)) MetaRoleRead \<noteq> None"
    by (simp add: meta_world_def merge_shared_def ops_part_def users_part_def no_shared_def IsMetaOperation_iff)
qed (simp_all add: demo_parts(4) meta_permissions_def IsMetaOperation_iff AdminRole_def)

text \<open>
  C26. A user permission decides alone, for this user and this operation only; taking it away leaves
  what the user's roles grant.
\<close>

theorem user_permission_overrides:
  assumes "shared_store S ivS abS" and "tenant_store T ivT abT" and "ivS s" and "ivT t"
    and "fst (SetUserPermission S T sub p sc (s, t)) = Inr ()"
  defines "t1 \<equiv> snd (snd (SetUserPermission S T sub p sc (s, t)))"
  shows "(\<forall>sub' p'. effective (abT t1) sub' p' = (if sub' = sub \<and> p' = p then Some sc else effective (abT t) sub' p'))
    \<and> effective (abT (snd (RemoveUserPermission T sub p t1))) sub p = widest (role_scopes (abT t) sub p)"
proof -
  have admin: "administration S ivS abS T ivT abT"
    by (simp add: administration_def authorization_def assms(1,2))
  have both: "both ivS ivT (s, t)" using assms(3,4) by simp
  note step = refinesD[OF administration.SetUserPermission_refines[OF admin] both, of sub p sc]
  have run: "fst (SetUserPermission spec_shared spec_tenant sub p sc (abS s, abT t)) = Inr ()"
    using step(1) assms(5) by simp
  have t1: "abT t1 = snd (snd (SetUserPermission spec_shared spec_tenant sub p sc (abS s, abT t)))" "ivT t1"
    using step(2,3) unfolding t1_def by (simp_all add: both_def) (metis snd_map_prod)
  have "refines ivT abT (RemoveUserPermission T sub p) (RemoveUserPermission spec_tenant sub p)"
    using tenant_store.RemoveUserPermission[OF assms(2)] by (simp add: RemoveUserPermission_def)
  note rem = refinesD[OF this t1(2)]
  have "aUserPerm (abT t1) sub p = Some sc" "role_scopes (abT t1) sub p = role_scopes (abT t) sub p"
    using run unfolding t1(1) by (auto simp: SetUserPermission_spec role_scopes_def split: if_splits)
  then have "effective (abT (snd (RemoveUserPermission T sub p t1))) sub p = widest (role_scopes (abT t) sub p)"
    using RemoveUserPermission_effect[of sub p "abT t1"] unfolding rem(2)
    by (simp add: RemoveUserPermission_def spec_RemoveUserPermission_def)
  then show ?thesis using SetUserPermission_effect[OF run] unfolding t1(1) by blast
qed


lemma demo_shared_operation: "IsMetaOperation p \<Longrightarrow> aOps (abs_shared (fst demo_world)) p \<noteq> None"
proof -
  have "abs_shared (fst demo_world) = fst (meta_world {''t1'', ''t2''} ''root'')"
    using demo_world_ok(2) by (metis all_abs_parts(1))
  then show "IsMetaOperation p \<Longrightarrow> aOps (abs_shared (fst demo_world)) p \<noteq> None"
    by (simp add: meta_world_def merge_shared_def ops_part_def users_part_def no_shared_def)
qed

theorem user_permission_overrides_witness:
  "effective (abs_tenant (snd (snd (SetUserPermission (json_shared ascending) (json_tenant ascending) ''root'' MetaRoleWrite ScopeEmpty
      (fst demo_world, snd demo_world ''t1''))))) ''root'' MetaRoleWrite = Some ScopeEmpty"
proof -
  have both: "both inv_shared inv_tenant (fst demo_world, snd demo_world ''t1'')" using demo_parts(1,2) by simp
  have "fst (SetUserPermission (json_shared ascending) (json_tenant ascending) ''root'' MetaRoleWrite ScopeEmpty
      (fst demo_world, snd demo_world ''t1'')) = Inr ()"
    using refinesD(1)[OF json.SetUserPermission_refines both, of ascending ascending "''root''" MetaRoleWrite ScopeEmpty]
      demo_shared_operation[of MetaRoleWrite]
    by (simp add: SetUserPermission_spec IsMetaOperation_iff)
  from user_permission_overrides[OF js.shared_store_axioms jt.tenant_store_axioms demo_parts(1,2) this]
  show ?thesis by simp
qed

text \<open>
  C27. Updating the record IDs of a grant adds first and removes then: an ID that is in both lists is
  gone afterwards. Without the grant nothing happens and the result is \<open>ErrNotFound\<close>; nothing else in
  the tenant changes.
\<close>

theorem UpdateRoleRestrictedIDs_effect:
  assumes "tenant_store T ivT abT" and "ivT t"
  shows "abT (snd (UpdateRoleRestrictedIDs T role p add remove t)) =
      (if role \<in> aRoles (abT t) \<and> aRolePerm (abT t) role p \<noteq> None
       then (abT t)\<lparr>aRoleIDs := (aRoleIDs (abT t))(role := (aRoleIDs (abT t) role)
              (p := (aRoleIDs (abT t) role p \<union> set add) - set remove))\<rparr>
       else abT t)
    \<and> fst (UpdateRoleRestrictedIDs T role p add remove t) =
      (if role \<in> aRoles (abT t) \<and> aRolePerm (abT t) role p \<noteq> None then Inr () else Inl ErrNotFound)"
proof -
  have "administration spec_shared finite_shared id T ivT abT"
    by (simp add: administration_def authorization_def assms(1) reference.shared_store_axioms)
  from refinesD[OF administration.UpdateRoleRestrictedIDs_refines[OF this] assms(2)]
  show ?thesis by (simp add: UpdateRoleRestrictedIDs_spec)
qed

theorem UpdateRoleRestrictedIDs_effect_witness:
  "aRoleIDs (abs_tenant (snd (UpdateRoleRestrictedIDs (json_tenant ascending) AdminRole MetaRoleRead [''1'', ''2''] [''2'', ''3'']
      (snd demo_world ''t1'')))) AdminRole MetaRoleRead = {''1''}"
  using UpdateRoleRestrictedIDs_effect[OF jt.tenant_store_axioms demo_tenant(1), of ascending AdminRole MetaRoleRead "[''1'', ''2'']" "[''2'', ''3'']"]
  by (simp add: demo_parts(4) meta_permissions_def IsMetaOperation_iff insert_Diff_if)

text \<open>
  C28. Assigning a role provisions the user first. The assignment fails with \<open>ErrValidation\<close> for an
  empty subject and with \<open>ErrNotFound\<close> for a missing role, and in the second case the user has
  been provisioned all the same.
\<close>

theorem AssignRole_outcome:
  assumes "shared_store S ivS abS" and "tenant_store T ivT abT" and "ivS s" and "ivT t"
  shows "fst (AssignRole S T sub role (s, t)) =
      (if sub = '''' then Inl ErrValidation else if role \<notin> aRoles (abT t) then Inl ErrNotFound else Inr ())
    \<and> aUsers (abS (fst (snd (AssignRole S T sub role (s, t))))) = (if sub = '''' then {} else {sub}) \<union> aUsers (abS s)
    \<and> aAssign (abT (snd (snd (AssignRole S T sub role (s, t))))) sub =
      (if sub \<noteq> '''' \<and> role \<in> aRoles (abT t) then {role} else {}) \<union> aAssign (abT t) sub"
proof -
  have admin: "administration S ivS abS T ivT abT"
    by (simp add: administration_def authorization_def assms(1,2))
  have both: "both ivS ivT (s, t)" using assms(3,4) by simp
  note step = refinesD[OF administration.AssignRole_refines[OF admin] both, of sub role]
  have "abS (fst (snd (AssignRole S T sub role (s, t)))) = fst (snd (AssignRole spec_shared spec_tenant sub role (abS s, abT t)))"
    "abT (snd (snd (AssignRole S T sub role (s, t)))) = snd (snd (AssignRole spec_shared spec_tenant sub role (abS s, abT t)))"
    using arg_cong[OF step(2), of fst] arg_cong[OF step(2), of snd] by simp_all
  then show ?thesis using step(1) by (simp add: AssignRole_spec)
qed

theorem AssignRole_outcome_witness:
  "fst (AssignRole (json_shared ascending) (json_tenant ascending) ''bob'' ''ghost'' (fst demo_world, snd demo_world ''t1'')) = Inl ErrNotFound
   \<and> ''bob'' \<in> aUsers (abs_shared (fst (snd (AssignRole (json_shared ascending) (json_tenant ascending) ''bob'' ''ghost''
        (fst demo_world, snd demo_world ''t1'')))))"
  using AssignRole_outcome[OF js.shared_store_axioms jt.tenant_store_axioms demo_parts(1,2), of ascending ascending "''bob''" "''ghost''"]
  by (simp add: demo_parts(4) AdminRole_def)

text \<open>
  C29. A grant needs a registered operation, and outlives it. \<open>SetRolePermission\<close> succeeds only for a
  valid scope, a registered operation and an existing role; but deleting the operation afterwards
  changes no tenant, so whoever was authorised by the grant still is.
\<close>

theorem grant_outlives_operation:
  assumes "shared_store S ivS abS" and "tenant_store T ivT abT" and "ivS s" and "ivT t"
  shows "(fst (SetRolePermission S T role p sc (s, t)) = Inr ()
        \<longleftrightarrow> Valid sc \<and> aOps (abS s) p \<noteq> None \<and> role \<in> aRoles (abT t))
    \<and> (let st = snd (onFst (DeleteOperation S p) (snd (SetRolePermission S T role p sc (s, t)))) in
       aOps (abS (fst st)) p = None
       \<and> aRolePerm (abT (snd st)) role p = aRolePerm (abT (snd (snd (SetRolePermission S T role p sc (s, t))))) role p)"
proof -
  have admin: "administration S ivS abS T ivT abT"
    by (simp add: administration_def authorization_def assms(1,2))
  have both: "both ivS ivT (s, t)" using assms(3,4) by simp
  note step = refinesD[OF administration.SetRolePermission_refines[OF admin] both, of role p sc]
  have s1: "ivS (fst (snd (SetRolePermission S T role p sc (s, t))))" using step(3) by (simp add: both_def)
  note del = refinesD[OF shared_store.DeleteOperation[OF assms(1)] s1, of p]
  have "fst (SetRolePermission S T role p sc (s, t)) = Inr () \<longleftrightarrow> Valid sc \<and> aOps (abS s) p \<noteq> None \<and> role \<in> aRoles (abT t)"
    using step(1) by (simp add: SetRolePermission_spec)
  moreover have "aOps (abS (snd (Shared_DeleteOperation S p (fst (snd (SetRolePermission S T role p sc (s, t))))))) p = None"
    unfolding del(2) by (auto simp: spec_defs eff_simps)
  ultimately show ?thesis by (simp add: Let_def onFst_apply DeleteOperation_def)
qed

theorem grant_outlives_operation_witness:
  "fst (SetRolePermission (json_shared ascending) (json_tenant ascending) AdminRole ''doc:read'' ScopeFull
     (fst demo_world, snd demo_world ''t1'')) \<noteq> Inr ()"
proof -
  have "abs_shared (fst demo_world) = fst (meta_world {''t1'', ''t2''} ''root'')"
    using demo_world_ok(2) by (metis all_abs_parts(1))
  then have "aOps (abs_shared (fst demo_world)) ''doc:read'' = None"
    by (simp add: meta_world_def merge_shared_def ops_part_def users_part_def no_shared_def IsMetaOperation_iff meta_names)
  then show ?thesis
    using grant_outlives_operation[OF js.shared_store_axioms jt.tenant_store_axioms demo_parts(1,2)] by blast
qed

section \<open>Concurrent requests\<close>

text \<open>
  C30. What no interleaving can break. Let any number of functions of \<^verbatim>\<open>admin.go\<close> run concurrently on the
  shared store and a tenant, their store calls interleaved in any way, from a consistent state. After
  every call the stores are in order, operations carry their registered resource, scopes are valid,
  assignments, grants and record IDs belong to existing roles, and every user with an assignment or an
  override is provisioned. If none of the functions withdraws a permission (renames or deletes a
  role, removes a grant or an override), record IDs belong to existing grants as well.
\<close>

theorem requests_keep_consistent:
  assumes "shared_store S ivS abS" and "tenant_store T ivT abT" and "ivS s" and "ivT t" and "consistent (abS s, abT t)"
    and "schedules (map (admin_thread S T) qs, (s, t)) (ths, (s', t'))"
  shows "ivS s' \<and> ivT t' \<and> interleaving_ok (abS s', abT t')
    \<and> ((\<forall>q \<in> set qs. \<not> withdraws q) \<longrightarrow> consistent (abS s', abT t'))"
proof -
  have admin: "administration S ivS abS T ivT abT"
    by (simp add: administration_def authorization_def assms(1,2))
  have "both ivS ivT (s', t') \<and> in_order b (abS s', abT t')" if "\<forall>q \<in> set qs. b \<longrightarrow> \<not> withdraws q" for b
    using administration.requests_interleaved[OF admin assms(6) _ that] assms(3-5)
    by (simp add: in_order_def consistent_parts)
  from this[of False] this[of "\<forall>q \<in> set qs. \<not> withdraws q"] show ?thesis
    by (simp add: in_order_def consistent_parts)
qed

theorem requests_keep_consistent_witness:
  "\<exists>th s' t'. sched (map (admin_thread (json_shared ascending) (json_tenant ascending))
        [AssignRole_q ''bob'' AdminRole, UpdateRoleIDs_q AdminRole MetaRoleRead [''1''] []], (fst demo_world, snd demo_world ''t1''))
      ([th, admin_thread (json_shared ascending) (json_tenant ascending) (UpdateRoleIDs_q AdminRole MetaRoleRead [''1''] [])], (s', t'))
    \<and> consistent (abs_shared s', abs_tenant t')"
proof -
  let ?th = "admin_thread (json_shared ascending) (json_tenant ascending)"
  let ?qs = "[AssignRole_q ''bob'' AdminRole, UpdateRoleIDs_q AdminRole MetaRoleRead [''1''] []]"
  obtain f where f: "?th (AssignRole_q ''bob'' AdminRole) = Step f" by (simp add: call_def)
  obtain th s' t' where run: "f (fst demo_world, snd demo_world ''t1'') = (th, (s', t'))" by (metis surj_pair)
  have s: "sched (map ?th ?qs, (fst demo_world, snd demo_world ''t1'')) ([th, ?th (UpdateRoleIDs_q AdminRole MetaRoleRead [''1''] [])], (s', t'))"
    using scheduled[of 0 "map ?th ?qs" f _ th "(s', t')"] f run by (simp del: admin_thread.simps)
  have "\<forall>q \<in> set ?qs. \<not> withdraws q" by simp
  with requests_keep_consistent[OF js.shared_store_axioms jt.tenant_store_axioms demo_parts(1,2,3) r_into_rtranclp[where r = sched, OF s]] s
  show ?thesis by blast
qed

text \<open>
  C31. The services are not atomic. There is a schedule of \<open>UpdateRoleRestrictedIDs\<close> and
  \<open>RemoveRolePermission\<close> on one role in which both succeed and the role is left with record IDs for a
  permission it no longer has, which breaks the invariant that single requests keep.
\<close>

theorem update_races_with_removal:
  assumes "tenant_store T ivT abT" and "ivT t" and "role \<in> aRoles (abT t)" and "aRolePerm (abT t) role p \<noteq> None"
    and "set add - set remove \<noteq> {}"
  shows "\<exists>t'. schedules ([update_role_ids T role p add remove, remove_role_permission T role p], t)
        ([Finished (Inr ()), Finished (Inr ())], t')
     \<and> aRolePerm (abT t') role p = None \<and> aRoleIDs (abT t') role p = set add - set remove \<and> \<not> tenant_ok (abT t')"
proof (rule tenant_store.race[OF assms(1-4), of add remove])
  fix t' assume t': "schedules ([update_role_ids T role p add remove, remove_role_permission T role p], t)
      ([Finished (Inr ()), Finished (Inr ())], t')"
    "aRolePerm (abT t') role p = None" "aRoleIDs (abT t') role p = set add - set remove"
  have "\<not> tenant_ok (abT t')" using t'(2,3) assms(5) by (auto simp: tenant_ok_def)
  then show ?thesis using t' by blast
qed

theorem update_races_with_removal_witness:
  "\<exists>t'. schedules ([update_role_ids (json_tenant ascending) AdminRole MetaRoleRead [''1''] [],
        remove_role_permission (json_tenant ascending) AdminRole MetaRoleRead], snd demo_world ''t1'')
        ([Finished (Inr ()), Finished (Inr ())], t')
     \<and> aRolePerm (abs_tenant t') AdminRole MetaRoleRead = None \<and> aRoleIDs (abs_tenant t') AdminRole MetaRoleRead = {''1''}
     \<and> \<not> tenant_ok (abs_tenant t')"
  using update_races_with_removal[OF jt.tenant_store_axioms demo_tenant(1), of AdminRole MetaRoleRead "[''1'']" "[]" ascending]
  by (simp add: demo_parts(4) meta_permissions_def IsMetaOperation_iff)

text \<open>
  C32. A subject that is not UTF-8 is accepted but not kept. Assigning a role to it succeeds, is
  saved without an error and works until the restart; but the file is JSON, in which the subject is
  another name, so a store opened on that file knows no role and no override of the subject.
\<close>

theorem invalid_name_forgotten:
  assumes "inv_tenant t" and "role \<in> aRoles (abs_tenant t)" and "role \<notin> aAssign (abs_tenant t) sub" and "\<not> valid_utf8 sub"
  shows "fst (jsonTenant_AssignRole sub role t) = Inr ()
    \<and> role \<in> aAssign (abs_tenant (snd (jsonTenant_AssignRole sub role t))) sub
    \<and> (\<exists>t2. openJSONTenant (js_dir t) (js_disk (snd (jsonTenant_AssignRole sub role t))) [] = Inr t2
        \<and> aAssign (abs_tenant t2) sub = {} \<and> aUserPerm (abs_tenant t2) sub = Map.empty)"
proof -
  note run = refinesD[OF jt_AssignRole assms(1), of sub role]
  obtain d where "load_tenant (js_disk (snd (jsonTenant_AssignRole sub role t))) = Inr d"
    "aAssign (view_tenant d) sub = {}" "aUserPerm (view_tenant d) sub = Map.empty"
    by (rule AssignRole_forgotten[OF assms])
  then show ?thesis using run(1,2) assms(2) by (simp add: openJSONTenant_def abs_tenant_def spec_defs eff_simps)
qed

theorem invalid_name_forgotten_witness:
  "fst (jsonTenant_AssignRole [char_of (255 :: nat)] AdminRole (snd demo_world ''t1'')) = Inr ()
    \<and> (\<exists>t2. openJSONTenant (js_dir (snd demo_world ''t1''))
          (js_disk (snd (jsonTenant_AssignRole [char_of (255 :: nat)] AdminRole (snd demo_world ''t1'')))) [] = Inr t2
        \<and> aAssign (abs_tenant t2) [char_of (255 :: nat)] = {})"
proof -
  have "\<not> valid_utf8 [char_of (255 :: nat)]" by (rule not_ascii_byte) (simp add: byte_def)
  moreover have "[char_of (255 :: nat)] \<noteq> ''root''" by simp
  ultimately show ?thesis
    using invalid_name_forgotten[OF demo_tenant(1), of AdminRole "[char_of (255 :: nat)]"] by (auto simp: demo_parts(4))
qed

text \<open>
  C33. Requests do not break each other. Whatever other requests do to the stores between two store
  calls of a request, if they leave the stores in order, so does this one; it is answered, and with
  an internal error only on the route of the bootstrap refresh.
\<close>

theorem answered_among_others:
  assumes "shared_store S ivS abS" and "tenant_store T ivT abT" and "serves S T tids (sv_stores srv)"
    and "authenticator (sv_authn srv)" and "rely ivS (fst w)" and "\<forall>tid. rely ivT (snd w tid)"
  shows "rely ivS (fst (snd (serve (interfered_server srv) rt rq w)))
    \<and> (\<forall>tid. rely ivT (snd (snd (serve (interfered_server srv) rt rq w)) tid))
    \<and> status (fst (serve (interfered_server srv) rt rq w)) \<in>
        {200, 201, 204, 400, 401, 403, 404, 409} \<union> (if rt = PostSync then {500} else {})"
proof -
  have "all_inv (rely ivS) (rely ivT) w" using assms(5,6) by (cases w) (simp add: all_inv_def)
  from properD[OF steady_stores.serve_interfered[OF steady_from_contracts[OF assms(1,2)] assms(3,4)] this, of rt rq]
  show ?thesis by (auto simp: ordinary_def all_inv_def case_prod_beta split: if_splits)
qed

lemma demo_interference:
  "rely inv_shared (fst demo_world, [])"
  "rely inv_tenant (snd demo_world tid, [\<lambda>t. snd (jsonTenant_DeleteRole ascending role t)])"
proof -
  have "inv_tenant (snd (jsonTenant_DeleteRole ascending role t))" if "inv_tenant t" for t
    using refinesD(3)[OF jt_DeleteRole that] .
  then show "rely inv_tenant (snd demo_world tid, [\<lambda>t. snd (jsonTenant_DeleteRole ascending role t)])"
    by (simp add: rely_def demo_parts(2))
qed (simp add: rely_def demo_parts(1))

theorem answered_among_others_witness:
  "status (fst (serve (interfered_server demo_server) (PutRolePermission AdminRole MetaRoleRead) demo_post
      ((fst demo_world, []), \<lambda>tid. (snd demo_world tid, [\<lambda>t. snd (jsonTenant_DeleteRole ascending AdminRole t)]))))
    \<in> {200, 201, 204, 400, 401, 403, 404, 409}"
  using answered_among_others[OF js.shared_store_axioms jt.tenant_store_axioms demo_server_serves demo_server_authn,
      of "((fst demo_world, []), \<lambda>tid. (snd demo_world tid, [\<lambda>t. snd (jsonTenant_DeleteRole ascending AdminRole t)]))"
        "PutRolePermission AdminRole MetaRoleRead" demo_post] demo_interference
  by simp




text \<open>
  C35. What \<open>Authorize\<close> answers while permissions change. Its three reads may find three states; the answer is
  the one for the overrides of the first, the assignments of the second and the grants of the third.
  So it is right for the state of the third read whenever the user's override and roles are
  then still what the earlier reads found.
\<close>

theorem Authorize_among_others:
  fixes sub :: string
  assumes "tenant_store T ivT abT" and "rely ivT (t, [e1, e2, e3])"
  defines "t1 \<equiv> e1 t"
  defines "t2 \<equiv> e2 (snd (Tenant_UserPermissions T sub t1))"
  defines "t3 \<equiv> e3 (snd (Tenant_UserRoles T sub t2))"
  shows "fst (Authorize (interfered_tenant T) sub p (t, [e1, e2, e3]))
      = Inr (effective (mixed (abT t1) (abT t2) (abT t3)) sub p = Some ScopeFull)
    \<and> (aUserPerm (abT t1) sub p = aUserPerm (abT t3) sub p \<and> aAssign (abT t2) sub = aAssign (abT t3) sub \<longrightarrow>
      fst (Authorize (interfered_tenant T) sub p (t, [e1, e2, e3])) = Inr (effective (abT t3) sub p = Some ScopeFull))"
proof -
  have run: "fst (Authorize (interfered_tenant T) sub p (t, [e1, e2, e3]))
      = Inr (effective (mixed (abT t1) (abT t2) (abT t3)) sub p = Some ScopeFull)"
    unfolding t1_def t2_def t3_def by (rule tenant_store.Authorize_snapshots(1)[OF assms(1,2)])
  moreover have "effective (mixed (abT t1) (abT t2) (abT t3)) sub p = Some ScopeFull
      \<longleftrightarrow> effective (abT t3) sub p = Some ScopeFull"
    if "aUserPerm (abT t1) sub p = aUserPerm (abT t3) sub p" "aAssign (abT t2) sub = aAssign (abT t3) sub"
    using that by (simp only: effective_full mixed_simps)
  ultimately show ?thesis by simp
qed

theorem Authorize_among_others_witness:
  "fst (Authorize (interfered_tenant (json_tenant ascending)) ''root'' MetaRoleRead
     (snd demo_world ''t1'', [\<lambda>t. t, \<lambda>t. t, \<lambda>t. snd (jsonTenant_DeleteRole ascending AdminRole t)])) = Inr False"
proof -
  let ?t2 = "snd (Tenant_UserPermissions (json_tenant ascending) ''root'' (snd demo_world ''t1''))"
  let ?t3 = "snd (Tenant_UserRoles (json_tenant ascending) ''root'' ?t2)"
  have r: "rely inv_tenant (snd demo_world ''t1'', [\<lambda>t. t, \<lambda>t. t, \<lambda>t. snd (jsonTenant_DeleteRole ascending AdminRole t)])"
    using demo_interference(2)[of "''t1''" AdminRole] by (simp add: rely_def)
  have t2: "abs_tenant ?t2 = meta_tenant ''root''" "inv_tenant ?t2"
    using demo_run(2,3)[OF jt.UserPermissions, of ascending "''root''"]
    by (simp_all add: spec_UserPermissions_def gets_apply)
  have t3: "abs_tenant ?t3 = meta_tenant ''root''" "inv_tenant ?t3"
    using jt.UserRoles_run[OF t2(2) surjective_pairing, of ascending "''root''"] t2(1) by metis+
  have "aRolePerm (abs_tenant (snd (jsonTenant_DeleteRole ascending AdminRole ?t3))) AdminRole MetaRoleRead = None"
    using refinesD(2)[OF jt_DeleteRole[of ascending AdminRole], where s = "?t3"] t3 by (simp add: spec_defs eff_simps)
  then have "effective (mixed (meta_tenant ''root'') (meta_tenant ''root'')
      (abs_tenant (snd (jsonTenant_DeleteRole ascending AdminRole ?t3)))) ''root'' MetaRoleRead \<noteq> Some ScopeFull"
    by (simp add: effective_full)
  then show ?thesis
    using conjunct1[OF Authorize_among_others[where sub = "''root''" and p = MetaRoleRead,
        OF jt.tenant_store_axioms[of ascending] r]]
    by (simp only: t2(1) demo_parts(4))
qed

text \<open>
  C36. \<open>Authorize\<close> can allow what was allowed at no time. While it runs, a role is taken from the user
  and then granted the operation; each step leaves the user without the permission, and the answer
  is yes, because the roles were read before the first step and the grants after the second.
\<close>

theorem authorization_race:
  assumes "tenant_store T ivT abT" and "ivT t" and "role \<in> aRoles (abT t)" and "role \<in> aAssign (abT t) sub"
    and "aUserPerm (abT t) sub p = None" and "effective (abT t) sub p \<noteq> Some ScopeFull"
  defines "revoke \<equiv> \<lambda>t. snd (UnassignRole T sub role t)"
    and "grant \<equiv> \<lambda>t. snd (Tenant_SetRolePermission T role p ScopeFull t)"
  shows "fst (Authorize (interfered_tenant T) sub p (t, [\<lambda>s. s, \<lambda>s. s, \<lambda>s. grant (revoke s)])) = Inr True
    \<and> effective (abT t) sub p \<noteq> Some ScopeFull \<and> effective (abT (revoke t)) sub p \<noteq> Some ScopeFull
    \<and> effective (abT (grant (revoke t))) sub p \<noteq> Some ScopeFull"
  unfolding revoke_def grant_def
  by (intro conjI tenant_store.Authorize_race[OF assms(1-6)] assms(6))

theorem authorization_race_witness:
  "fst (Authorize (interfered_tenant (json_tenant ascending)) ''root'' ''doc:read'' (snd demo_world ''t1'',
      [\<lambda>s. s, \<lambda>s. s, \<lambda>s. snd (Tenant_SetRolePermission (json_tenant ascending) AdminRole ''doc:read'' ScopeFull
         (snd (UnassignRole (json_tenant ascending) ''root'' AdminRole s)))])) = Inr True"
proof -
  have "effective (meta_tenant ''root'') ''root'' ''doc:read'' \<noteq> Some ScopeFull"
    by (simp add: meta_tenant_effective meta_permissions_def IsMetaOperation_iff meta_names)
  then show ?thesis
    by (intro conjunct1[OF authorization_race[OF jt.tenant_store_axioms demo_tenant(1)]]) (simp_all add: demo_parts(4))
qed

section \<open>Configuration and start-up\<close>

text \<open>
  C37. A configuration is accepted exactly when the file can be read, its text after the expansion of
  environment variables is valid YAML, and, with the defaults filled in, it is complete: an issuer
  unless authentication is off, a supported driver and a data source for the shared store and for
  every tenant, at least one tenant, and an administrator.
\<close>

theorem Load_accepts_iff:
  "Load it readFile getenv unmarshal path = Inr cfg \<longleftrightarrow>
     (\<exists>raw c. readFile path = Inr raw \<and> unmarshal (expand getenv raw) = Inr c \<and> cfg = applyDefaults c \<and> config_ok cfg)"
  by (cases "readFile path") (auto simp: Load_def Parse_accepts_iff)

text \<open>
  With an accepted configuration, opening the stores fails only if the outside world does: a file
  that cannot be read or parsed, a database that cannot be opened or migrated. Never because of the
  name of a driver.
\<close>

theorem Open_fails_outside:
  assumes "config_ok cfg" and "Open it its itt DS DT pf (Config_Storage cfg) = Inl e"
  shows "\<exists>e'. e \<in> {OpenShared (OpenFailed e'), OpenShared (MigrateFailed e')}
      \<union> {OpenTenant tid (OpenFailed e') |tid. tid \<in> configured (Config_Storage cfg)}
      \<union> {OpenTenant tid (MigrateFailed e') |tid. tid \<in> configured (Config_Storage cfg)}"
proof -
  have ok: "driver_ok (Driver (Storage_Shared (Config_Storage cfg)))"
    "map_get (Storage_Tenants (Config_Storage cfg)) tid = Some c \<Longrightarrow> driver_ok (Driver c)" for tid c
    using assms(1) by (auto simp: config_ok_def db_ok_def)
  show ?thesis using Open_error[OF assms(2)]
    by (auto simp: configured_def dest!: openShared_error[OF _ ok(1)] dest: openTenant_error ok(2))
qed


theorem Open_fails_outside_witness:
  "\<exists>e e'. Open ascending ascending ascending memory_shared memory_tenant (demo_platform\<lparr>pf_file := (\<lambda>_. Unreadable)\<rparr>)
        (Config_Storage (applyDefaults demo_config)) = Inl e
     \<and> e \<in> {OpenShared (OpenFailed e'), OpenShared (MigrateFailed e')}
      \<union> {OpenTenant tid (OpenFailed e') |tid. tid \<in> configured (Config_Storage (applyDefaults demo_config))}
      \<union> {OpenTenant tid (MigrateFailed e') |tid. tid \<in> configured (Config_Storage (applyDefaults demo_config))}"
proof -
  have open_: "Open ascending ascending ascending memory_shared memory_tenant (demo_platform\<lparr>pf_file := (\<lambda>_. Unreadable)\<rparr>)
        (Config_Storage (applyDefaults demo_config)) = Inl (OpenShared (OpenFailed (ErrIO ReadFile)))"
    by (simp add: applyDefaults_keeps Open_def openShared_def openJSONShared_def load_shared_def loadJSON_def
        demo_config_def demo_platform_def)
  from Open_fails_outside[OF Load_ok[OF demo_loaded] open_] open_ show ?thesis by blast
qed

text \<open>
  C38. When the start succeeds, and with what. Once the configuration is accepted, the stores are open
  on good data, the bootstrap files load and the authenticator can be made, \<open>run\<close> starts the server
  exactly if the files are acceptable to stores that hold Sforza's own model; and the server starts
  on the opened data with that model and then the files overlaid. Good data includes that the
  coming saves succeed.
\<close>

theorem start_succeeds:
  assumes "drivers okS viewS DS okT viewT DT"
    and "Load (ps_order ps) (os_readFile ps) (os_getenv ps) (yaml_config ps) path = Inr cfg"
    and "Open (ps_order ps) its itt DS DT (ps_platform ps) (Config_Storage cfg) = Inr (stores, w0)"
    and "drivers_good okS viewS okT viewT w0"
    and "LoadBootstrapFiles (fp_glob ps) (os_readBootstrap ps) (yaml_bootstrap ps) (Files (Config_Bootstrap cfg)) = Inr files"
    and "choose_authenticator ps (Config_Auth cfg) = Inr authn"
  defines "start \<equiv> merge_world (drivers_abs viewS viewT w0) (meta_world (configured (Config_Storage cfg)) (AdminSub (Config_Bootstrap cfg)))"
  shows "if acceptable_all (configured (Config_Storage cfg)) (\<lambda>tid. aRoles (snd start tid)) files
    then \<exists>w. run its itt DS DT ps path = (Inr (New ps cfg stores authn), Some w)
      \<and> drivers_good okS viewS okT viewT w \<and> drivers_abs viewS viewT w = overlay_files files start
    else \<exists>e w. run its itt DS DT ps path = (Inl (ServiceError e), Some w) \<and> drivers_good okS viewS okT viewT w"
  unfolding start_def by (rule drivers.run_result[OF assms(1-6)])

theorem start_succeeds_witness:
  "\<exists>srv w. run ascending ascending memory_shared memory_tenant demo_process ''sforza.yaml'' = (Inr srv, Some w)
     \<and> memory.any.good w"
proof -
  obtain stores w0 where opened:
    "Open (ps_order demo_process) ascending ascending memory_shared memory_tenant (ps_platform demo_process)
       (Config_Storage demo_config) = Inr (stores, w0)" "memory.any.good w0"
    by (rule demo_opened)
  have files: "LoadBootstrapFiles (fp_glob demo_process) (os_readBootstrap demo_process) (yaml_bootstrap demo_process)
      (Files (Config_Bootstrap (applyDefaults demo_config))) = Inr []"
    by (simp add: LoadBootstrapFiles_def applyDefaults_keeps demo_config_def)
  have authn: "choose_authenticator demo_process (Config_Auth (applyDefaults demo_config)) = Inr (Static_Authenticate ''test-user'')"
    by (simp add: choose_authenticator_def applyDefaults_def demo_config_def IsEnabled_def Let_def)
  from start_succeeds[OF memory.drivers_axioms demo_loaded _ opened(2) files authn, of ascending ascending stores "''sforza.yaml''"]
    opened(1)
  show ?thesis by (auto simp: applyDefaults_keeps)
qed

text \<open>
  C39. Restarts lose nothing, as long as no save has failed and all names are UTF-8. Whatever requests a
  server has answered since it started on good data, which includes that its files could be written,
  if the configured files and databases hold the state it left, and the names in the data of the files
  are UTF-8, then opening the stores again succeeds, and they stand for the same data: the shared data
  and those of every tenant still configured. (C22 and C32 show what is lost otherwise.)
\<close>

theorem restart_keeps_everything:
  assumes "drivers okS viewS DS okT viewT DT"
    and "serves (any_shared its DS) (any_tenant itt DT) tids (sv_stores srv)"
    and "drivers_good okS viewS okT viewT start" and "reachable srv start w" and "holds pf cfg w"
    and "utf8_world (configured cfg) w"
  shows "\<exists>stores w'. Open it its itt DS DT pf cfg = Inr (stores, w') \<and> drivers_good okS viewS okT viewT w'
    \<and> drivers_abs viewS viewT w' = (fst (drivers_abs viewS viewT w),
        \<lambda>tid. if tid \<in> configured cfg then snd (drivers_abs viewS viewT w) tid else no_tenant)"
proof -
  have "drivers_good okS viewS okT viewT w" by (rule drivers.reachable_any_good[OF assms(1,4,2,3)])
  then obtain stores w' where "Open it its itt DS DT pf cfg = Inr (stores, w')" "drivers_good okS viewS okT viewT w'"
    "drivers_abs viewS viewT w' = (on_backend abs_shared (\<lambda>d. abs_shared_rows (viewS d)) (fst w),
        \<lambda>tid. if tid \<in> configured cfg then on_backend abs_tenant (\<lambda>d. abs_tenant_rows (viewT d)) (snd w tid) else no_tenant)"
    by (rule drivers.restart[OF assms(1) _ assms(5,6), where it = it and its = its and itt = itt]) blast
  then show ?thesis by (intro exI conjI) (simp_all only: all_abs_parts)
qed

theorem restart_keeps_everything_witness:
  "\<exists>stores w'. Open descending ascending ascending memory_shared memory_tenant demo_platform (Config_Storage demo_config)
      = Inr (stores, w') \<and> memory.any.absW w' = (no_shared, \<lambda>_. no_tenant)"
proof -
  let ?w = "(FileStore fresh_shared, \<lambda>tid. if tid = ''t2'' then SqlStore no_rows else FileStore fresh_tenant)"
  have fresh: "fresh_world ?w" by (simp add: fresh_world_def)
  have t2: "openGorm (pf_gorm demo_platform) \<lparr>Driver = ''SQLite'', DSN = ''t2.db''\<rparr> = Inr ()"
    "AutoMigrate_tenant (pf_gorm demo_platform) () = Inr no_rows"
    by (simp_all add: openGorm_def demo_platform_def)
  have files: "pf_file demo_platform x = NoFile" "pf_faults demo_platform x = []" for x
    by (simp_all add: demo_platform_def)
  have utf8: "utf8_world (configured (Config_Storage demo_config)) ?w"
    by (simp add: utf8_world_def fresh_shared_def fresh_tenant_def utf8_shared_def utf8_tenant_def)
  have "holds demo_platform (Config_Storage demo_config) ?w"
    unfolding holds_def demo_storage
    by (simp add: t2 files fresh_shared_def fresh_tenant_def) (simp add: demo_config_def)
  from restart_keeps_everything[OF memory.drivers_axioms demo_any_server_serves fresh_world_good(1)[OF fresh]
      reachable.started this utf8, of descending, unfolded fresh_world_good(2)[OF fresh] fst_conv snd_conv if_cancel]
  show ?thesis by blast
qed

section \<open>Names and callers\<close>

text \<open>
  The resource of an operation is what precedes the first colon, and there is none without a
  colon. Nothing is asked of the part after it, so an operation with an empty action is
  accepted.
\<close>

theorem OperationResource_prefix_of_colon:
  "OperationResource p = (if CHR '':'' \<in> set p then takeWhile (\<lambda>c. c \<noteq> CHR '':'') p else '''')
   \<and> OperationResource ''product:'' = ''product''"
proof -
  have "OperationResource p = takeWhile (\<lambda>c. c \<noteq> CHR '':'') p" if "CHR '':'' \<in> set p"
  proof -
    obtain r a where p: "p = r @ CHR '':'' # a" "CHR '':'' \<notin> set r"
      using split_list_first[of "CHR '':''" p] \<open>CHR '':'' \<in> set p\<close> by blast
    have "takeWhile (\<lambda>c. c \<noteq> CHR '':'') (r @ CHR '':'' # a) = r" using p(2) by (auto simp: takeWhile_append)
    then show ?thesis using OperationResource_append[OF p(2), of a] p(1) by simp
  qed
  moreover have "OperationResource p = ''''" if "CHR '':'' \<notin> set p" using that by (simp add: OperationResource_empty_iff)
  moreover have "OperationResource ''product:'' = ''product''" by code_simp
  ultimately show ?thesis by simp
qed

text \<open>
  C40. With OIDC a caller is whoever the token says. A request is accepted as \<open>sub\<close> exactly when it
  carries a non-empty bearer token that the provider verifies as issued to \<open>sub\<close> and the header
  \<^verbatim>\<open>X-User-Sub\<close> names the same, non-empty \<open>sub\<close>; any other request is unauthenticated.
\<close>

theorem OIDC_accepts:
  "(OIDC_Authenticate verify r = Inr sub \<longleftrightarrow>
     (\<exists>token. rq_header r HeaderAuthorization = ''Bearer '' @ token \<and> token \<noteq> ''''
        \<and> verify token = Inr sub \<and> rq_header r HeaderUserSub = sub \<and> sub \<noteq> ''''))
   \<and> OIDC_Authenticate verify r \<in> insert (Inl ErrUnauthenticated) (range Inr)"
proof -
  have "OIDC_Authenticate verify r \<in> insert (Inl ErrUnauthenticated) (range Inr)"
    using OIDC_error[of verify r] by (cases "OIDC_Authenticate verify r") auto
  then show ?thesis using OIDC_accepts_iff[of verify r sub] by blast
qed

end
